(* ===== verification/Prelude.thy ===== *)
theory Prelude
  imports Main "HOL-Library.Word"
begin

text \<open>
  Shared vocabulary of the development: the machine integers of the Rust sources as words, the
  saturating and checked arithmetic the sources use on them, panics as values, the monotonic clock
  of \<^verbatim>\<open>ziggurat-zigbee/src/time.rs\<close>, the address types of
  \<^verbatim>\<open>ziggurat-ieee-802154/src/types.rs\<close>, and the generic lemmas on lists and options
  that the components share.

  \<^item> \<open>tbl\<close> collects the rewrite rules of the sorted-vector table, \<open>arith_defs\<close> the
    definitions of the machine arithmetic.
\<close>

named_theorems tbl \<open>rules that evaluate table operations\<close>
named_theorems arith_defs \<open>definitions of the machine arithmetic\<close>

section \<open>Machine integers\<close>

type_synonym u8 = "8 word"
type_synonym u16 = "16 word"
type_synonym u32 = "32 word"
type_synonym u64 = "64 word"

text \<open>Rust's \<open>saturating_add\<close>, \<open>saturating_sub\<close> and \<open>checked_add\<close>.\<close>

definition sat_add :: "'a::len word \<Rightarrow> 'a word \<Rightarrow> 'a word" where
  [arith_defs]: "sat_add x y = (if unat x + unat y < 2 ^ LENGTH('a) then x + y else - 1)"

definition sat_sub :: "'a::len word \<Rightarrow> 'a word \<Rightarrow> 'a word" where
  [arith_defs]: "sat_sub x y = (if y \<le> x then x - y else 0)"

definition checked_add :: "'a::len word \<Rightarrow> 'a word \<Rightarrow> 'a word option" where
  [arith_defs]: "checked_add x y = (if unat x + unat y < 2 ^ LENGTH('a) then Some (x + y) else None)"

lemma unat_max: "unat (- 1 :: 'a::len word) = 2 ^ LENGTH('a) - 1"
  by (simp add: unsigned_minus_1_eq_mask mask_eq_exp_minus_1)

lemma unat_bound: "unat (x :: 'a::len word) < 2 ^ LENGTH('a)"
  by (rule unsigned_less)

lemma unat_sat_add: "unat (sat_add x y) = min (unat x + unat y) (2 ^ LENGTH('a) - 1)"
  for x y :: "'a::len word"
  by (auto simp: sat_add_def unat_word_ariths unat_max)

lemma sat_add_ge: "x \<le> sat_add x y"
  using unat_bound [of x] by (simp add: word_le_nat_alt unat_sat_add less_eq_Suc_le)

lemma sat_add_mono: "x \<le> x' \<Longrightarrow> y \<le> y' \<Longrightarrow> sat_add x y \<le> sat_add x' y'"
  by (simp add: word_le_nat_alt unat_sat_add)

lemma sat_sub_le: "sat_sub x y \<le> x"
  by (auto simp: sat_sub_def word_sub_le)

lemma unat_sat_sub: "unat (sat_sub x y) = unat x - unat y"
  by (auto simp: sat_sub_def unat_sub_if' word_le_nat_alt)

lemma checked_add_Some: "checked_add x y = Some z \<longleftrightarrow> unat x + unat y < 2 ^ LENGTH('a) \<and> z = x + y"
  for x y :: "'a::len word"
  by (auto simp: checked_add_def)

lemma unat_checked_add: "checked_add x y = Some z \<Longrightarrow> unat z = unat x + unat y"
  by (auto simp: checked_add_def unat_word_ariths split: if_splits)

section \<open>Panics\<close>

text \<open>
  \<open>unwrap\<close> on \<open>None\<close>, \<open>expect\<close>, \<open>assert!\<close> and \<open>unreachable!\<close> abort
  the process (\<^verbatim>\<open>panic = "abort"\<close> in the workspace manifest). An operation that contains one
  returns \<open>Panic\<close> on that branch and \<open>Ret\<close> of its result otherwise.
\<close>

datatype 'a run = Panic | Ret (ret_val: 'a)

definition run_bind :: "'a run \<Rightarrow> ('a \<Rightarrow> 'b run) \<Rightarrow> 'b run" where
  "run_bind m f = (case m of Panic \<Rightarrow> Panic | Ret x \<Rightarrow> f x)"

definition unwrap :: "'a option \<Rightarrow> 'a run" where
  "unwrap x = (case x of None \<Rightarrow> Panic | Some v \<Rightarrow> Ret v)"

lemma run_bind_simps [simp]:
  "run_bind Panic f = Panic"
  "run_bind (Ret x) f = f x"
  by (simp_all add: run_bind_def)

lemma unwrap_simps [simp]:
  "unwrap None = Panic"
  "unwrap (Some v) = Ret v"
  by (simp_all add: unwrap_def)

text \<open>The \<^verbatim>\<open>?\<close> operator in code that may also abort: an error stops the computation.\<close>

definition parse_bind :: "('e + 'a) run \<Rightarrow> ('a \<Rightarrow> ('e + 'b) run) \<Rightarrow> ('e + 'b) run" where
  "parse_bind p f = run_bind p (\<lambda>r. case r of Inl e \<Rightarrow> Ret (Inl e) | Inr x \<Rightarrow> f x)"

lemma parse_bind_simps [simp]:
  "parse_bind (Ret (Inr x)) f = f x"
  "parse_bind (Ret (Inl e)) f = Ret (Inl e)"
  "parse_bind Panic f = Panic"
  by (simp_all add: parse_bind_def)

lemma parse_bind_Inr_iff: "parse_bind p f = Ret (Inr y) \<longleftrightarrow> (\<exists>x. p = Ret (Inr x) \<and> f x = Ret (Inr y))"
  by (cases p) (auto simp: parse_bind_def split: sum.splits)

lemma run_bind_Ret_iff: "run_bind m f = Ret y \<longleftrightarrow> (\<exists>x. m = Ret x \<and> f x = Ret y)"
  by (cases m) auto

lemma unwrap_Ret_iff: "unwrap x = Ret v \<longleftrightarrow> x = Some v"
  by (cases x) auto

section \<open>The monotonic clock\<close>

text \<open>
  \<^verbatim>\<open>Instant\<close> is a count of microseconds in a \<open>u64\<close>. A \<^verbatim>\<open>Duration\<close> is modelled by its
  whole microseconds, which is all that \<^verbatim>\<open>Instant + Duration\<close> reads of it
  (\<^verbatim>\<open>as_micros\<close>); it is not bounded by 64 bits, so the addition saturates twice.
\<close>

datatype instant = Instant (as_micros: u64)

type_synonym duration = nat

definition instant_add :: "instant \<Rightarrow> duration \<Rightarrow> instant" where
  "instant_add i d = Instant (sat_add (as_micros i) (if d < 2 ^ 64 then of_nat d else - 1))"

definition saturating_duration_since :: "instant \<Rightarrow> instant \<Rightarrow> duration" where
  "saturating_duration_since i earlier = unat (sat_sub (as_micros i) (as_micros earlier))"

instantiation instant :: linorder
begin

definition less_eq_instant :: "instant \<Rightarrow> instant \<Rightarrow> bool" where
  "less_eq_instant i j \<longleftrightarrow> as_micros i \<le> as_micros j"

definition less_instant :: "instant \<Rightarrow> instant \<Rightarrow> bool" where
  "less_instant i j \<longleftrightarrow> as_micros i < as_micros j"

instance
  by standard (auto simp: less_eq_instant_def less_instant_def instant.expand)

end

lemma instant_add_ge: "i \<le> instant_add i d"
  by (simp add: less_eq_instant_def instant_add_def sat_add_ge)

lemma unat_clamp_u64: "unat (if d < 2 ^ 64 then of_nat d else - 1 :: u64) = min d (2 ^ 64 - 1)"
  by (auto simp: unat_of_nat unat_max)

lemma unat_instant_add:
  "unat (as_micros (instant_add i d)) = min (unat (as_micros i) + d) (2 ^ 64 - 1)"
  using unat_bound [of "as_micros i"]
  by (cases "d < 2 ^ 64") (simp_all add: instant_add_def unat_sat_add unat_of_nat unat_max)

lemma instant_le_iff: "i \<le> j \<longleftrightarrow> unat (as_micros i) \<le> unat (as_micros j)"
  by (simp add: less_eq_instant_def word_le_nat_alt)

lemma instant_less_iff: "i < j \<longleftrightarrow> unat (as_micros i) < unat (as_micros j)"
  by (simp add: less_instant_def word_less_nat_alt)

lemma instant_add_mono: "i \<le> j \<Longrightarrow> d \<le> e \<Longrightarrow> instant_add i d \<le> instant_add j e"
  by (simp add: instant_le_iff unat_instant_add)

section \<open>Addresses\<close>

text \<open>
  \<^verbatim>\<open>Nwk(u16)\<close> is its \<open>u16\<close>, whose order is the derived one. \<^verbatim>\<open>Eui64([u8; 8])\<close> compares its bytes
  lexicographically; it is represented by the 64-bit word whose most significant byte is the first
  byte of the array, because the numeric order of these words is the derived order of the arrays.
  A \<^verbatim>\<open>Key([u8; 16])\<close> is the list of its bytes.
\<close>

type_synonym Nwk = u16
type_synonym Eui64 = u64
type_synonym Key = "u8 list"

datatype Ieee802154Address = NwkAddr Nwk | Eui64Addr Eui64

text \<open>\<^verbatim>\<open>nwk.rs\<close>: \<^verbatim>\<open>NwkDeviceType\<close>.\<close>

datatype NwkDeviceType = Coordinator | Router | EndDevice

section \<open>Lists and options\<close>

text \<open>Rust's \<open>Iterator::find_map\<close> over a list.\<close>

fun find_map :: "('a \<Rightarrow> 'b option) \<Rightarrow> 'a list \<Rightarrow> 'b option" where
  "find_map f [] = None"
| "find_map f (x # xs) = (case f x of None \<Rightarrow> find_map f xs | Some y \<Rightarrow> Some y)"

lemma find_map_SomeD: "find_map f xs = Some y \<Longrightarrow> \<exists>x \<in> set xs. f x = Some y"
  by (induction xs) (auto split: option.splits)

lemma find_map_None_iff: "find_map f xs = None \<longleftrightarrow> (\<forall>x \<in> set xs. f x = None)"
  by (induction xs) (auto split: option.splits)

text \<open>\<open>Iterator::min\<close> over a list of ordered values.\<close>

fun min_list_opt :: "'a::linorder list \<Rightarrow> 'a option" where
  "min_list_opt [] = None"
| "min_list_opt (x # xs) = (case min_list_opt xs of None \<Rightarrow> Some x | Some y \<Rightarrow> Some (min x y))"

lemma min_list_opt_None [simp]: "min_list_opt xs = None \<longleftrightarrow> xs = []"
  by (cases xs) (auto split: option.splits)

lemma min_list_opt_Some:
  "min_list_opt xs = Some m \<longleftrightarrow> m \<in> set xs \<and> (\<forall>x \<in> set xs. m \<le> x)"
proof (induction xs arbitrary: m)
  case (Cons x xs)
  show ?case
  proof (cases "min_list_opt xs")
    case None
    then show ?thesis by auto
  next
    case (Some y)
    with Cons.IH [of y] have "y \<in> set xs" "\<forall>z \<in> set xs. y \<le> z" by auto
    with Some show ?thesis by (auto simp: min_def intro: antisym)
  qed
qed simp

text \<open>Element-wise \<open>filter_map\<close> with the option results collected.\<close>

lemma set_map_filter: "set (List.map_filter f xs) = {y. \<exists>x \<in> set xs. f x = Some y}"
  by (induction xs) (auto split: option.splits)

lemma sorted_wrt_sublist:
  "sorted_wrt R (xs @ y # ys) \<Longrightarrow> sorted_wrt R (xs @ ys)"
  by (auto simp: sorted_wrt_append)

end
