(* ===== verification/Flat_Map.thy ===== *)
theory Flat_Map
  imports Prelude
begin

text \<open>
  \<^verbatim>\<open>ziggurat-zigbee/src/flat_map.rs\<close>: a map kept as a vector of pairs sorted by key and searched by
  bisection. A map is the list of its entries; every operation is written over the index that
  \<^verbatim>\<open>index_of\<close> returns (\<open>Inr i\<close> for \<^verbatim>\<open>Ok(i)\<close>, \<open>Inl i\<close> for \<^verbatim>\<open>Err(i)\<close>), as in the code.

  The locale \<open>sorted_table\<close> is the contract the tables of the stack rely on (that of
  \<^verbatim>\<open>BTreeMap\<close>, of which the type is a drop-in replacement); it is interpreted below on the
  operations of this theory, and the components use the facts of that interpretation.
\<close>

section \<open>Bisection\<close>

type_synonym ('k, 'v) flat_map = "('k \<times> 'v) list"

text \<open>
  \<^verbatim>\<open>slice::binary_search_by\<close> of the standard library: the window \<open>[base, base + size)\<close> is halved
  until one candidate is left, which is then compared.
\<close>

function bsearch_base :: "('k::linorder, 'v) flat_map \<Rightarrow> 'k \<Rightarrow> nat \<Rightarrow> nat \<Rightarrow> nat" where
  "bsearch_base m k base sz =
     (if sz \<le> 1 then base
      else let half = sz div 2; mid = base + half
           in bsearch_base m k (if k < fst (m ! mid) then base else mid) (sz - half))"
  by pat_completeness auto
termination
  by (relation "measure (\<lambda>(m, k, base, sz). sz)") auto

declare bsearch_base.simps [simp del]

definition index_of :: "('k::linorder, 'v) flat_map \<Rightarrow> 'k \<Rightarrow> nat + nat" where
  "index_of m k =
     (if m = [] then Inl 0
      else let base = bsearch_base m k 0 (length m); found = fst (m ! base)
           in if found = k then Inr base
              else Inl (if found < k then Suc base else base))"

section \<open>Operations\<close>

definition fm_new :: "('k::linorder, 'v) flat_map" where
  "fm_new = []"

definition fm_get :: "('k::linorder, 'v) flat_map \<Rightarrow> 'k \<Rightarrow> 'v option" where
  "fm_get m k = (case index_of m k of Inr i \<Rightarrow> Some (snd (m ! i)) | Inl _ \<Rightarrow> None)"

definition fm_contains_key :: "('k::linorder, 'v) flat_map \<Rightarrow> 'k \<Rightarrow> bool" where
  "fm_contains_key m k = (case index_of m k of Inr _ \<Rightarrow> True | Inl _ \<Rightarrow> False)"

text \<open>A write through a \<^verbatim>\<open>&mut V\<close> to the entry at index \<open>i\<close>.\<close>

definition fm_modify_at :: "nat \<Rightarrow> ('v \<Rightarrow> 'v) \<Rightarrow> ('k, 'v) flat_map \<Rightarrow> ('k, 'v) flat_map" where
  "fm_modify_at i f m = m[i := (fst (m ! i), f (snd (m ! i)))]"

text \<open>\<^verbatim>\<open>get_mut\<close> followed by a write of \<open>f\<close> through the reference, if the key is there.\<close>

definition fm_get_mut :: "('k::linorder, 'v) flat_map \<Rightarrow> 'k \<Rightarrow> ('v \<Rightarrow> 'v) \<Rightarrow> ('k, 'v) flat_map" where
  "fm_get_mut m k f = (case index_of m k of Inr i \<Rightarrow> fm_modify_at i f m | Inl _ \<Rightarrow> m)"

definition fm_insert :: "('k::linorder, 'v) flat_map \<Rightarrow> 'k \<Rightarrow> 'v \<Rightarrow> 'v option \<times> ('k, 'v) flat_map" where
  "fm_insert m k v =
     (case index_of m k of
        Inr i \<Rightarrow> (Some (snd (m ! i)), fm_modify_at i (\<lambda>_. v) m)
      | Inl i \<Rightarrow> (None, take i m @ (k, v) # drop i m))"

definition fm_remove :: "('k::linorder, 'v) flat_map \<Rightarrow> 'k \<Rightarrow> 'v option \<times> ('k, 'v) flat_map" where
  "fm_remove m k =
     (case index_of m k of
        Inr i \<Rightarrow> (Some (snd (m ! i)), take i m @ drop (Suc i) m)
      | Inl _ \<Rightarrow> (None, m))"

definition fm_pop_first :: "('k, 'v) flat_map \<Rightarrow> ('k \<times> 'v) option \<times> ('k, 'v) flat_map" where
  "fm_pop_first m = (case m of [] \<Rightarrow> (None, []) | e # es \<Rightarrow> (Some e, es))"

text \<open>
  The entry interface. \<open>Occupied\<close> and \<open>Vacant\<close> carry the index found by the search.
  \<open>or_insert_with\<close> returns the map together with the index that the returned \<^verbatim>\<open>&mut V\<close> points to.
\<close>

datatype 'k fm_entry = Occupied nat | Vacant nat 'k

definition fm_entry :: "('k::linorder, 'v) flat_map \<Rightarrow> 'k \<Rightarrow> 'k fm_entry" where
  "fm_entry m k = (case index_of m k of Inr i \<Rightarrow> Occupied i | Inl i \<Rightarrow> Vacant i k)"

definition fm_or_insert_with :: "('k, 'v) flat_map \<Rightarrow> 'k fm_entry \<Rightarrow> 'v \<Rightarrow> ('k, 'v) flat_map \<times> nat" where
  "fm_or_insert_with m e d =
     (case e of
        Occupied i \<Rightarrow> (m, i)
      | Vacant i k \<Rightarrow> (take i m @ (k, d) # drop i m, i))"

definition fm_and_modify :: "('k, 'v) flat_map \<Rightarrow> 'k fm_entry \<Rightarrow> ('v \<Rightarrow> 'v) \<Rightarrow> ('k, 'v) flat_map" where
  "fm_and_modify m e f = (case e of Occupied i \<Rightarrow> fm_modify_at i f m | Vacant _ _ \<Rightarrow> m)"

text \<open>\<^verbatim>\<open>entry(k).or_insert_with(|| d)\<close> followed by writes \<open>f\<close> through the reference.\<close>

definition fm_entry_write :: "('k::linorder, 'v) flat_map \<Rightarrow> 'k \<Rightarrow> 'v \<Rightarrow> ('v \<Rightarrow> 'v) \<Rightarrow> ('k, 'v) flat_map" where
  "fm_entry_write m k d f = (let (m', i) = fm_or_insert_with m (fm_entry m k) d in fm_modify_at i f m')"

text \<open>
  \<^verbatim>\<open>retain\<close>; no caller writes through the \<^verbatim>\<open>&mut V\<close> it is given. \<^verbatim>\<open>iter\<close>, \<^verbatim>\<open>keys\<close> and \<^verbatim>\<open>values\<close>
  run over the entries in order; \<open>fm_values_mut\<close> is a loop over \<^verbatim>\<open>values_mut\<close> that applies \<open>f\<close>, and
  \<open>fm_find_mut\<close> is \<^verbatim>\<open>values_mut().find(p)\<close> followed by a write.
\<close>

definition fm_retain :: "('k \<Rightarrow> 'v \<Rightarrow> bool) \<Rightarrow> ('k, 'v) flat_map \<Rightarrow> ('k, 'v) flat_map" where
  "fm_retain f m = filter (\<lambda>(k, v). f k v) m"

definition fm_keys :: "('k, 'v) flat_map \<Rightarrow> 'k list" where
  "fm_keys m = map fst m"

definition fm_values :: "('k, 'v) flat_map \<Rightarrow> 'v list" where
  "fm_values m = map snd m"

definition fm_values_mut :: "('v \<Rightarrow> 'v) \<Rightarrow> ('k, 'v) flat_map \<Rightarrow> ('k, 'v) flat_map" where
  "fm_values_mut f m = map (\<lambda>(k, v). (k, f v)) m"

fun fm_find_mut :: "('v \<Rightarrow> bool) \<Rightarrow> ('v \<Rightarrow> 'v) \<Rightarrow> ('k, 'v) flat_map \<Rightarrow> ('k, 'v) flat_map" where
  "fm_find_mut p f [] = []"
| "fm_find_mut p f ((k, v) # m) = (if p v then (k, f v) # m else (k, v) # fm_find_mut p f m)"

definition fm_extend :: "('k::linorder, 'v) flat_map \<Rightarrow> ('k \<times> 'v) list \<Rightarrow> ('k, 'v) flat_map" where
  "fm_extend m kvs = fold (\<lambda>(k, v) m. snd (fm_insert m k v)) kvs m"

definition fm_from :: "('k::linorder \<times> 'v) list \<Rightarrow> ('k, 'v) flat_map" where
  "fm_from kvs = fm_extend fm_new kvs"

text \<open>\<^verbatim>\<open>FlatSet<T>\<close> wraps \<^verbatim>\<open>FlatMap<T, ()>\<close>.\<close>

type_synonym 'a flat_set = "('a, unit) flat_map"

definition fs_new :: "'a::linorder flat_set" where
  "fs_new = fm_new"

definition fs_insert :: "'a::linorder flat_set \<Rightarrow> 'a \<Rightarrow> bool \<times> 'a flat_set" where
  "fs_insert s x = (case fm_insert s x () of (old, s') \<Rightarrow> (old = None, s'))"

definition fs_contains :: "'a::linorder flat_set \<Rightarrow> 'a \<Rightarrow> bool" where
  "fs_contains s x = fm_contains_key s x"

definition fs_remove :: "'a::linorder flat_set \<Rightarrow> 'a \<Rightarrow> bool \<times> 'a flat_set" where
  "fs_remove s x = (case fm_remove s x of (old, s') \<Rightarrow> (old \<noteq> None, s'))"

definition fs_from :: "'a::linorder list \<Rightarrow> 'a flat_set" where
  "fs_from xs = fold (\<lambda>x s. snd (fs_insert s x)) xs fs_new"

text \<open>The representation invariant: keys strictly increase.\<close>

definition fm_inv :: "('k::linorder, 'v) flat_map \<Rightarrow> bool" where
  "fm_inv m \<longleftrightarrow> sorted_wrt (<) (map fst m)"

section \<open>The contract\<close>

locale sorted_table =
  fixes new :: "'m"
    and get :: "'m \<Rightarrow> 'k::linorder \<Rightarrow> 'v option"
    and insert :: "'m \<Rightarrow> 'k \<Rightarrow> 'v \<Rightarrow> 'v option \<times> 'm"
    and remove :: "'m \<Rightarrow> 'k \<Rightarrow> 'v option \<times> 'm"
    and get_mut :: "'m \<Rightarrow> 'k \<Rightarrow> ('v \<Rightarrow> 'v) \<Rightarrow> 'm"
    and entry_write :: "'m \<Rightarrow> 'k \<Rightarrow> 'v \<Rightarrow> ('v \<Rightarrow> 'v) \<Rightarrow> 'm"
    and retain :: "('k \<Rightarrow> 'v \<Rightarrow> bool) \<Rightarrow> 'm \<Rightarrow> 'm"
    and iter :: "'m \<Rightarrow> ('k \<times> 'v) list"
    and inv :: "'m \<Rightarrow> bool"
  assumes inv_new: "inv new"
    and iter_new: "iter new = []"
    and iter_sorted: "inv m \<Longrightarrow> sorted_wrt (<) (map fst (iter m))"
    and get_iter: "inv m \<Longrightarrow> get m k = map_of (iter m) k"
    and inv_insert: "inv m \<Longrightarrow> inv (snd (insert m k v))"
    and insert_old: "inv m \<Longrightarrow> fst (insert m k v) = get m k"
    and get_insert: "inv m \<Longrightarrow> get (snd (insert m k v)) k' = (if k' = k then Some v else get m k')"
    and inv_remove: "inv m \<Longrightarrow> inv (snd (remove m k))"
    and remove_old: "inv m \<Longrightarrow> fst (remove m k) = get m k"
    and get_remove: "inv m \<Longrightarrow> get (snd (remove m k)) k' = (if k' = k then None else get m k')"
    and inv_get_mut: "inv m \<Longrightarrow> inv (get_mut m k f)"
    and get_get_mut: "inv m \<Longrightarrow>
      get (get_mut m k f) k' = (if k' = k then map_option f (get m k) else get m k')"
    and inv_entry_write: "inv m \<Longrightarrow> inv (entry_write m k d f)"
    and get_entry_write: "inv m \<Longrightarrow>
      get (entry_write m k d f) k' =
        (if k' = k then Some (f (case get m k of None \<Rightarrow> d | Some v \<Rightarrow> v)) else get m k')"
    and inv_retain: "inv m \<Longrightarrow> inv (retain p m)"
    and get_retain: "inv m \<Longrightarrow>
      get (retain p m) k = (case get m k of None \<Rightarrow> None | Some v \<Rightarrow> if p k v then Some v else None)"
begin

lemma get_new: "get new k = None"
  by (simp add: get_iter inv_new iter_new)

lemma distinct_keys: "inv m \<Longrightarrow> distinct (map fst (iter m))"
  using iter_sorted [of m] by (simp add: strict_sorted_iff)

lemma iter_iff_get: "inv m \<Longrightarrow> (k, v) \<in> set (iter m) \<longleftrightarrow> get m k = Some v"
  by (simp add: get_iter distinct_keys)

text \<open>A table is determined by its lookups: the derived \<^verbatim>\<open>PartialEq\<close> on the entries is equality of maps.\<close>

lemma iter_eq_iff_get_eq:
  assumes "inv m" "inv m'"
  shows "iter m = iter m' \<longleftrightarrow> get m = get m'"
proof
  assume "get m = get m'"
  then have eq: "map_of (iter m) = map_of (iter m')"
    using assms by (simp add: fun_eq_iff get_iter)
  from eq have set_eq: "set (iter m) = set (iter m')"
    using assms by (metis distinct_keys map_of_inject_set)
  have "inj_on fst (set (iter m) \<union> set (iter m'))"
    using distinct_keys [of m] assms set_eq by (simp add: distinct_map)
  then show "iter m = iter m'"
    using iter_sorted [of m] iter_sorted [of m'] assms set_eq
    by (intro map_sorted_distinct_set_unique [of fst]) (auto simp: strict_sorted_iff)
qed (use assms in \<open>simp add: fun_eq_iff get_iter\<close>)

text \<open>\<^verbatim>\<open>extend\<close>: pairs are inserted in order, so the last value given for a key stays.\<close>

lemma inv_extend: "inv m \<Longrightarrow> inv (fold (\<lambda>(k, v) m. snd (insert m k v)) kvs m)"
  by (induction kvs arbitrary: m) (auto simp: inv_insert)

lemma get_extend:
  "inv m \<Longrightarrow> get (fold (\<lambda>(k, v) m. snd (insert m k v)) kvs m) k =
     (case map_of (rev kvs) k of None \<Rightarrow> get m k | Some v \<Rightarrow> Some v)"
proof (induction kvs arbitrary: m)
  case (Cons kv kvs)
  then show ?case
    by (cases kv) (auto simp: inv_insert get_insert map_add_def split: option.splits)
qed simp

text \<open>Invariants of the entries, one rule per operation.\<close>

lemma all_insert:
  assumes "inv m" "\<And>k v. get m k = Some v \<Longrightarrow> P k v" "P k v" "get (snd (insert m k v)) k' = Some v'"
  shows "P k' v'"
  using assms by (auto simp: get_insert split: if_splits)

lemma all_get_mut:
  assumes "inv m" "\<And>k v. get m k = Some v \<Longrightarrow> P k v" "\<And>v. get m k = Some v \<Longrightarrow> P k v \<Longrightarrow> P k (f v)"
    and "get (get_mut m k f) k' = Some v'"
  shows "P k' v'"
  using assms by (auto simp: get_get_mut split: if_splits)

lemma all_entry_write:
  assumes "inv m" "\<And>k v. get m k = Some v \<Longrightarrow> P k v"
    and "get m k = None \<Longrightarrow> P k (f d)" "\<And>v. get m k = Some v \<Longrightarrow> P k v \<Longrightarrow> P k (f v)"
    and "get (entry_write m k d f) k' = Some v'"
  shows "P k' v'"
  using assms by (auto simp: get_entry_write split: if_splits option.splits)

lemma all_remove:
  assumes "inv m" "\<And>k v. get m k = Some v \<Longrightarrow> P k v" "get (snd (remove m k)) k' = Some v'"
  shows "P k' v'"
  using assms by (auto simp: get_remove split: if_splits)

lemma all_retain:
  assumes "inv m" "\<And>k v. get m k = Some v \<Longrightarrow> P k v" "get (retain p m) k' = Some v'"
  shows "P k' v' \<and> p k' v'"
  using assms by (auto simp: get_retain split: if_splits option.splits)

end

section \<open>The search is correct\<close>

lemma sorted_keys_less: "fm_inv m \<Longrightarrow> i < j \<Longrightarrow> j < length m \<Longrightarrow> fst (m ! i) < fst (m ! j)"
  by (auto simp: fm_inv_def sorted_wrt_iff_nth_less)

lemma bsearch_base_spec:
  assumes "fm_inv m" "0 < sz" "base + sz \<le> length m"
    and "\<And>j. base + sz \<le> j \<Longrightarrow> j < length m \<Longrightarrow> k < fst (m ! j)"
    and "base = 0 \<or> fst (m ! base) \<le> k"
    and "b = bsearch_base m k base sz"
  shows "b < length m \<and> (b = 0 \<or> fst (m ! b) \<le> k) \<and> (\<forall>j. b < j \<and> j < length m \<longrightarrow> k < fst (m ! j))"
  using assms
proof (induction m k base sz rule: bsearch_base.induct)
  case (1 m k base sz)
  show ?case
  proof (cases "sz \<le> 1")
    case True
    with 1 have "b = base" by (simp add: bsearch_base.simps)
    with True 1 show ?thesis by (auto simp: less_eq_Suc_le)
  next
    case False
    define mid where "mid = base + sz div 2"
    define base' where "base' = (if k < fst (m ! mid) then base else mid)"
    from False "1.prems"(3) have mid: "base < mid" "mid < length m" "sz div 2 < sz"
      by (auto simp: mid_def)
    have b: "b = bsearch_base m k base' (sz - sz div 2)"
      using "1.prems"(6) False
      by (simp add: bsearch_base.simps [of m k base] Let_def base'_def mid_def)
    have after: "k < fst (m ! j)" if "base' + (sz - sz div 2) \<le> j" "j < length m" for j
    proof (cases "k < fst (m ! mid)")
      case True
      with that have "mid \<le> j" by (auto simp: base'_def mid_def)
      then show ?thesis
        using True sorted_keys_less [OF "1.prems"(1), of mid j] that(2)
        by (cases "mid = j") (auto intro: less_trans)
    next
      case False
      with that show ?thesis using "1.prems"(4) [of j] by (auto simp: base'_def mid_def)
    qed
    have "base' + (sz - sz div 2) \<le> length m"
      using "1.prems"(3) by (auto simp: base'_def mid_def)
    moreover have "base' = 0 \<or> fst (m ! base') \<le> k"
      using "1.prems"(5) by (auto simp: base'_def)
    ultimately show ?thesis
      using "1.IH" [OF False refl refl, folded mid_def, folded base'_def] "1.prems"(1) after b mid
      by simp
  qed
qed

lemma index_of_cases:
  assumes "fm_inv m"
  shows "case index_of m k of
      Inr i \<Rightarrow> i < length m \<and> fst (m ! i) = k
    | Inl i \<Rightarrow> i \<le> length m \<and> (\<forall>j < i. fst (m ! j) < k) \<and> (\<forall>j. i \<le> j \<and> j < length m \<longrightarrow> k < fst (m ! j))"
proof (cases "m = []")
  case False
  define b where "b = bsearch_base m k 0 (length m)"
  have b: "b < length m" "b = 0 \<or> fst (m ! b) \<le> k" "\<And>j. b < j \<Longrightarrow> j < length m \<Longrightarrow> k < fst (m ! j)"
    using bsearch_base_spec [OF assms, of "length m" 0 k b] False by (auto simp: b_def)
  have below: "fst (m ! j) < k" if "j < b" for j
    using sorted_keys_less [OF assms that] b that by (auto intro: less_le_trans)
  consider "fst (m ! b) = k" | "fst (m ! b) < k" | "k < fst (m ! b)" by (rule linorder_cases)
  then show ?thesis
    using False b below
    by cases (auto simp: index_of_def Let_def less_Suc_eq simp flip: b_def dest: le_neq_implies_less)
qed (simp add: index_of_def)

lemma index_of_InrD: "fm_inv m \<Longrightarrow> index_of m k = Inr i \<Longrightarrow> i < length m \<and> fst (m ! i) = k"
  using index_of_cases [of m k] by simp

lemma map_of_notin: "(\<And>x. x \<in> set xs \<Longrightarrow> fst x \<noteq> k) \<Longrightarrow> map_of xs k = None"
  by (auto simp: map_of_eq_None_iff)

lemma fm_inv_split:
  "fm_inv (xs @ (k, v) # ys) \<longleftrightarrow>
     fm_inv (xs @ ys) \<and> (\<forall>x \<in> set xs. fst x < k) \<and> (\<forall>y \<in> set ys. k < fst y)"
  by (auto simp: fm_inv_def sorted_wrt_append dest: less_trans)

text \<open>The two outcomes of a search, as ways to split the vector.\<close>

lemma index_of_InlE:
  assumes "fm_inv m" "index_of m k = Inl i"
  obtains xs ys where "m = xs @ ys" "length xs = i" "\<And>v. fm_inv (xs @ (k, v) # ys)"
    "map_of xs k = None" "map_of ys k = None"
proof
  have i: "i \<le> length m" "\<And>j. j < i \<Longrightarrow> fst (m ! j) < k" "\<And>j. i \<le> j \<Longrightarrow> j < length m \<Longrightarrow> k < fst (m ! j)"
    using index_of_cases [of m k] assms by auto
  show "m = take i m @ drop i m" "length (take i m) = i" using i(1) by simp_all
  have lt: "fst x < k" if "x \<in> set (take i m)" for x using that i by (auto simp: in_set_conv_nth)
  have gt: "k < fst y" if "y \<in> set (drop i m)" for y
  proof -
    from that obtain j where "j < length m - i" "y = m ! (i + j)" by (auto simp: in_set_conv_nth)
    with i(1,3) show ?thesis by simp
  qed
  show "map_of (take i m) k = None" "map_of (drop i m) k = None"
    using lt gt by (force intro!: map_of_notin)+
  show "fm_inv (take i m @ (k, v) # drop i m)" for v
    using lt gt assms(1) by (simp add: fm_inv_split)
qed

lemma index_of_InrE:
  assumes "fm_inv m" "index_of m k = Inr i"
  obtains xs v ys where "m = xs @ (k, v) # ys" "length xs = i" "fm_inv (xs @ (k, v) # ys)"
    "map_of xs k = None" "map_of ys k = None"
proof -
  have i: "i < length m" "fst (m ! i) = k" using index_of_InrD [OF assms] by auto
  have m: "m = take i m @ (k, snd (m ! i)) # drop (Suc i) m"
    using i by (metis id_take_nth_drop prod.collapse)
  have inv: "fm_inv (take i m @ (k, snd (m ! i)) # drop (Suc i) m)"
    using assms(1) m by simp
  then have "map_of (take i m) k = None" "map_of (drop (Suc i) m) k = None"
    unfolding fm_inv_split by (force intro!: map_of_notin)+
  with that [OF m _ inv] i(1) show ?thesis by simp
qed

section \<open>Operations against lookups\<close>

lemma fm_inv_distinct: "fm_inv m \<Longrightarrow> distinct (map fst m)"
  by (simp add: fm_inv_def strict_sorted_iff)

lemma index_of_Inl_map_of: "fm_inv m \<Longrightarrow> index_of m k = Inl i \<Longrightarrow> map_of m k = None"
  by (erule (1) index_of_InlE) simp

lemma index_of_Inr_map_of: "fm_inv m \<Longrightarrow> index_of m k = Inr i \<Longrightarrow> map_of m k = Some (snd (m ! i))"
  by (erule (1) index_of_InrE) (auto simp: nth_append map_add_upd_left domIff)

lemma fm_get_map_of: "fm_inv m \<Longrightarrow> fm_get m k = map_of m k"
  by (auto simp: fm_get_def index_of_Inl_map_of index_of_Inr_map_of split: sum.splits)

lemma fm_contains_key_iff: "fm_contains_key m k \<longleftrightarrow> fm_get m k \<noteq> None"
  by (auto simp: fm_contains_key_def fm_get_def split: sum.splits)

lemma map_fst_modify_at [simp]: "map fst (fm_modify_at i f m) = map fst m"
  by (cases "i < length m")
    (simp_all add: fm_modify_at_def map_update list_update_same_conv list_update_beyond)

lemma fm_inv_modify_at [simp]: "fm_inv (fm_modify_at i f m) \<longleftrightarrow> fm_inv m"
  by (simp add: fm_inv_def)

lemma vec_insert_inv: "fm_inv m \<Longrightarrow> index_of m k = Inl i \<Longrightarrow> fm_inv (take i m @ (k, v) # drop i m)"
  by (erule (1) index_of_InlE) auto

lemma vec_insert_map_of:
  "fm_inv m \<Longrightarrow> index_of m k = Inl i \<Longrightarrow> map_of (take i m @ (k, v) # drop i m) = (map_of m)(k \<mapsto> v)"
  by (erule (1) index_of_InlE) (auto simp: map_add_upd_left domIff)

lemma modify_at_map_of:
  "fm_inv m \<Longrightarrow> index_of m k = Inr i \<Longrightarrow> map_of (fm_modify_at i f m) = (map_of m)(k \<mapsto> f (snd (m ! i)))"
  by (erule (1) index_of_InrE) (auto simp: fm_modify_at_def nth_append map_add_upd_left domIff)

lemma vec_remove_inv: "fm_inv m \<Longrightarrow> index_of m k = Inr i \<Longrightarrow> fm_inv (take i m @ drop (Suc i) m)"
  by (erule (1) index_of_InrE) (auto simp: fm_inv_split)

lemma vec_remove_map_of:
  "fm_inv m \<Longrightarrow> index_of m k = Inr i \<Longrightarrow> map_of (take i m @ drop (Suc i) m) = (map_of m)(k := None)"
  by (erule (1) index_of_InrE) (auto simp: fun_eq_iff map_add_def split: option.splits)

declare map_of_append [simp del]

lemma fm_insert_spec:
  assumes "fm_inv m"
  shows "fst (fm_insert m k v) = map_of m k" "map_of (snd (fm_insert m k v)) = (map_of m)(k \<mapsto> v)"
    "fm_inv (snd (fm_insert m k v))"
  using assms
  by (auto simp: fm_insert_def index_of_Inl_map_of index_of_Inr_map_of vec_insert_map_of
      vec_insert_inv modify_at_map_of split: sum.splits)

lemma fm_remove_spec:
  assumes "fm_inv m"
  shows "fst (fm_remove m k) = map_of m k" "map_of (snd (fm_remove m k)) = (map_of m)(k := None)"
    "fm_inv (snd (fm_remove m k))"
  using assms
  by (auto simp: fm_remove_def index_of_Inl_map_of index_of_Inr_map_of vec_remove_map_of
      vec_remove_inv fun_eq_iff split: sum.splits)

lemma fm_get_mut_spec:
  assumes "fm_inv m"
  shows "map_of (fm_get_mut m k f) = (map_of m)(k := map_option f (map_of m k))" "fm_inv (fm_get_mut m k f)"
  using assms
  by (auto simp: fm_get_mut_def index_of_Inl_map_of index_of_Inr_map_of modify_at_map_of fun_eq_iff
      split: sum.splits)

lemma index_of_inserted:
  assumes "fm_inv m" "index_of m k = Inl i"
  shows "index_of (take i m @ (k, v) # drop i m) k = Inr i" (is "index_of ?m k = _")
proof -
  have inv: "fm_inv ?m" using assms by (rule vec_insert_inv)
  have i: "i \<le> length m" using index_of_cases [of m k] assms by simp
  have "map_of ?m k = Some v" using assms by (simp only: vec_insert_map_of fun_upd_same)
  then obtain j where j: "index_of ?m k = Inr j"
    using index_of_Inl_map_of [OF inv, of k] by (cases "index_of ?m k") simp_all
  then have "fst (?m ! j) = fst (?m ! i)" "j < length ?m" "i < length ?m"
    using index_of_InrD [OF inv j] i by (simp_all add: nth_append)
  then have "j = i"
    using nth_eq_iff_index_eq [OF fm_inv_distinct [OF inv], of j i] by (simp only: length_map nth_map simp_thms)
  with j show ?thesis by simp
qed

lemma fm_entry_write_spec:
  assumes "fm_inv m"
  shows "map_of (fm_entry_write m k d f) =
      (map_of m)(k \<mapsto> f (case map_of m k of None \<Rightarrow> d | Some v \<Rightarrow> v))"
    "fm_inv (fm_entry_write m k d f)"
proof -
  have "map_of (fm_entry_write m k d f) =
      (map_of m)(k \<mapsto> f (case map_of m k of None \<Rightarrow> d | Some v \<Rightarrow> v)) \<and> fm_inv (fm_entry_write m k d f)"
  proof (cases "index_of m k")
    case (Inl i)
    let ?m = "take i m @ (k, d) # drop i m"
    have m: "fm_inv ?m" "index_of ?m k = Inr i"
      using vec_insert_inv [OF assms Inl] index_of_inserted [OF assms Inl] by blast+
    have "i \<le> length m" using index_of_cases [OF assms, of k] Inl by simp
    then have "?m ! i = (k, d)" by (simp add: nth_append)
    then have "map_of (fm_modify_at i f ?m) = (map_of m)(k \<mapsto> f d)"
      using modify_at_map_of [OF m, of f] vec_insert_map_of [OF assms Inl, of d] by simp
    moreover have "fm_entry_write m k d f = fm_modify_at i f ?m"
      using Inl by (simp add: fm_entry_write_def fm_entry_def fm_or_insert_with_def)
    ultimately show ?thesis
      using m(1) index_of_Inl_map_of [OF assms Inl] by simp
  next
    case (Inr i)
    with assms show ?thesis
      by (simp add: fm_entry_write_def fm_entry_def fm_or_insert_with_def index_of_Inr_map_of modify_at_map_of)
  qed
  then show "map_of (fm_entry_write m k d f) =
      (map_of m)(k \<mapsto> f (case map_of m k of None \<Rightarrow> d | Some v \<Rightarrow> v))" "fm_inv (fm_entry_write m k d f)"
    by auto
qed

lemma fm_retain_spec:
  assumes "fm_inv m"
  shows "map_of (fm_retain p m) k =
      (case map_of m k of None \<Rightarrow> None | Some v \<Rightarrow> if p k v then Some v else None)"
    "fm_inv (fm_retain p m)"
proof -
  have sorted: "sorted_wrt (\<lambda>x y. fst x < fst y) (filter (\<lambda>(k, v). p k v) m)"
    using assms by (intro sorted_wrt_filter) (simp add: fm_inv_def sorted_wrt_map)
  then show inv: "fm_inv (fm_retain p m)"
    by (simp add: fm_retain_def fm_inv_def sorted_wrt_map)
  have iff: "map_of (fm_retain p m) k = Some v \<longleftrightarrow> map_of m k = Some v \<and> p k v" for v
    using fm_inv_distinct [OF assms] fm_inv_distinct [OF inv] by (auto simp: fm_retain_def)
  show "map_of (fm_retain p m) k =
      (case map_of m k of None \<Rightarrow> None | Some v \<Rightarrow> if p k v then Some v else None)"
  proof (cases "map_of (fm_retain p m) k")
    case None
    then show ?thesis using iff by (cases "map_of m k") auto
  next
    case (Some v)
    then show ?thesis using iff [of v] by simp
  qed
qed

declare map_of_append [simp]

interpretation fm: sorted_table fm_new fm_get fm_insert fm_remove fm_get_mut fm_entry_write fm_retain "\<lambda>m. m" fm_inv
proof unfold_locales
  show "fm_inv fm_new" by (simp add: fm_new_def fm_inv_def)
  show "fm_new = []" by (simp add: fm_new_def)
  show "sorted_wrt (<) (map fst m)" if "fm_inv m" for m :: "('a, 'b) flat_map"
    using that by (simp add: fm_inv_def)
qed (simp_all add: fm_get_map_of fm_insert_spec fm_remove_spec fm_get_mut_spec fm_entry_write_spec
    fm_retain_spec)

lemmas fm_invs [tbl] =
  fm.inv_new fm.inv_insert fm.inv_remove fm.inv_get_mut fm.inv_entry_write fm.inv_retain fm.inv_extend

lemmas fm_gets [tbl] =
  fm.get_new fm.get_insert fm.get_remove fm.get_get_mut fm.get_entry_write fm.get_retain
  fm.insert_old fm.remove_old

text \<open>The table passes that write every entry, or the first entry with a property.\<close>

lemma map_fst_values_mut [simp]: "map fst (fm_values_mut f m) = map fst m"
  by (auto simp: fm_values_mut_def)

lemma fm_inv_values_mut [tbl]: "fm_inv m \<Longrightarrow> fm_inv (fm_values_mut f m)"
  by (simp add: fm_inv_def)

lemma fm_get_values_mut [tbl]: "fm_inv m \<Longrightarrow> fm_get (fm_values_mut f m) k = map_option f (fm_get m k)"
  by (simp add: fm_get_map_of fm_inv_values_mut) (simp add: fm_values_mut_def map_of_map)

lemma map_fst_find_mut [simp]: "map fst (fm_find_mut p f m) = map fst m"
  by (induction p f m rule: fm_find_mut.induct) auto

lemma fm_inv_find_mut [tbl]: "fm_inv m \<Longrightarrow> fm_inv (fm_find_mut p f m)"
  by (simp add: fm_inv_def)

lemma fm_inv_Cons: "fm_inv ((k, v) # m) \<longleftrightarrow> fm_inv m \<and> (\<forall>x \<in> set m. k < fst x)"
  by (auto simp: fm_inv_def)

lemma find_Some_in_set: "find p xs = Some x \<Longrightarrow> x \<in> set xs"
  by (auto simp: find_Some_iff)

lemma map_of_find_mut:
  "fm_inv m \<Longrightarrow> map_of (fm_find_mut p f m) k' =
     (case find (\<lambda>(k, v). p v) m of
        Some (k, v) \<Rightarrow> if k' = k then Some (f v) else map_of m k'
      | None \<Rightarrow> map_of m k')"
proof (induction p f m rule: fm_find_mut.induct)
  case (2 p f k v m)
  have "k < fst x" if "find (\<lambda>(k, v). p v) m = Some x" for x
    using 2(2) find_Some_in_set [OF that] by (simp add: fm_inv_Cons)
  then show ?case
    using 2 by (cases "find (\<lambda>(k, v). p v) m") (auto simp: fm_inv_Cons)
qed simp

lemma fm_get_find_mut [tbl]:
  "fm_inv m \<Longrightarrow> fm_get (fm_find_mut p f m) k' =
     (case find (\<lambda>(k, v). p v) m of
        Some (k, v) \<Rightarrow> if k' = k then Some (f v) else fm_get m k'
      | None \<Rightarrow> fm_get m k')"
  by (simp add: fm_get_map_of fm_inv_find_mut map_of_find_mut split: option.splits)

lemma fm_inv_pop_first [tbl]: "fm_inv m \<Longrightarrow> fm_inv (snd (fm_pop_first m))"
  by (auto simp: fm_pop_first_def fm_inv_def split: list.splits)

text \<open>Sets.\<close>

lemma fm_values_iff: "fm_inv m \<Longrightarrow> v \<in> set (fm_values m) \<longleftrightarrow> (\<exists>k. fm_get m k = Some v)"
  by (force simp: fm_values_def fm.iter_iff_get [symmetric])

lemma fm_fold_remove:
  "fm_inv m \<Longrightarrow> fm_inv (fold (\<lambda>k m. snd (fm_remove m k)) ks m) \<and>
     fm_get (fold (\<lambda>k m. snd (fm_remove m k)) ks m) x = (if x \<in> set ks then None else fm_get m x)"
  by (induction ks arbitrary: m) (auto simp: fm.inv_remove fm.get_remove)

text \<open>A loop over \<^verbatim>\<open>iter_mut\<close> that rewrites each value, reading its key.\<close>

lemma fm_map_values:
  assumes "fm_inv m"
  shows "fm_inv (map (\<lambda>(k, v). (k, f k v)) m)" "fm_get (map (\<lambda>(k, v). (k, f k v)) m) k = map_option (f k) (fm_get m k)"
proof -
  have keys: "map fst (map (\<lambda>(k, v). (k, f k v)) m) = map fst m" by (simp add: split_beta comp_def)
  show inv: "fm_inv (map (\<lambda>(k, v). (k, f k v)) m)" using assms unfolding fm_inv_def keys .
  show "fm_get (map (\<lambda>(k, v). (k, f k v)) m) k = map_option (f k) (fm_get m k)"
    unfolding fm_get_map_of [OF inv] fm_get_map_of [OF assms] by (induction m) auto
qed

lemma fs_inv_insert [tbl]: "fm_inv s \<Longrightarrow> fm_inv (snd (fs_insert s x))"
  by (simp add: fs_insert_def fm.inv_insert split_def)

lemma fs_contains_iff: "fs_contains s x \<longleftrightarrow> fm_get s x \<noteq> None"
  by (simp add: fs_contains_def fm_contains_key_iff)

lemma fs_contains_insert [tbl]:
  "fm_inv s \<Longrightarrow> fs_contains (snd (fs_insert s x)) y \<longleftrightarrow> y = x \<or> fs_contains s y"
  by (simp add: fs_contains_iff fs_insert_def split_def fm.get_insert)

lemma fs_fold_insert:
  "fm_inv s \<Longrightarrow> fm_inv (fold (\<lambda>x s. snd (fs_insert s x)) xs s) \<and>
     (fs_contains (fold (\<lambda>x s. snd (fs_insert s x)) xs s) y \<longleftrightarrow> y \<in> set xs \<or> fs_contains s y)"
  by (induction xs arbitrary: s) (auto simp: tbl)

lemma fs_new_facts [tbl]: "fm_inv fs_new" "\<not> fs_contains fs_new x"
  by (simp_all add: fs_new_def tbl fs_contains_iff)

lemma fs_from_facts [tbl]: "fm_inv (fs_from xs)" "fs_contains (fs_from xs) y \<longleftrightarrow> y \<in> set xs"
  using fs_fold_insert [of fs_new xs y] by (simp_all add: fs_from_def tbl)

lemma fm_and_modify_or_insert:
  assumes "fm_inv m" "f d = d"
  shows "fst (fm_or_insert_with (fm_and_modify m (fm_entry m k) f) (fm_entry m k) d) = fm_entry_write m k d f"
proof (cases "index_of m k")
  case (Inl i)
  then have "i \<le> length m" using index_of_cases [OF assms(1), of k] by simp
  then have "(take i m @ (k, d) # drop i m) ! i = (k, d)"
    "(take i m @ (k, d) # drop i m)[i := (k, d)] = take i m @ (k, d) # drop i m"
    by (simp_all add: nth_append list_update_append)
  with Inl assms(2) show ?thesis
    by (simp add: fm_entry_def fm_and_modify_def fm_or_insert_with_def fm_entry_write_def fm_modify_at_def)
qed (simp add: fm_entry_def fm_and_modify_def fm_or_insert_with_def fm_entry_write_def)

section \<open>Refinement: a run of operations behaves as a finite map\<close>

text \<open>
  A client's calls as data. The concrete run threads the vector through the operations above; the
  abstract run threads a finite map through their meaning.
\<close>

datatype ('k, 'v) fm_op =
    OpInsert 'k 'v
  | OpRemove 'k
  | OpPopFirst
  | OpGetMut 'k "'v \<Rightarrow> 'v"
  | OpEntry 'k 'v "'v \<Rightarrow> 'v"
  | OpAndModify 'k "'v \<Rightarrow> 'v"
  | OpRetain "'k \<Rightarrow> 'v \<Rightarrow> bool"
  | OpValuesMut "'v \<Rightarrow> 'v"
  | OpClear

fun fm_exec :: "('k::linorder, 'v) fm_op \<Rightarrow> ('k, 'v) flat_map \<Rightarrow> ('k, 'v) flat_map" where
  "fm_exec (OpInsert k v) m = snd (fm_insert m k v)"
| "fm_exec (OpRemove k) m = snd (fm_remove m k)"
| "fm_exec OpPopFirst m = snd (fm_pop_first m)"
| "fm_exec (OpGetMut k f) m = fm_get_mut m k f"
| "fm_exec (OpEntry k d f) m = fm_entry_write m k d f"
| "fm_exec (OpAndModify k f) m = fm_and_modify m (fm_entry m k) f"
| "fm_exec (OpRetain p) m = fm_retain p m"
| "fm_exec (OpValuesMut f) m = fm_values_mut f m"
| "fm_exec OpClear m = fm_new"

fun map_exec :: "('k::linorder, 'v) fm_op \<Rightarrow> ('k \<rightharpoonup> 'v) \<Rightarrow> ('k \<rightharpoonup> 'v)" where
  "map_exec (OpInsert k v) m = m(k \<mapsto> v)"
| "map_exec (OpRemove k) m = m(k := None)"
| "map_exec OpPopFirst m = (if m = Map.empty then m else m(Min (dom m) := None))"
| "map_exec (OpGetMut k f) m = m(k := map_option f (m k))"
| "map_exec (OpEntry k d f) m = m(k \<mapsto> f (case m k of None \<Rightarrow> d | Some v \<Rightarrow> v))"
| "map_exec (OpAndModify k f) m = m(k := map_option f (m k))"
| "map_exec (OpRetain p) m =
     (\<lambda>k. case m k of None \<Rightarrow> None | Some v \<Rightarrow> if p k v then Some v else None)"
| "map_exec (OpValuesMut f) m = map_option f \<circ> m"
| "map_exec OpClear m = Map.empty"

lemma fm_and_modify_get_mut: "fm_and_modify m (fm_entry m k) f = fm_get_mut m k f"
  by (simp add: fm_and_modify_def fm_entry_def fm_get_mut_def split: sum.splits)

lemma map_of_pop_first:
  assumes "fm_inv m"
  shows "map_of (snd (fm_pop_first m)) =
    (if m = [] then Map.empty else (map_of m)(Min (dom (map_of m)) := None))"
proof (cases m)
  case (Cons e es)
  obtain k v where e: "e = (k, v)" by force
  have lt: "\<forall>x \<in> set es. k < fst x" using assms Cons e by (simp add: fm_inv_Cons)
  then have "Min (dom (map_of m)) = k"
    using Cons e by (auto simp: dom_map_of_conv_image_fst intro!: Min_eqI)
  moreover have "map_of es k = None" using lt by (force intro!: map_of_notin)
  ultimately show ?thesis using Cons e by (auto simp: fm_pop_first_def)
qed (simp add: fm_pop_first_def)

lemma fm_exec_refines:
  assumes "fm_inv m"
  shows "fm_inv (fm_exec c m) \<and> fm_get (fm_exec c m) = map_exec c (fm_get m)"
proof (cases c)
  case OpPopFirst
  have "(fm_get m = Map.empty) = (m = [])"
    using assms by (simp add: fm_get_map_of fun_eq_iff flip: map_of_eq_empty_iff)
  moreover have "fm_get m = map_of m" "fm_get (snd (fm_pop_first m)) = map_of (snd (fm_pop_first m))"
    using assms by (auto simp: fun_eq_iff fm_get_map_of fm_inv_pop_first)
  ultimately show ?thesis
    using OpPopFirst assms by (simp add: fm_inv_pop_first map_of_pop_first)
qed (use assms in \<open>auto simp: fun_eq_iff tbl fm_and_modify_get_mut\<close>)

lemma fm_run_refines:
  "fm_inv m \<Longrightarrow> fm_inv (fold fm_exec cs m) \<and> fm_get (fold fm_exec cs m) = fold map_exec cs (fm_get m)"
  using fm_exec_refines by (induction cs arbitrary: m) auto

text \<open>
  C4: A \<^verbatim>\<open>FlatMap\<close> built from the empty one by any sequence of calls keeps its keys strictly sorted and
  answers every lookup as the finite map that the same calls build; two such maps are equal as vectors
  exactly when they are equal as maps.
\<close>

theorem flat_map_refines_map:
  "fm_inv (fold fm_exec cs fm_new) \<and>
   fm_get (fold fm_exec cs fm_new) = fold map_exec cs Map.empty \<and>
   (fold fm_exec cs fm_new = fold fm_exec cs' fm_new \<longleftrightarrow>
      fold map_exec cs Map.empty = fold map_exec cs' Map.empty)"
proof -
  have new: "fm_inv (fm_new :: ('a, 'b) flat_map)" "fm_get (fm_new :: ('a, 'b) flat_map) = Map.empty"
    by (auto simp: fun_eq_iff tbl)
  show ?thesis
    using fm_run_refines [OF new(1)]
      fm.iter_eq_iff_get_eq [of "fold fm_exec cs fm_new" "fold fm_exec cs' fm_new"]
    by (simp add: new(2))
qed

end
