(* ===== verification/Ring_Buffer.thy ===== *)
theory Ring_Buffer
  imports Prelude
begin

text \<open>
  \<^verbatim>\<open>ziggurat-zigbee/src/ring_buffer.rs\<close>: the last \<open>N\<close> values pushed, stored in a fixed array with a
  length and a write cursor of eight bits each. The capacity, a const generic of the code, is an
  argument of the definitions that read it. Additions wrap, as in the release profile.
\<close>

record 'a ring =
  ring_slots :: "'a list"
  ring_len :: u8
  ring_next :: u8

definition rb_new :: "nat \<Rightarrow> 'a \<Rightarrow> 'a ring" where
  "rb_new N dflt = \<lparr>ring_slots = replicate N dflt, ring_len = 0, ring_next = 0\<rparr>"

text \<open>An index out of the array panics.\<close>

definition rb_push :: "nat \<Rightarrow> 'a \<Rightarrow> 'a ring \<Rightarrow> 'a ring run" where
  "rb_push N x r =
     (if unat (ring_next r) < length (ring_slots r) then
        Ret (r\<lparr>ring_slots := (ring_slots r)[unat (ring_next r) := x],
               ring_next := (ring_next r + 1) mod of_nat N,
               ring_len := min (ring_len r + 1) (of_nat N)\<rparr>)
      else Panic)"

definition rb_clear :: "'a ring \<Rightarrow> 'a ring" where
  "rb_clear r = r\<lparr>ring_len := 0, ring_next := 0\<rparr>"

definition rb_len :: "'a ring \<Rightarrow> nat" where
  "rb_len r = unat (ring_len r)"

definition rb_is_empty :: "'a ring \<Rightarrow> bool" where
  "rb_is_empty r \<longleftrightarrow> ring_len r = 0"

definition rb_is_full :: "nat \<Rightarrow> 'a ring \<Rightarrow> bool" where
  "rb_is_full N r \<longleftrightarrow> unat (ring_len r) = N"

definition rb_values :: "'a ring \<Rightarrow> 'a list" where
  "rb_values r = take (rb_len r) (ring_slots r)"

text \<open>A sequence of pushes.\<close>

fun rb_pushes :: "nat \<Rightarrow> 'a list \<Rightarrow> 'a ring \<Rightarrow> 'a ring run" where
  "rb_pushes N [] r = Ret r"
| "rb_pushes N (x # xs) r = run_bind (rb_push N x r) (rb_pushes N xs)"

section \<open>What a ring represents\<close>

text \<open>
  \<open>rb_repr N h r\<close>: the ring holds the history \<open>h\<close> of the values pushed since it was created or
  cleared, the value number \<open>j\<close> at slot \<open>j mod N\<close> as long as it is among the last \<open>N\<close>.
\<close>

definition rb_repr :: "nat \<Rightarrow> 'a list \<Rightarrow> 'a ring \<Rightarrow> bool" where
  "rb_repr N h r \<longleftrightarrow>
     length (ring_slots r) = N \<and> unat (ring_next r) = length h mod N \<and> unat (ring_len r) = min (length h) N \<and>
     (\<forall>j. length h \<le> j + N \<and> j < length h \<longrightarrow> ring_slots r ! (j mod N) = h ! j)"

lemma rb_repr_new: "rb_repr N [] (rb_new N d)"
  by (simp add: rb_repr_def rb_new_def)

lemma rb_repr_clear: "rb_repr N h r \<Longrightarrow> rb_repr N [] (rb_clear r)"
  by (simp add: rb_repr_def rb_clear_def)

lemma mod_window_neq:
  fixes a b N :: nat
  assumes "b < a" "a < b + N"
  shows "b mod N \<noteq> a mod N"
proof
  assume "b mod N = a mod N"
  then have "N dvd a - b" using assms(1) by (metis mod_eq_dvd_iff_nat less_imp_le)
  then show False using assms by (auto dest: dvd_imp_le)
qed

lemma rb_push_slot:
  fixes n :: u8
  assumes "unat n < N" "N < 256"
  shows "unat ((n + 1) mod of_nat N) = Suc (unat n) mod N"
  using assms by (simp add: unat_mod unat_of_nat unat_word_ariths)

lemma rb_push_len:
  fixes n :: u8
  assumes "unat n \<le> N" "N < 255"
  shows "unat (min (n + 1) (of_nat N)) = min (Suc (unat n)) N"
  using assms by (simp add: min_def word_le_nat_alt unat_of_nat unat_word_ariths)

lemma rb_repr_push:
  assumes "rb_repr N h r" "0 < N" "N < 255"
  obtains r' where "rb_push N x r = Ret r'" "rb_repr N (h @ [x]) r'"
proof -
  define i where "i = length h mod N"
  have r: "length (ring_slots r) = N" "unat (ring_next r) = i" "unat (ring_len r) = min (length h) N" "i < N"
    and hist: "\<And>j. length h \<le> j + N \<Longrightarrow> j < length h \<Longrightarrow> ring_slots r ! (j mod N) = h ! j"
    using assms by (auto simp: rb_repr_def i_def)
  let ?r' = "r\<lparr>ring_slots := (ring_slots r)[i := x], ring_next := (ring_next r + 1) mod of_nat N,
               ring_len := min (ring_len r + 1) (of_nat N)\<rparr>"
  have "rb_push N x r = Ret ?r'" using r by (simp add: rb_push_def)
  moreover have "ring_slots ?r' ! (j mod N) = (h @ [x]) ! j"
    if "length (h @ [x]) \<le> j + N" "j < length (h @ [x])" for j
    using that hist [of j] mod_window_neq [of j "length h" N] r
    by (cases "j = length h") (auto simp: i_def nth_append)
  moreover have "unat (ring_next ?r') = length (h @ [x]) mod N" "unat (ring_len ?r') = min (length (h @ [x])) N"
    using rb_push_slot [of "ring_next r" N] rb_push_len [of "ring_len r" N] r assms(2,3)
    by (auto simp: i_def mod_Suc_eq)
  ultimately show thesis using that [of ?r'] r(1) by (simp add: rb_repr_def)
qed

lemma rb_repr_pushes:
  assumes "rb_repr N h r" "0 < N" "N < 255"
  shows "\<exists>r'. rb_pushes N xs r = Ret r' \<and> rb_repr N (h @ xs) r'"
  using assms(1)
proof (induction xs arbitrary: h r)
  case (Cons x xs)
  obtain r' where "rb_push N x r = Ret r'" "rb_repr N (h @ [x]) r'"
    using rb_repr_push [OF Cons.prems assms(2,3)] by blast
  with Cons.IH [of "h @ [x]" r'] show ?case by simp
qed simp

text \<open>Until the ring wraps, the stored values are the history in order.\<close>

lemma rb_values_short:
  assumes "rb_repr N h r" "length h \<le> N"
  shows "rb_values r = h"
proof (rule nth_equalityI)
  show "length (rb_values r) = length h" using assms by (simp add: rb_repr_def rb_values_def rb_len_def)
next
  fix j assume "j < length (rb_values r)"
  then have "j < length h" "j < N" using assms by (auto simp: rb_repr_def rb_values_def rb_len_def)
  then show "rb_values r ! j = h ! j"
    using assms by (auto simp: rb_repr_def rb_values_def rb_len_def dest: spec [of _ j])
qed

text \<open>After that they are the last \<open>N\<close> values, rotated: the oldest is at the write cursor.\<close>

lemma rb_values_full:
  assumes "rb_repr N h r" "N \<le> length h" "0 < N"
  shows "rotate (length h mod N) (rb_values r) = drop (length h - N) h"
proof (rule nth_equalityI)
  have vs: "rb_values r = ring_slots r" "length (ring_slots r) = N"
    using assms by (auto simp: rb_repr_def rb_values_def rb_len_def)
  then show len: "length (rotate (length h mod N) (rb_values r)) = length (drop (length h - N) h)"
    using assms(2) by simp
  fix j assume "j < length (rotate (length h mod N) (rb_values r))"
  then have j: "j < N" using vs by simp
  have "(length h mod N + j) mod N = (length h - N + j) mod N"
    using assms(2) by (metis le_add_diff_inverse2 mod_add_left_eq mod_add_self2)
  moreover have "ring_slots r ! ((length h - N + j) mod N) = h ! (length h - N + j)"
    using assms j by (auto simp: rb_repr_def)
  ultimately show "rotate (length h mod N) (rb_values r) ! j = drop (length h - N) h ! j"
    using vs j assms(2) by (simp add: nth_rotate)
qed

text \<open>
  C29: A ring of capacity \<open>N\<close> (up to 254) never indexes out of its array, and after any sequence of
  pushes it holds exactly the last \<open>N\<close> of them: in insertion order until it wraps, rotated by the
  write cursor after that; it reports itself full exactly when \<open>N\<close> values have been pushed.
\<close>

theorem ring_keeps_last_values:
  assumes "0 < N" "N < 255"
  shows "\<exists>r. rb_pushes N h (rb_new N d) = Ret r \<and>
    (length h \<le> N \<longrightarrow> rb_values r = h) \<and>
    (N \<le> length h \<longrightarrow> rotate (length h mod N) (rb_values r) = drop (length h - N) h) \<and>
    (rb_is_full N r \<longleftrightarrow> N \<le> length h)"
proof -
  obtain r where "rb_pushes N h (rb_new N d) = Ret r" and r: "rb_repr N h r"
    using rb_repr_pushes [OF rb_repr_new assms] by force
  moreover have "rb_is_full N r \<longleftrightarrow> N \<le> length h"
    using r by (auto simp: rb_repr_def rb_is_full_def)
  ultimately show ?thesis using rb_values_short rb_values_full assms(1) by blast
qed

theorem ring_keeps_last_values_witness:
  "\<exists>r. rb_pushes 3 [7, 8, 9, 10] (rb_new 3 (0 :: u8)) = Ret r \<and>
     rotate 1 (rb_values r) = [8, 9, 10] \<and> rb_is_full 3 r"
  using ring_keeps_last_values [of 3 "[7, 8, 9, 10]" "0 :: u8"] by simp

text \<open>
  C40: The compile-time assertion on the capacity admits 255, where the length counter wraps: the push
  that follows a full ring makes it report that it is empty.
\<close>

theorem ring_capacity_255_forgets:
  assumes "rb_repr 255 h r" "255 \<le> length h"
  shows "\<exists>r'. rb_push 255 x r = Ret r' \<and> rb_is_empty r' \<and> rb_values r' = []"
proof -
  have "unat (ring_len r) = 255" "unat (ring_next r) < length (ring_slots r)"
    using assms by (auto simp: rb_repr_def)
  then have "ring_len r + 1 = 0" by (simp add: word_unat_eq_iff unat_word_ariths)
  then show ?thesis
    using \<open>unat (ring_next r) < length (ring_slots r)\<close>
    by (simp add: rb_push_def rb_is_empty_def rb_values_def rb_len_def)
qed

theorem ring_capacity_255_forgets_witness:
  "\<exists>r'. rb_push 255 1 \<lparr>ring_slots = replicate 255 (0 :: u8), ring_len = 255, ring_next = 0\<rparr> = Ret r' \<and>
     rb_is_empty r' \<and> rb_values r' = []"
  by (rule ring_capacity_255_forgets [of "replicate 255 0"]) (simp_all add: rb_repr_def)

end
