(* ===== verification/Replay_Guard.thy ===== *)
theory Replay_Guard
  imports Prelude
begin

text \<open>
  The contract of replay protection, shared by the network layer
  (\<^verbatim>\<open>ziggurat-zigbee/src/nwk/security.rs\<close>) and the application support layer
  (\<^verbatim>\<open>ziggurat-zigbee/src/aps/security.rs\<close>): a step takes an input with a sender and a frame counter and
  accepts or rejects it; \<open>floor\<close> is the least counter that a sender may still use. Both layers
  interpret the locale, and their statements on histories of inputs are its lemmas.
\<close>

text \<open>The inputs of a history that a step function accepts.\<close>

fun accepted_inputs :: "('s \<Rightarrow> 'i \<Rightarrow> bool \<times> 's) \<Rightarrow> 's \<Rightarrow> 'i list \<Rightarrow> 'i list" where
  "accepted_inputs step s [] = []"
| "accepted_inputs step s (i # is) =
     (case step s i of (b, s') \<Rightarrow>
        if b then i # accepted_inputs step s' is else accepted_inputs step s' is)"

locale replay_guard =
  fixes step :: "'s \<Rightarrow> 'i \<Rightarrow> bool \<times> 's"
    and sender :: "'i \<Rightarrow> 'd"
    and counter :: "'i \<Rightarrow> u32"
    and floor :: "'s \<Rightarrow> 'd \<Rightarrow> nat"
    and inv :: "'s \<Rightarrow> bool"
  assumes step_inv: "inv s \<Longrightarrow> step s i = (b, s') \<Longrightarrow> inv s'"
    and step_accept: "inv s \<Longrightarrow> step s i = (True, s') \<Longrightarrow> floor s (sender i) \<le> unat (counter i)"
    and step_floor: "inv s \<Longrightarrow> step s i = (b, s') \<Longrightarrow>
      floor s' d = (if b \<and> d = sender i then Suc (unat (counter i)) else floor s d)"
begin

lemma floor_mono: "inv s \<Longrightarrow> step s i = (b, s') \<Longrightarrow> floor s d \<le> floor s' d"
  using step_accept [of s i s'] step_floor [of s i b s' d] by auto

lemma accepted_floor:
  "inv s \<Longrightarrow> i \<in> set (accepted_inputs step s is) \<Longrightarrow> floor s (sender i) \<le> unat (counter i)"
proof (induction "is" arbitrary: s)
  case (Cons j "is")
  obtain b s' where st: "step s j = (b, s')" by force
  have "floor s (sender i) \<le> unat (counter i)" if "i \<in> set (accepted_inputs step s' is)"
    using Cons.IH [OF step_inv [OF Cons.prems(1) st] that] floor_mono [OF Cons.prems(1) st] le_trans by blast
  then show ?case using Cons.prems st step_accept [of s i s'] by (auto split: if_splits)
qed simp

text \<open>The counters accepted from one sender strictly increase along every history.\<close>

lemma accepted_increasing:
  "inv s \<Longrightarrow> sorted_wrt (<) (map counter (filter (\<lambda>i. sender i = d) (accepted_inputs step s is)))"
proof (induction "is" arbitrary: s)
  case (Cons i "is")
  obtain b s' where st: "step s i = (b, s')" by force
  have s': "inv s'" by (rule step_inv [OF Cons.prems st])
  have "counter i < counter j" if "b" "sender i = sender j" "j \<in> set (accepted_inputs step s' is)" for j
    using accepted_floor [OF s' that(3)] step_floor [OF Cons.prems st, of "sender j"] that
    by (simp add: word_less_nat_alt)
  then show ?case using Cons.IH [OF s'] st by auto
qed simp

text \<open>No sender gets the same counter accepted twice.\<close>

lemma accepted_distinct: "inv s \<Longrightarrow> distinct (map counter (filter (\<lambda>i. sender i = d) (accepted_inputs step s is)))"
  using accepted_increasing [of s d "is"] by (simp add: strict_sorted_iff)

end

end
