(* ===== verification/Nwk_Security.thy ===== *)
theory Nwk_Security
  imports Flat_Map Replay_Guard
begin

text \<open>
  \<^verbatim>\<open>ziggurat-zigbee/src/nwk/security.rs\<close>: the network key, its outgoing frame counter and the incoming
  frame counters of the devices that relay frames to us.
\<close>

datatype NetworkKeyType = Standard

record NwkSecurityDescriptor =
  desc_key_seq_number :: u8
  desc_outgoing_frame_counter :: u32
  incoming_frame_counter_set :: "(Eui64, u32) flat_map"
  desc_key :: Key
  network_key_type :: NetworkKeyType

record CounterAdvance =
  advance_value :: u32
  should_persist :: bool

record NwkSecurity =
  primary :: NwkSecurityDescriptor
  alternate :: NwkSecurityDescriptor
  sec_active_key_seq_number :: u8
  all_fresh :: bool
  persist_interval :: u32

definition nwk_security_new :: "Key \<Rightarrow> u8 \<Rightarrow> u32 \<Rightarrow> u32 \<Rightarrow> NwkSecurity" where
  "nwk_security_new key key_seq_number outgoing_frame_counter interval =
     \<lparr>primary = \<lparr>desc_key_seq_number = key_seq_number,
                 desc_outgoing_frame_counter = outgoing_frame_counter,
                 incoming_frame_counter_set = fm_new, desc_key = key, network_key_type = Standard\<rparr>,
      alternate = \<lparr>desc_key_seq_number = 0, desc_outgoing_frame_counter = 0,
                   incoming_frame_counter_set = fm_new, desc_key = replicate 16 0,
                   network_key_type = Standard\<rparr>,
      sec_active_key_seq_number = key_seq_number, all_fresh = False, persist_interval = interval\<rparr>"

definition network_key :: "NwkSecurity \<Rightarrow> Key" where
  "network_key s = desc_key (primary s)"

definition key_seq_number :: "NwkSecurity \<Rightarrow> u8" where
  "key_seq_number s = desc_key_seq_number (primary s)"

definition active_key_seq_number :: "NwkSecurity \<Rightarrow> u8" where
  "active_key_seq_number s = sec_active_key_seq_number s"

definition nwk_outgoing_frame_counter :: "NwkSecurity \<Rightarrow> u32" where
  "nwk_outgoing_frame_counter s = desc_outgoing_frame_counter (primary s)"

text \<open>\<^verbatim>\<open>u32::is_multiple_of\<close>: only zero is a multiple of zero.\<close>

definition is_multiple_of :: "u32 \<Rightarrow> u32 \<Rightarrow> bool" where
  "is_multiple_of x y = (if y = 0 then x = 0 else x mod y = 0)"

definition nwk_next_outgoing_frame_counter :: "NwkSecurity \<Rightarrow> (CounterAdvance \<times> NwkSecurity) run" where
  "nwk_next_outgoing_frame_counter s =
     run_bind (unwrap (checked_add (desc_outgoing_frame_counter (primary s)) 1))
       (\<lambda>v. Ret (\<lparr>advance_value = v, should_persist = is_multiple_of v (persist_interval s)\<rparr>,
                 s\<lparr>primary := (primary s)\<lparr>desc_outgoing_frame_counter := v\<rparr>\<rparr>))"

definition inbound_network_key :: "NwkSecurity \<Rightarrow> Eui64 \<Rightarrow> u8 \<Rightarrow> u32 \<Rightarrow> Key option" where
  "inbound_network_key s sender key_sequence_number frame_counter =
     (if key_sequence_number \<noteq> sec_active_key_seq_number s then None
      else if frame_counter = - 1 then None
      else case fm_get (incoming_frame_counter_set (primary s)) sender of
          None \<Rightarrow> Some (desc_key (primary s))
        | Some last_stored \<Rightarrow> if frame_counter \<le> last_stored then None else Some (desc_key (primary s)))"

definition note_inbound_frame_counter :: "NwkSecurity \<Rightarrow> Eui64 \<Rightarrow> u32 \<Rightarrow> u32 option \<times> NwkSecurity" where
  "note_inbound_frame_counter s sender frame_counter =
     (case fm_insert (incoming_frame_counter_set (primary s)) sender frame_counter of
        (old, counters) \<Rightarrow> (old, s\<lparr>primary := (primary s)\<lparr>incoming_frame_counter_set := counters\<rparr>\<rparr>))"

section \<open>Replay protection\<close>

text \<open>
  A secured frame as the receive path handles it: the header is checked, the frame is decrypted with the
  key returned (\<open>decrypts\<close>), and the counter is noted when that succeeded.
\<close>

record nwk_input =
  in_sender :: Eui64
  in_key_seq :: u8
  in_counter :: u32
  in_decrypts :: "Key \<Rightarrow> bool"

definition nwk_receive :: "NwkSecurity \<Rightarrow> nwk_input \<Rightarrow> bool \<times> NwkSecurity" where
  "nwk_receive s i =
     (case inbound_network_key s (in_sender i) (in_key_seq i) (in_counter i) of
        None \<Rightarrow> (False, s)
      | Some k \<Rightarrow>
          if in_decrypts i k then (True, snd (note_inbound_frame_counter s (in_sender i) (in_counter i)))
          else (False, s))"

definition nwk_security_inv :: "NwkSecurity \<Rightarrow> bool" where
  "nwk_security_inv s \<longleftrightarrow> fm_inv (incoming_frame_counter_set (primary s))"

definition nwk_floor :: "NwkSecurity \<Rightarrow> Eui64 \<Rightarrow> nat" where
  "nwk_floor s d = (case fm_get (incoming_frame_counter_set (primary s)) d of
     None \<Rightarrow> 0 | Some c \<Rightarrow> Suc (unat c))"

lemma nwk_security_inv_new: "nwk_security_inv (nwk_security_new k n c p)"
  by (simp add: nwk_security_inv_def nwk_security_new_def tbl)

interpretation nwk_replay: replay_guard nwk_receive in_sender in_counter nwk_floor nwk_security_inv
proof
  fix s i b s' assume inv: "nwk_security_inv s" and st: "nwk_receive s i = (b, s')"
  then show "nwk_security_inv s'"
    by (auto simp: nwk_receive_def note_inbound_frame_counter_def nwk_security_inv_def tbl split_def
        split: option.splits if_splits)
  show "nwk_floor s' d = (if b \<and> d = in_sender i then Suc (unat (in_counter i)) else nwk_floor s d)" for d
    using inv st
    by (auto simp: nwk_receive_def note_inbound_frame_counter_def nwk_security_inv_def nwk_floor_def tbl
        split_def split: option.splits if_splits)
next
  fix s i s' assume "nwk_security_inv s" "nwk_receive s i = (True, s')"
  then show "nwk_floor s (in_sender i) \<le> unat (in_counter i)"
    by (auto simp: nwk_receive_def inbound_network_key_def nwk_floor_def word_le_nat_alt
        split: option.splits if_splits)
qed

text \<open>
  C5: Replay protection of the network layer. From a fresh state and for every history of secured frames,
  the frame counters accepted from one relaying device strictly increase, so no frame counter is accepted
  twice from it.
\<close>

theorem nwk_replay_protection:
  "sorted_wrt (<)
     (map in_counter
       (filter (\<lambda>i. in_sender i = d)
         (accepted_inputs nwk_receive (nwk_security_new key seq c interval) frames)))"
  by (rule nwk_replay.accepted_increasing [OF nwk_security_inv_new])

text \<open>
  A frame is rejected whatever its counter when its key sequence number is not the active one, and
  the maximal counter is rejected whatever its sender; otherwise a frame is given the network key exactly
  when its counter is above the one stored for the sender.
\<close>

theorem inbound_network_key_spec:
  "inbound_network_key s sender seq c =
     (if seq = active_key_seq_number s \<and> unat c < 2 ^ 32 - 1 \<and> nwk_floor s sender \<le> unat c
      then Some (network_key s) else None)"
proof -
  have "c = - 1 \<longleftrightarrow> \<not> unat c < 2 ^ 32 - 1"
    using unat_bound [of c] unat_max [where 'a = 32] by (auto simp: word_unat_eq_iff)
  then show ?thesis
    by (auto simp: inbound_network_key_def active_key_seq_number_def network_key_def nwk_floor_def
        word_le_nat_alt split: option.splits)
qed

section \<open>Outgoing counters\<close>

fun nwk_advances :: "nat \<Rightarrow> NwkSecurity \<Rightarrow> (CounterAdvance list \<times> NwkSecurity) run" where
  "nwk_advances 0 s = Ret ([], s)"
| "nwk_advances (Suc n) s =
     run_bind (nwk_next_outgoing_frame_counter s)
       (\<lambda>(a, s'). run_bind (nwk_advances n s') (\<lambda>(as, s''). Ret (a # as, s'')))"

lemma nwk_advance_simps:
  "nwk_next_outgoing_frame_counter s =
     (if unat (nwk_outgoing_frame_counter s) < 2 ^ 32 - 1 then
        let v = nwk_outgoing_frame_counter s + 1 in
          Ret (\<lparr>advance_value = v, should_persist = is_multiple_of v (persist_interval s)\<rparr>,
               s\<lparr>primary := (primary s)\<lparr>desc_outgoing_frame_counter := v\<rparr>\<rparr>)
      else Panic)"
  by (auto simp: nwk_next_outgoing_frame_counter_def checked_add_def nwk_outgoing_frame_counter_def Let_def)

text \<open>
  C27: Outgoing frame counters never repeat: \<open>n\<close> advances return the \<open>n\<close> values that follow the stored
  counter, in order, and store the last; when the counter space does not hold them the code stops with a
  panic instead of wrapping.
\<close>

theorem nwk_outgoing_counters:
  "(if unat (nwk_outgoing_frame_counter s) + n < 2 ^ 32
    then \<exists>as s'. nwk_advances n s = Ret (as, s') \<and>
      map (unat \<circ> advance_value) as = map (\<lambda>i. unat (nwk_outgoing_frame_counter s) + Suc i) [0..<n] \<and>
      unat (nwk_outgoing_frame_counter s') = unat (nwk_outgoing_frame_counter s) + n
    else nwk_advances n s = Panic)"
proof (induction n arbitrary: s)
  case 0
  then show ?case using unat_bound [of "nwk_outgoing_frame_counter s"] by simp
next
  case (Suc n)
  let ?c = "nwk_outgoing_frame_counter s"
  show ?case
  proof (cases "unat ?c < 2 ^ 32 - 1")
    case True
    define s' where "s' = s\<lparr>primary := (primary s)\<lparr>desc_outgoing_frame_counter := ?c + 1\<rparr>\<rparr>"
    have c': "unat (nwk_outgoing_frame_counter s') = Suc (unat ?c)"
      using True by (simp add: s'_def nwk_outgoing_frame_counter_def unat_word_ariths)
    have v: "unat (?c + 1) = Suc (unat ?c)" using True by (simp add: unat_word_ariths)
    show ?thesis using Suc.IH [of s'] True c' v
      by (auto simp: nwk_advance_simps Let_def upt_conv_Cons map_Suc_upt [symmetric] comp_def
          simp flip: s'_def split: if_splits simp del: upt_Suc)
  qed (simp add: nwk_advance_simps)
qed

end
