(* ===== verification/Address_Types.thy ===== *)
theory Address_Types
  imports Prelude
begin

unbundle bit_operations_syntax

text \<open>
  \<^verbatim>\<open>ziggurat-ieee-802154/src/types.rs\<close>: the byte forms of the address types and of keys. \<open>to_le\<close> and
  \<open>from_le\<close> are \<^verbatim>\<open>to_le_bytes\<close> and \<^verbatim>\<open>from_le_bytes\<close> of the integer types of the standard library.
\<close>

fun to_le :: "nat \<Rightarrow> 'a::len word \<Rightarrow> u8 list" where
  "to_le 0 w = []"
| "to_le (Suc n) w = ucast w # to_le n (drop_bit 8 w)"

fun from_le :: "u8 list \<Rightarrow> 'a::len word" where
  "from_le [] = 0"
| "from_le (b # bs) = ucast b OR push_bit 8 (from_le bs)"

text \<open>
  \<^verbatim>\<open>ParseError\<close> of this crate; the types of this file return the first two. \<open>Bits\<close> is an error of the bit reader.
\<close>

datatype MacParseError =
    UnexpectedEnd string | InvalidLength string | InvalidDiscriminant string u8 | InvalidFcs | Unsupported string | Bits

definition nwk_deserialize :: "u8 list \<Rightarrow> MacParseError + Nwk \<times> u8 list" where
  "nwk_deserialize bytes =
     (if length bytes < 2 then Inl (UnexpectedEnd ''Nwk'')
      else Inr (from_le [bytes ! 0, bytes ! 1], drop 2 bytes))"

definition nwk_to_bytes :: "Nwk \<Rightarrow> u8 list" where
  "nwk_to_bytes a = to_le 2 a"

type_synonym PanId = u16

definition pan_id_deserialize :: "u8 list \<Rightarrow> MacParseError + PanId \<times> u8 list" where
  "pan_id_deserialize bytes =
     (if length bytes < 2 then Inl (UnexpectedEnd ''PanId'')
      else Inr (from_le [bytes ! 0, bytes ! 1], drop 2 bytes))"

definition pan_id_to_bytes :: "PanId \<Rightarrow> u8 list" where
  "pan_id_to_bytes p = to_le 2 p"

text \<open>The array inside an \<^verbatim>\<open>Eui64\<close>, and the value that holds a given array.\<close>

definition eui64_array :: "Eui64 \<Rightarrow> u8 list" where
  "eui64_array e = rev (to_le 8 e)"

definition eui64_of_array :: "u8 list \<Rightarrow> Eui64" where
  "eui64_of_array bs = from_le (rev bs)"

definition eui64_deserialize :: "u8 list \<Rightarrow> MacParseError + Eui64 \<times> u8 list" where
  "eui64_deserialize bytes =
     (if length bytes < 8 then Inl (UnexpectedEnd ''Eui64'')
      else Inr (eui64_of_array (take 8 bytes), drop 8 bytes))"

definition eui64_to_bytes :: "Eui64 \<Rightarrow> u8 list" where
  "eui64_to_bytes e = eui64_array e"

definition eui64_to_be_bytes :: "Eui64 \<Rightarrow> u8 list" where
  "eui64_to_be_bytes e = rev (eui64_array e)"

definition eui64_from_be_bytes :: "u8 list \<Rightarrow> Eui64" where
  "eui64_from_be_bytes bytes = eui64_of_array (rev bytes)"

definition key_from_bytes :: "u8 list \<Rightarrow> MacParseError + Key" where
  "key_from_bytes bytes = (if length bytes \<noteq> 16 then Inl (InvalidLength ''Key'') else Inr bytes)"

text \<open>The bytes of an optional field.\<close>

definition opt_bytes :: "('a \<Rightarrow> u8 list) \<Rightarrow> 'a option \<Rightarrow> u8 list" where
  "opt_bytes f x = (case x of None \<Rightarrow> [] | Some v \<Rightarrow> f v)"

lemma opt_bytes_simps [simp]: "opt_bytes f None = []" "opt_bytes f (Some v) = f v"
  by (simp_all add: opt_bytes_def)

section \<open>Round trips\<close>

lemma length_to_le [simp]: "length (to_le n w) = n"
  by (induction n w rule: to_le.induct) auto

lemma from_le_to_le: "from_le (to_le n w) = take_bit (8 * n) w"
proof (induction n w rule: to_le.induct)
  case (2 n w)
  then show ?case
    by (auto intro!: bit_word_eqI
      simp: bit_or_iff bit_push_bit_iff bit_take_bit_iff bit_drop_bit_eq bit_ucast_iff)
qed simp

lemma to_le_from_le:
  "8 * length bs \<le> LENGTH('a::len) \<Longrightarrow> to_le (length bs) (from_le bs :: 'a word) = bs"
proof (induction bs)
  case (Cons b bs)
  let ?w = "from_le bs :: 'a word"
  have eq: "?w = take_bit (8 * length bs) ?w"
    using Cons from_le_to_le [of "length bs" ?w] by simp
  have "drop_bit 8 (ucast b OR push_bit 8 ?w) = ?w"
  proof (rule bit_word_eqI)
    fix n assume n: "n < LENGTH('a)"
    have "bit ?w n \<Longrightarrow> n < 8 * length bs"
      using eq by (metis bit_take_bit_iff)
    then show "bit (drop_bit 8 (ucast b OR push_bit 8 ?w)) n = bit ?w n"
      using n Cons.prems
      by (auto simp: bit_drop_bit_eq bit_or_iff bit_push_bit_iff bit_ucast_iff
          dest: bit_imp_le_length)
  qed
  moreover have "ucast (ucast b OR push_bit 8 ?w) = b"
    using Cons.prems
    by (auto intro!: bit_word_eqI simp: bit_or_iff bit_push_bit_iff bit_ucast_iff)
  ultimately show ?case using Cons by simp
qed simp

lemma from_le_inj:
  "8 * length bs \<le> LENGTH('a::len) \<Longrightarrow> length bs = length bs' \<Longrightarrow>
     (from_le bs :: 'a word) = from_le bs' \<Longrightarrow> bs = bs'"
  by (metis to_le_from_le)

lemma from_le_to_le_full: "LENGTH('a::len) \<le> 8 * n \<Longrightarrow> from_le (to_le n w) = (w :: 'a word)"
  by (simp add: from_le_to_le take_bit_word_eq_self)

lemma eui64_of_array_array [simp]: "eui64_of_array (eui64_array e) = e"
  by (simp add: eui64_of_array_def eui64_array_def from_le_to_le_full)

lemma eui64_array_of_array: "length bs = 8 \<Longrightarrow> eui64_array (eui64_of_array bs) = bs"
  using to_le_from_le [of "rev bs", where 'a = 64] by (simp add: eui64_of_array_def eui64_array_def)

lemma length_eui64_array [simp]: "length (eui64_array e) = 8"
  by (simp add: eui64_array_def)

lemma to_le_2: "to_le 2 (w :: u16) = [ucast w, ucast (drop_bit 8 w)]"
  by (simp add: eval_nat_numeral)

lemma length_nwk_to_bytes [simp]: "length (nwk_to_bytes a) = 2"
  by (simp add: nwk_to_bytes_def)

lemma nwk_deserialize_to_bytes: "nwk_deserialize (nwk_to_bytes a @ rest) = Inr (a, rest)"
proof -
  have "from_le [ucast a, ucast (drop_bit 8 a)] = a"
    using from_le_to_le_full [of 2 a] by (simp only: to_le_2) simp
  then show ?thesis by (simp add: nwk_deserialize_def nwk_to_bytes_def to_le_2)
qed

text \<open>
  Parsing an address that was printed gives it back and leaves the rest of the input; parsing
  fails exactly on an input that is too short.
\<close>

theorem address_roundtrip:
  "nwk_deserialize (nwk_to_bytes a @ rest) = Inr (a, rest) \<and>
   pan_id_deserialize (pan_id_to_bytes p @ rest) = Inr (p, rest) \<and>
   eui64_deserialize (eui64_to_bytes e @ rest) = Inr (e, rest) \<and>
   eui64_from_be_bytes (eui64_to_be_bytes e) = e \<and>
   ((\<exists>x. nwk_deserialize bs = Inr x) \<longleftrightarrow> 2 \<le> length bs) \<and>
   ((\<exists>x. eui64_deserialize bs = Inr x) \<longleftrightarrow> 8 \<le> length bs)"
proof -
  have "from_le [ucast w, ucast (drop_bit 8 w)] = w" for w :: u16
    using from_le_to_le_full [of 2 w] by (simp only: to_le_2) simp
  then show ?thesis
    by (auto simp: nwk_deserialize_def nwk_to_bytes_def pan_id_deserialize_def pan_id_to_bytes_def
        to_le_2 eui64_deserialize_def eui64_to_bytes_def eui64_from_be_bytes_def eui64_to_be_bytes_def)
qed

section \<open>Order\<close>

text \<open>The derived order on the arrays is the numeric order of the words that stand for them.\<close>

fun be_value :: "u8 list \<Rightarrow> nat" where
  "be_value [] = 0"
| "be_value (b # bs) = unat b * 256 ^ length bs + be_value bs"

lemma be_value_append: "be_value (xs @ ys) = be_value xs * 256 ^ length ys + be_value ys"
  by (induction xs) (simp_all add: power_add algebra_simps)

lemma be_value_bound: "be_value bs < 256 ^ length bs"
proof (induction bs)
  case (Cons b bs)
  have "unat b \<le> 255" using unat_bound [of b] by simp
  then have "unat b * 256 ^ length bs \<le> 255 * 256 ^ length bs" by (rule mult_le_mono1)
  with Cons have "unat b * 256 ^ length bs + be_value bs < 256 * 256 ^ length bs" by linarith
  then show ?case by simp
qed simp

lemma unat_from_le:
  "8 * length bs \<le> LENGTH('a::len) \<Longrightarrow> unat (from_le bs :: 'a word) = be_value (rev bs)"
proof (induction bs)
  case (Cons b bs)
  let ?w = "from_le bs :: 'a word"
  have w: "unat ?w = be_value (rev bs)" "unat ?w < 256 ^ length bs"
    using Cons be_value_bound [of "rev bs"] by auto
  have "unat (push_bit 8 ?w) = 256 * unat ?w mod 2 ^ LENGTH('a)"
    by (simp add: push_bit_eq_mult unat_word_ariths mod_simps mult.commute
      take_bit_eq_mod)
  moreover have fits: "256 * unat ?w + 256 \<le> 2 ^ LENGTH('a)"
  proof -
    have "256 * unat ?w + 256 \<le> 256 ^ Suc (length bs)" using w(2) by simp
    also have "\<dots> = 2 ^ (8 * Suc (length bs))" by (simp add: power_add power_mult)
    also have "\<dots> \<le> 2 ^ LENGTH('a)" using Cons.prems by (intro power_increasing) simp_all
    finally show ?thesis .
  qed
  moreover have "unat (ucast b :: 'a word) = unat b"
    using fits unat_bound [of b] by (simp add: unsigned_ucast_eq take_bit_nat_eq_self)
  moreover have "ucast b OR push_bit 8 ?w = ucast b + push_bit 8 ?w"
    by (rule disjunctive_add [symmetric]) (auto simp: bit_push_bit_iff bit_ucast_iff dest: bit_imp_le_length)
  moreover have "unat b < 256" using unat_bound [of b] by simp
  ultimately show ?case by (simp add: unat_word_ariths w be_value_append)
qed simp

lemma be_value_lex:
  "length xs = length ys \<Longrightarrow> (xs, ys) \<in> lexord {(x, y). x < y} \<longleftrightarrow> be_value xs < be_value ys"
proof (induction xs ys rule: list_induct2)
  case (Cons x xs y ys)
  let ?B = "256 ^ length ys :: nat"
  have bounds: "be_value xs < ?B" "be_value ys < ?B"
    using Cons.hyps be_value_bound [of xs] be_value_bound [of ys] by auto
  have gap: "a * ?B + be_value u < b * ?B + be_value v" if "a < b" "be_value u < ?B" for a b u v
  proof -
    have "a * ?B + be_value u < Suc a * ?B" using that(2) by simp
    also have "\<dots> \<le> b * ?B" using that(1) by (intro mult_le_mono1) simp
    finally show ?thesis by simp
  qed
  consider "x < y" | "x = y" | "y < x" by (rule linorder_cases)
  then show ?case
  proof cases
    case 1
    then show ?thesis using gap [of "unat x" "unat y" xs ys] bounds Cons.hyps by (auto simp: word_less_nat_alt)
  next
    case 2
    then show ?thesis using Cons by simp
  next
    case 3
    then show ?thesis
      using gap [of "unat y" "unat x" ys xs] bounds Cons.hyps by (auto simp: word_less_nat_alt)
  qed
qed simp

text \<open>
  The representation of an \<^verbatim>\<open>Eui64\<close> by a word keeps the order that the code derives for the array:
  tables keyed by an extended address iterate in the same order.
\<close>

theorem eui64_order: "e < e' \<longleftrightarrow> (eui64_array e, eui64_array e') \<in> lexord {(x, y). x < y}"
proof -
  have "unat e = be_value (eui64_array e)" for e
    using unat_from_le [of "to_le 8 e", where 'a = 64]
    by (simp add: eui64_array_def from_le_to_le_full)
  then show ?thesis by (simp add: be_value_lex word_less_nat_alt [of e e'])
qed

end
