(* ===== verification/Crypto.thy ===== *)
theory Crypto
  imports Address_Types
begin

unbundle bit_operations_syntax

text \<open>
  \<^verbatim>\<open>ziggurat-zigbee/src/crypto.rs\<close>: the AES-MMO hash, the keyed hash built on it, the keys derived
  from link keys and seeds, and the framing of CCM*. The AES block function of the installed backend
  is the argument \<open>aes\<close> (key, block); the detached CCM operations of the \<^verbatim>\<open>ccm\<close> crate are the
  arguments \<open>seal\<close> and \<open>open_detached\<close>. A buffer of type \<^verbatim>\<open>FrameBytes\<close> is the list of its bytes, with its
  capacity checked where the code extends it.
\<close>

section \<open>AES-MMO and the keyed hash\<close>

type_synonym block_cipher = "u8 list \<Rightarrow> u8 list \<Rightarrow> u8 list"

text \<open>The loop that appends zero bytes up to the length field of the last block.\<close>

function mmo_pad :: "u8 list \<Rightarrow> u8 list" where
  "mmo_pad p = (if length p mod 16 \<noteq> 14 then mmo_pad (p @ [0]) else p)"
  by pat_completeness auto
termination
proof (relation "measure (\<lambda>p. (30 - length p mod 16) mod 16)")
  fix p :: "u8 list"
  assume p: "length p mod 16 \<noteq> 14"
  define m where "m = length p mod 16"
  have m: "Suc (length p) mod 16 = (if m = 15 then 0 else Suc m)" "m < 16" "m \<noteq> 14"
    using p by (simp_all add: mod_Suc m_def)
  have "(30 - (if m = 15 then 0 else Suc m)) mod 16 < (30 - m) mod 16"
  proof (cases "m = 15")
    case False
    with m have "m \<le> 13" by linarith
    then obtain j where "m + j = 13" using le_Suc_ex by metis
    then have "30 - m = Suc j + 16" "30 - Suc m = j + 16" "j < 14" by linarith+
    then have "(30 - m) mod 16 = Suc j" "(30 - Suc m) mod 16 = j"
      by (simp_all only: mod_add_self2 mod_less)
    with False show ?thesis by simp
  qed simp
  with m show "(p @ [0], p) \<in> measure (\<lambda>p. (30 - length p mod 16) mod 16)"
    by (simp add: m_def)
qed simp

declare mmo_pad.simps [simp del]

definition mmo_padded :: "u8 list \<Rightarrow> u8 list" where
  "mmo_padded input = mmo_pad (input @ [0x80]) @ rev (to_le 2 (of_nat (length input * 8) :: u16))"

fun chunks16 :: "u8 list \<Rightarrow> u8 list list" where
  "chunks16 xs = (if length xs < 16 then [] else take 16 xs # chunks16 (drop 16 xs))"

declare chunks16.simps [simp del]

definition mmo_block :: "block_cipher \<Rightarrow> u8 list \<Rightarrow> u8 list \<Rightarrow> u8 list" where
  "mmo_block aes block digest = map2 (XOR) (aes digest block) block"

definition aes_mmo_hash :: "block_cipher \<Rightarrow> u8 list \<Rightarrow> u8 list run" where
  "aes_mmo_hash aes input =
     (if length input < 8192
      then Ret (fold (mmo_block aes) (chunks16 (mmo_padded input)) (replicate 16 0))
      else Panic)"

definition keyed_hash :: "block_cipher \<Rightarrow> Key \<Rightarrow> u8 list \<Rightarrow> u8 list run" where
  "keyed_hash aes key input =
     run_bind (aes_mmo_hash aes (map (\<lambda>b. b XOR 0x36) key @ input))
       (\<lambda>inner. aes_mmo_hash aes (map (\<lambda>b. b XOR 0x5C) key @ inner))"

definition key_transport_key :: "block_cipher \<Rightarrow> Key \<Rightarrow> Key run" where
  "key_transport_key aes link_key = keyed_hash aes link_key [0x00]"

definition key_load_key :: "block_cipher \<Rightarrow> Key \<Rightarrow> Key run" where
  "key_load_key aes link_key = keyed_hash aes link_key [0x02]"

definition verify_key_hash :: "block_cipher \<Rightarrow> Key \<Rightarrow> u8 list run" where
  "verify_key_hash aes link_key = keyed_hash aes link_key [0x03]"

text \<open>Keys issued from a seed. \<^verbatim>\<open>core::array::from_fn\<close> over sixteen indices.\<close>

definition zstack_tclk :: "Key \<Rightarrow> Eui64 \<Rightarrow> nat \<Rightarrow> Key" where
  "zstack_tclk seed eui64 shift =
     map (\<lambda>i. seed ! ((i + shift) mod 16) XOR eui64_to_bytes eui64 ! (i mod 8)) [0..<16]"

definition ezsp_tclk :: "block_cipher \<Rightarrow> Key \<Rightarrow> Eui64 \<Rightarrow> Key run" where
  "ezsp_tclk aes seed eui64 = keyed_hash aes seed (eui64_to_bytes eui64)"

section \<open>CCM* framing\<close>

definition MIC_LENGTH :: nat where
  "MIC_LENGTH = 4"

definition MAX_PHY_PACKET_SIZE :: nat where
  "MAX_PHY_PACKET_SIZE = 127"

datatype DecryptionError = InvalidMacTag | CiphertextTooShort

type_synonym ccm_seal = "Key \<Rightarrow> u8 list \<Rightarrow> u8 list \<Rightarrow> u8 list \<Rightarrow> (u8 list \<times> u8 list) option"
type_synonym ccm_open = "Key \<Rightarrow> u8 list \<Rightarrow> u8 list \<Rightarrow> u8 list \<Rightarrow> u8 list \<Rightarrow> u8 list option"

definition encrypt_ccm :: "ccm_seal \<Rightarrow> Key \<Rightarrow> u8 list \<Rightarrow> u8 list \<Rightarrow> u8 list \<Rightarrow> u8 list run" where
  "encrypt_ccm seal key nonce auth_data buffer =
     run_bind (unwrap (seal key nonce auth_data buffer))
       (\<lambda>(ciphertext, mic).
          if length ciphertext + length mic \<le> MAX_PHY_PACKET_SIZE
          then Ret (ciphertext @ mic) else Panic)"

definition decrypt_ccm ::
  "ccm_open \<Rightarrow> Key \<Rightarrow> u8 list \<Rightarrow> u8 list \<Rightarrow> u8 list \<Rightarrow> DecryptionError + u8 list" where
  "decrypt_ccm open_detached key nonce auth_data tagged_ciphertext =
     (if length tagged_ciphertext < MIC_LENGTH then Inl CiphertextTooShort
      else let ciphertext_len = length tagged_ciphertext - MIC_LENGTH in
        case open_detached key nonce auth_data (take ciphertext_len tagged_ciphertext)
               (drop ciphertext_len tagged_ciphertext) of
          None \<Rightarrow> Inl InvalidMacTag
        | Some plaintext \<Rightarrow> Inr plaintext)"

section \<open>Padding\<close>

lemma mmo_pad_zeros: "\<exists>n. mmo_pad p = p @ replicate n 0"
proof (induction p rule: mmo_pad.induct)
  case (1 p)
  show ?case
  proof (cases "length p mod 16 = 14")
    case True
    then have "mmo_pad p = p @ replicate 0 0" by (simp add: mmo_pad.simps [of p])
    then show ?thesis by blast
  next
    case False
    with 1 obtain n where "mmo_pad (p @ [0]) = p @ replicate (Suc n) 0" by auto
    then have "mmo_pad p = p @ replicate (Suc n) 0" using False by (simp add: mmo_pad.simps [of p])
    then show ?thesis by blast
  qed
qed

lemma mmo_pad_mod: "length (mmo_pad p) mod 16 = 14"
proof (induction p rule: mmo_pad.induct)
  case (1 p)
  then show ?case by (cases "length p mod 16 = 14") (simp_all add: mmo_pad.simps [of p])
qed

lemma length_mmo_padded: "length (mmo_padded input) mod 16 = 0"
proof -
  have "(length (mmo_pad (input @ [0x80])) + 2) mod 16 = 0"
    using mmo_pad_mod [of "input @ [0x80]"] by presburger
  then show ?thesis by (simp add: mmo_padded_def)
qed

text \<open>
  The padding of the hash is injective on the admitted inputs, and always fills whole blocks: two
  different messages are never hashed as the same sequence of blocks.
\<close>

theorem mmo_padded_inj:
  assumes "length x < 8192" "length y < 8192" "mmo_padded x = mmo_padded y"
  shows "x = y \<and> 16 dvd length (mmo_padded x)"
proof -
  let ?len = "\<lambda>z :: u8 list. of_nat (length z * 8) :: u16"
  have pad: "mmo_pad (x @ [0x80]) = mmo_pad (y @ [0x80])" and "to_le 2 (?len x) = to_le 2 (?len y)"
    using assms(3) by (simp_all add: mmo_padded_def)
  then have "?len x = ?len y"
    using from_le_to_le_full [of 2 "?len x"] from_le_to_le_full [of 2 "?len y"] by simp
  then have "length x = length y"
    using assms(1,2) by (simp add: word_unat_eq_iff unat_of_nat del: of_nat_mult)
  moreover obtain n where n: "mmo_pad (x @ [0x80]) = (x @ [0x80]) @ replicate n 0"
    by (rule exE [OF mmo_pad_zeros])
  moreover obtain m where m: "mmo_pad (y @ [0x80]) = (y @ [0x80]) @ replicate m 0"
    by (rule exE [OF mmo_pad_zeros])
  ultimately have "x @ [0x80] = y @ [0x80]"
    using pad [unfolded n m] append_eq_append_conv [of "x @ [0x80]" "y @ [0x80]"] by (metis length_append)
  then have "x = y" by simp
  then show ?thesis using length_mmo_padded [of x] by (simp add: mod_eq_0_iff_dvd)
qed

theorem mmo_padded_inj_witness:
  "[1, 2] = [1, 2 :: u8] \<and> 16 dvd length (mmo_padded [1, 2])"
  by (rule mmo_padded_inj) simp_all

section \<open>Totality of the derivations\<close>

text \<open>What the code takes of the block function: blocks of sixteen bytes stay blocks.\<close>

definition block16 :: "block_cipher \<Rightarrow> bool" where
  "block16 aes \<longleftrightarrow> (\<forall>k b. length k = 16 \<longrightarrow> length b = 16 \<longrightarrow> length (aes k b) = 16)"

lemma length_fold_mmo:
  assumes "block16 aes"
    and "list_all (\<lambda>b. length b = 16) bs" "length d = 16"
  shows "length (fold (mmo_block aes) bs d) = 16"
  using assms(2,3) by (induction bs arbitrary: d) (use assms(1) in \<open>simp_all add: block16_def mmo_block_def\<close>)

lemma chunks16_length: "list_all (\<lambda>b. length b = 16) (chunks16 xs)"
proof (induction xs rule: chunks16.induct)
  case (1 xs)
  show ?case
  proof (cases "length xs < 16")
    case True
    then have "chunks16 xs = []" by (subst chunks16.simps) simp
    then show ?thesis by simp
  next
    case False
    then have "chunks16 xs = take 16 xs # chunks16 (drop 16 xs)" by (subst chunks16.simps) simp
    with 1 False show ?thesis by simp
  qed
qed

lemma aes_mmo_hash_Ret:
  assumes "block16 aes" "length input < 8192"
  shows "\<exists>d. aes_mmo_hash aes input = Ret d \<and> length d = 16"
  using assms(2) length_fold_mmo [OF assms(1) chunks16_length length_replicate]
  by (simp add: aes_mmo_hash_def)

lemma keyed_hash_Ret:
  assumes "block16 aes" "length key = 16" "length input < 8176"
  shows "\<exists>d. keyed_hash aes key input = Ret d \<and> length d = 16"
proof -
  have "length (map (\<lambda>b. b XOR 0x36) key @ input) < 8192" using assms(2,3) by simp
  from aes_mmo_hash_Ret [OF assms(1) this] obtain i
    where i: "aes_mmo_hash aes (map (\<lambda>b. b XOR 0x36) key @ input) = Ret i" "length i = 16" by blast
  have "length (map (\<lambda>b. b XOR 0x5C) key @ i) < 8192" using assms(2) i(2) by simp
  from aes_mmo_hash_Ret [OF assms(1) this] i(1) show ?thesis by (simp add: keyed_hash_def)
qed

text \<open>
  With a block function that maps sixteen bytes to sixteen bytes, no key derivation panics: every
  derived key exists and has sixteen bytes.
\<close>

theorem derived_keys_total:
  assumes block: "block16 aes"
    and "length key = 16"
  shows "\<exists>transport load verify tclk.
    key_transport_key aes key = Ret transport \<and> key_load_key aes key = Ret load \<and>
    verify_key_hash aes key = Ret verify \<and> ezsp_tclk aes key eui64 = Ret tclk \<and>
    (\<forall>k \<in> {transport, load, verify, tclk, zstack_tclk key eui64 shift}. length k = 16)"
proof -
  note kh = keyed_hash_Ret [OF assms]
  show ?thesis
    using kh [of "[0]"] kh [of "[2]"] kh [of "[3]"] kh [of "eui64_to_bytes eui64"]
    by (auto simp: key_transport_key_def key_load_key_def verify_key_hash_def ezsp_tclk_def
        zstack_tclk_def eui64_to_bytes_def)
qed

theorem derived_keys_total_witness:
  "\<exists>transport load verify tclk. let aes = (\<lambda>k b. k); key = replicate 16 (1 :: u8) in
    key_transport_key aes key = Ret transport \<and> key_load_key aes key = Ret load \<and>
    verify_key_hash aes key = Ret verify \<and> ezsp_tclk aes key 5 = Ret tclk \<and>
    (\<forall>k \<in> {transport, load, verify, tclk, zstack_tclk key 5 0}. length k = 16)"
  unfolding Let_def by (rule derived_keys_total) (simp_all add: block16_def)

lemma xor_cancel: "a XOR x = a XOR y \<longleftrightarrow> x = y" for a x y :: u8
proof
  assume "a XOR x = a XOR y"
  then have "a XOR (a XOR x) = a XOR (a XOR y)" by simp
  then show "x = y" by (simp flip: xor.assoc)
qed simp

text \<open>
  Keys that Z-Stack's seed scheme issues are distinct for distinct devices: whatever the shift, the
  device address can be read back from the key and the seed.
\<close>

theorem zstack_tclk_inj:
  "zstack_tclk seed e shift = zstack_tclk seed e' shift \<longleftrightarrow> e = e'"
proof
  assume eq: "zstack_tclk seed e shift = zstack_tclk seed e' shift"
  have byte: "eui64_to_bytes e ! i = eui64_to_bytes e' ! i" if "i < 8" for i
  proof -
    have "zstack_tclk seed e shift ! i = zstack_tclk seed e' shift ! i" using eq by simp
    then show ?thesis using that by (simp add: zstack_tclk_def xor_cancel)
  qed
  then have "eui64_array e = eui64_array e'"
    by (intro nth_equalityI) (simp_all add: eui64_to_bytes_def)
  then show "e = e'" by (metis eui64_of_array_array)
qed simp

text \<open>
  CCM* framing is a round trip for every detached cipher whose opening inverts its sealing and whose
  tag has four bytes: what \<^verbatim>\<open>encrypt_ccm\<close> returns, \<^verbatim>\<open>decrypt_ccm\<close> opens to the same payload, and a
  payload of up to 123 bytes always has room for its tag.
\<close>

theorem ccm_roundtrip:
  assumes inverse: "\<And>k n a p c mic. seal k n a p = Some (c, mic) \<Longrightarrow> open_detached k n a c mic = Some p"
    and lengths: "\<And>k n a p c mic. seal k n a p = Some (c, mic) \<Longrightarrow> length mic = 4 \<and> length c = length p"
    and total: "\<And>k n a p. length p < 2 ^ 16 \<Longrightarrow> seal k n a p \<noteq> None"
    and "length payload \<le> 123"
  shows "\<exists>tagged. encrypt_ccm seal key nonce auth_data payload = Ret tagged \<and>
    decrypt_ccm open_detached key nonce auth_data tagged = Inr payload \<and>
    length tagged = length payload + MIC_LENGTH"
proof -
  obtain c mic where s: "seal key nonce auth_data payload = Some (c, mic)"
    using total [of payload key nonce auth_data] assms(4) by force
  then have "encrypt_ccm seal key nonce auth_data payload = Ret (c @ mic)"
    using lengths [OF s] assms(4) by (simp add: encrypt_ccm_def MAX_PHY_PACKET_SIZE_def)
  moreover have "decrypt_ccm open_detached key nonce auth_data (c @ mic) = Inr payload"
    using inverse [OF s] lengths [OF s] by (simp add: decrypt_ccm_def MIC_LENGTH_def)
  ultimately show ?thesis using lengths [OF s] by (simp add: MIC_LENGTH_def)
qed

theorem ccm_roundtrip_witness:
  "\<exists>tagged. encrypt_ccm (\<lambda>k n a p. Some (rev p, [1, 2, 3, 4])) [] [] [] [7, 8] = Ret tagged \<and>
     decrypt_ccm (\<lambda>k n a c mic. Some (rev c)) [] [] [] tagged = Inr [7, 8] \<and>
     length tagged = length [7, 8 :: u8] + MIC_LENGTH"
  by (rule ccm_roundtrip) auto

end
