(* ===== verification/Security_Headers.thy ===== *)
theory Security_Headers
  imports Crypto
begin

text \<open>
  The auxiliary security headers of \<^verbatim>\<open>ziggurat-zigbee/src/nwk/frame.rs\<close> and
  \<^verbatim>\<open>ziggurat-zigbee/src/aps/frame.rs\<close>, their byte forms, and the CCM* nonce built from them. The bit
  packing of the one-byte security control field is generated by the \<^verbatim>\<open>abstract_bits\<close> crate: its reader
  and writer are the arguments \<open>rd\<close> and \<open>wr\<close>.
\<close>

datatype NwkSecurityHeaderKeyId = DataKey | NetworkKey | KeyTransportKey | KeyLoadKey

datatype NwkSecurityLevel = NoSecurity | Mic32 | Mic64 | Mic128 | Enc | EncMic32 | EncMic64 | EncMic128

record NwkSecurityHeaderControlField =
  security_level :: NwkSecurityLevel
  key_id :: NwkSecurityHeaderKeyId
  extended_nonce :: bool
  require_verified_frame_counter :: bool

text \<open>The parse errors of \<^verbatim>\<open>ziggurat-zigbee/src/lib.rs\<close>. \<open>Bits\<close> is an error of the bit reader.\<close>

datatype ParseError =
    ParseUnexpectedEnd string
  | ParseTooLong string
  | ParseInvalidDiscriminant string u8
  | ParseUnsupported string
  | ParseBits
  | ParseAddress MacParseError
  | ParseDecrypt DecryptionError

type_synonym 'a parse = "(ParseError + 'a) run"

type_synonym ctl_reader = "u8 \<Rightarrow> NwkSecurityHeaderControlField option"
type_synonym ctl_writer = "NwkSecurityHeaderControlField \<Rightarrow> u8"

record NwkAuxHeader =
  nwk_security_control :: NwkSecurityHeaderControlField
  nwk_frame_counter :: u32
  nwk_extended_source :: "Eui64 option"
  nwk_key_sequence_number :: u8

record ApsAuxHeader =
  security_control :: NwkSecurityHeaderControlField
  frame_counter :: u32
  extended_source :: "Eui64 option"
  key_sequence_number :: "u8 option"

text \<open>The optional extended source that both headers carry.\<close>

definition read_extended_source ::
  "NwkSecurityHeaderControlField \<Rightarrow> u8 list \<Rightarrow> ParseError + Eui64 option \<times> u8 list" where
  "read_extended_source control remaining =
     (if extended_nonce control then
        (case eui64_deserialize remaining of
           Inl e \<Rightarrow> Inl (ParseAddress e)
         | Inr (ieee, rest) \<Rightarrow> Inr (Some ieee, rest))
      else Inr (None, remaining))"

definition write_extended_source :: "Eui64 option \<Rightarrow> u8 list" where
  "write_extended_source src = (case src of Some ieee \<Rightarrow> eui64_to_bytes ieee | None \<Rightarrow> [])"

definition nwk_aux_deserialize :: "ctl_reader \<Rightarrow> u8 list \<Rightarrow> ParseError + NwkAuxHeader \<times> u8 list" where
  "nwk_aux_deserialize rd bytes =
     (if length bytes < 6 then Inl (ParseUnexpectedEnd ''NwkAuxHeader'')
      else case rd (bytes ! 0) of
        None \<Rightarrow> Inl ParseBits
      | Some control \<Rightarrow>
          (let remaining = drop 1 bytes; counter = from_le (take 4 remaining) in
           case read_extended_source control (drop 4 remaining) of
             Inl e \<Rightarrow> Inl e
           | Inr (src, []) \<Rightarrow> Inl (ParseUnexpectedEnd ''NWK key sequence number'')
           | Inr (src, seq # rest) \<Rightarrow>
               Inr (\<lparr>nwk_security_control = control, nwk_frame_counter = counter,
                     nwk_extended_source = src, nwk_key_sequence_number = seq\<rparr>, rest)))"

definition nwk_aux_to_bytes :: "ctl_writer \<Rightarrow> NwkAuxHeader \<Rightarrow> u8 list" where
  "nwk_aux_to_bytes wr h =
     wr (nwk_security_control h) # to_le 4 (nwk_frame_counter h) @
     write_extended_source (nwk_extended_source h) @ [nwk_key_sequence_number h]"

definition aps_aux_deserialize :: "ctl_reader \<Rightarrow> u8 list \<Rightarrow> ParseError + ApsAuxHeader \<times> u8 list" where
  "aps_aux_deserialize rd bytes =
     (if length bytes < 5 then Inl (ParseUnexpectedEnd ''ApsAuxHeader'')
      else case rd (bytes ! 0) of
        None \<Rightarrow> Inl ParseBits
      | Some control \<Rightarrow>
          (let remaining = drop 1 bytes; counter = from_le (take 4 remaining) in
           case read_extended_source control (drop 4 remaining) of
             Inl e \<Rightarrow> Inl e
           | Inr (src, rest) \<Rightarrow>
               let header = \<lambda>seq. \<lparr>security_control = control, frame_counter = counter,
                                    extended_source = src, key_sequence_number = seq\<rparr> in
               if key_id control = NetworkKey then
                 (case rest of
                    [] \<Rightarrow> Inl (ParseUnexpectedEnd ''ApsAuxHeader key sequence number'')
                  | seq # rest' \<Rightarrow> Inr (header (Some seq), rest'))
               else Inr (header None, rest)))"

definition aps_aux_to_bytes :: "ctl_writer \<Rightarrow> ApsAuxHeader \<Rightarrow> u8 list" where
  "aps_aux_to_bytes wr h =
     wr (security_control h) # to_le 4 (frame_counter h) @ write_extended_source (extended_source h) @
     (case key_sequence_number h of Some seq \<Rightarrow> [seq] | None \<Rightarrow> [])"

definition aps_aux_get_modified :: "NwkSecurityLevel \<Rightarrow> ApsAuxHeader \<Rightarrow> ApsAuxHeader" where
  "aps_aux_get_modified level h = h\<lparr>security_control := (security_control h)\<lparr>security_level := level\<rparr>\<rparr>"

text \<open>The nonce. The network layer takes the source from the auxiliary header or else from the network
header, and panics when neither has it; the application layer is given the source.\<close>

definition ccm_nonce :: "ctl_writer \<Rightarrow> Eui64 \<Rightarrow> u32 \<Rightarrow> NwkSecurityHeaderControlField \<Rightarrow> u8 list" where
  "ccm_nonce wr source counter control = eui64_to_bytes source @ to_le 4 counter @ [wr control]"

definition aps_get_nonce :: "ctl_writer \<Rightarrow> ApsAuxHeader \<Rightarrow> Eui64 \<Rightarrow> u8 list" where
  "aps_get_nonce wr h source = ccm_nonce wr source (frame_counter h) (security_control h)"

definition nwk_get_nonce :: "ctl_writer \<Rightarrow> Eui64 option \<Rightarrow> NwkAuxHeader \<Rightarrow> u8 list run" where
  "nwk_get_nonce wr source_ieee h =
     run_bind (unwrap (case nwk_extended_source h of Some s \<Rightarrow> Some s | None \<Rightarrow> source_ieee))
       (\<lambda>source. Ret (ccm_nonce wr source (nwk_frame_counter h) (nwk_security_control h)))"

section \<open>Round trips\<close>

text \<open>What the code takes of the generated bit packing: reading what was written gives it back.\<close>

definition ctl_codec :: "ctl_reader \<Rightarrow> ctl_writer \<Rightarrow> bool" where
  "ctl_codec rd wr \<longleftrightarrow> (\<forall>c. rd (wr c) = Some c)"

text \<open>A header whose optional fields agree with its control field, as every sender builds it.\<close>

definition nwk_aux_wf :: "NwkAuxHeader \<Rightarrow> bool" where
  "nwk_aux_wf h \<longleftrightarrow> extended_nonce (nwk_security_control h) = (nwk_extended_source h \<noteq> None)"

definition aps_aux_wf :: "ApsAuxHeader \<Rightarrow> bool" where
  "aps_aux_wf h \<longleftrightarrow>
     extended_nonce (security_control h) = (extended_source h \<noteq> None) \<and>
     (key_id (security_control h) = NetworkKey) = (key_sequence_number h \<noteq> None)"

lemma eui64_deserialize_to_bytes [simp]: "eui64_deserialize (eui64_to_bytes e @ rest) = Inr (e, rest)"
  by (simp add: eui64_deserialize_def eui64_to_bytes_def)

lemma read_write_extended_source:
  "extended_nonce c = (src \<noteq> None) \<Longrightarrow>
     read_extended_source c (write_extended_source src @ rest) = Inr (src, rest)"
  by (cases src) (simp_all add: read_extended_source_def write_extended_source_def)

lemma from_le_to_le_u32 [simp]: "from_le (to_le 4 (c :: u32)) = c"
  by (simp add: from_le_to_le_full)

lemma nwk_aux_roundtrip:
  assumes "ctl_codec rd wr" "nwk_aux_wf h"
  shows "nwk_aux_deserialize rd (nwk_aux_to_bytes wr h @ rest) = Inr (h, rest)"
  using assms by (simp add: nwk_aux_deserialize_def nwk_aux_to_bytes_def ctl_codec_def nwk_aux_wf_def
      read_write_extended_source)

lemma aps_aux_roundtrip:
  assumes "ctl_codec rd wr" "aps_aux_wf h"
  shows "aps_aux_deserialize rd (aps_aux_to_bytes wr h @ rest) = Inr (h, rest)"
  using assms by (cases "key_sequence_number h") (simp_all add: aps_aux_deserialize_def
      aps_aux_to_bytes_def ctl_codec_def aps_aux_wf_def read_write_extended_source)

text \<open>
  The auxiliary headers of both layers are recovered from their bytes, with what follows them left
  over, for every header whose optional fields agree with its control field.
\<close>

theorem aux_header_roundtrip:
  assumes "ctl_codec rd wr" "nwk_aux_wf h" "aps_aux_wf h'"
  shows "nwk_aux_deserialize rd (nwk_aux_to_bytes wr h @ rest) = Inr (h, rest) \<and>
    aps_aux_deserialize rd (aps_aux_to_bytes wr h' @ rest) = Inr (h', rest)"
  using nwk_aux_roundtrip aps_aux_roundtrip assms by blast

text \<open>A concrete packing, least significant field first, that meets the hypothesis.\<close>

fun level_code :: "NwkSecurityLevel \<Rightarrow> u8" where
  "level_code NoSecurity = 0" | "level_code Mic32 = 1" | "level_code Mic64 = 2" | "level_code Mic128 = 3"
| "level_code Enc = 4" | "level_code EncMic32 = 5" | "level_code EncMic64 = 6" | "level_code EncMic128 = 7"

fun key_code :: "NwkSecurityHeaderKeyId \<Rightarrow> u8" where
  "key_code DataKey = 0" | "key_code NetworkKey = 8" | "key_code KeyTransportKey = 16" | "key_code KeyLoadKey = 24"

definition pack_ctl :: ctl_writer where
  "pack_ctl c = level_code (security_level c) + key_code (key_id c) + (if extended_nonce c then 32 else 0)
     + (if require_verified_frame_counter c then 64 else 0)"

definition unpack_ctl :: ctl_reader where
  "unpack_ctl b = Some
     \<lparr>security_level = [NoSecurity, Mic32, Mic64, Mic128, Enc, EncMic32, EncMic64, EncMic128] ! (unat b mod 8),
      key_id = [DataKey, NetworkKey, KeyTransportKey, KeyLoadKey] ! (unat b div 8 mod 4),
      extended_nonce = odd (unat b div 32), require_verified_frame_counter = odd (unat b div 64)\<rparr>"

lemma ctl_codec_pack: "ctl_codec unpack_ctl pack_ctl"
  unfolding ctl_codec_def
proof
  fix c :: NwkSecurityHeaderControlField
  obtain l k e r where c: "c = \<lparr>security_level = l, key_id = k, extended_nonce = e,
    require_verified_frame_counter = r\<rparr>" by (cases c)
  show "unpack_ctl (pack_ctl c) = Some c"
    by (cases l; cases k; cases e; cases r; simp add: c unpack_ctl_def pack_ctl_def)
qed

theorem aux_header_roundtrip_witness:
  "let control = \<lparr>security_level = NoSecurity, key_id = NetworkKey, extended_nonce = True,
                  require_verified_frame_counter = False\<rparr>;
       h = \<lparr>nwk_security_control = control, nwk_frame_counter = 7, nwk_extended_source = Some 9,
            nwk_key_sequence_number = 1\<rparr>;
       h' = \<lparr>security_control = control, frame_counter = 7, extended_source = Some 9,
             key_sequence_number = Some 1\<rparr>
   in nwk_aux_deserialize unpack_ctl (nwk_aux_to_bytes pack_ctl h @ [3]) = Inr (h, [3]) \<and>
      aps_aux_deserialize unpack_ctl (aps_aux_to_bytes pack_ctl h' @ [3]) = Inr (h', [3])"
  unfolding Let_def
  by (rule aux_header_roundtrip) (simp_all add: ctl_codec_pack nwk_aux_wf_def aps_aux_wf_def)

lemma to_le_u32_inj: "to_le 4 c = to_le 4 c' \<longleftrightarrow> c = c'" for c c' :: u32
  by (metis from_le_to_le_u32)

lemma ccm_nonce_eqD: "ccm_nonce wr s c k = ccm_nonce wr s' c' k' \<Longrightarrow> c = c'"
  by (simp add: ccm_nonce_def eui64_to_bytes_def to_le_u32_inj)

text \<open>
  Nonces determine their source and frame counter: two secured frames have the same CCM* nonce only
  if they have the same source and the same counter.
\<close>

theorem ccm_nonce_inj:
  "length (ccm_nonce wr s c k) = 13 \<and>
   (ccm_nonce wr s c k = ccm_nonce wr s' c' k' \<longleftrightarrow> s = s' \<and> c = c' \<and> wr k = wr k')"
proof -
  have "eui64_array s = eui64_array s' \<longleftrightarrow> s = s'" by (metis eui64_of_array_array)
  then show ?thesis by (auto simp: ccm_nonce_def eui64_to_bytes_def to_le_u32_inj)
qed

end
