(* ===== verification/Aps_Security.thy ===== *)
theory Aps_Security
  imports Flat_Map Replay_Guard Security_Headers
begin

text \<open>
  \<^verbatim>\<open>ziggurat-zigbee/src/aps/security.rs\<close>: the table of link keys and replay counters per device, the
  choice of keys, and the encryption and decryption of APS frames. The byte-level \<^verbatim>\<open>encrypt\<close> and
  \<^verbatim>\<open>decrypt\<close> methods of the frame types are function arguments of the operations, as \<^verbatim>\<open>decrypt_frame\<close>
  itself takes a closure; \<open>aes\<close> is the block function of the installed backend.
\<close>

datatype TclkFlavor = ZStack | Ezsp

record TclkSeed =
  seed :: Key
  flavor :: TclkFlavor

definition tclk_derive :: "block_cipher \<Rightarrow> TclkSeed \<Rightarrow> Eui64 \<Rightarrow> Key run" where
  "tclk_derive aes s eui64 =
     (case flavor s of
        ZStack \<Rightarrow> Ret (zstack_tclk (seed s) eui64 0)
      | Ezsp \<Rightarrow> ezsp_tclk aes (seed s) eui64)"

datatype KeyAttributes = Provisional | Unverified | Verified

record DeviceLinkKey =
  link_key :: Key
  attributes :: KeyAttributes

datatype AppliedKey = AppliedNetwork | AppliedDevice | AppliedGlobal

record DeviceState =
  ds_key :: "DeviceLinkKey option"
  pending_key :: "Key option"
  ds_incoming_frame_counter :: "u32 option"

definition device_state_default :: DeviceState where
  "device_state_default = \<lparr>ds_key = None, pending_key = None, ds_incoming_frame_counter = None\<rparr>"

record ApsSecurity =
  global_link_key :: Key
  local_eui64 :: Eui64
  devices :: "(Eui64, DeviceState) flat_map"
  tclk_seed :: "TclkSeed option"
  aps_counter :: u32

definition aps_security_new :: "Key \<Rightarrow> Eui64 \<Rightarrow> TclkSeed option \<Rightarrow> ApsSecurity" where
  "aps_security_new global eui64 sd =
     \<lparr>global_link_key = global, local_eui64 = eui64, devices = fm_new, tclk_seed = sd, aps_counter = 0\<rparr>"

definition device_key :: "ApsSecurity \<Rightarrow> Eui64 \<Rightarrow> DeviceLinkKey option" where
  "device_key s eui64 = Option.bind (fm_get (devices s) eui64) ds_key"

definition unkeyed_link_key :: "block_cipher \<Rightarrow> ApsSecurity \<Rightarrow> Eui64 \<Rightarrow> Key run" where
  "unkeyed_link_key aes s eui64 =
     (case tclk_seed s of None \<Rightarrow> Ret (global_link_key s) | Some sd \<Rightarrow> tclk_derive aes sd eui64)"

definition prune_if_empty :: "ApsSecurity \<Rightarrow> Eui64 \<Rightarrow> ApsSecurity" where
  "prune_if_empty s eui64 =
     (case fm_get (devices s) eui64 of
        None \<Rightarrow> s
      | Some entry \<Rightarrow>
          if ds_key entry = None \<and> pending_key entry = None \<and> ds_incoming_frame_counter entry = None
          then s\<lparr>devices := snd (fm_remove (devices s) eui64)\<rparr> else s)"

text \<open>\<^verbatim>\<open>devices.entry(eui64).or_default()\<close> followed by a write.\<close>

definition device_write :: "Eui64 \<Rightarrow> (DeviceState \<Rightarrow> DeviceState) \<Rightarrow> ApsSecurity \<Rightarrow> ApsSecurity" where
  "device_write eui64 f s = s\<lparr>devices := fm_entry_write (devices s) eui64 device_state_default f\<rparr>"

definition restore_device_key :: "ApsSecurity \<Rightarrow> Eui64 \<Rightarrow> Key \<Rightarrow> ApsSecurity" where
  "restore_device_key s eui64 k =
     device_write eui64 (ds_key_update (\<lambda>_. Some \<lparr>link_key = k, attributes = Verified\<rparr>)) s"

definition restore_incoming_frame_counter :: "ApsSecurity \<Rightarrow> Eui64 \<Rightarrow> u32 \<Rightarrow> ApsSecurity" where
  "restore_incoming_frame_counter s eui64 c =
     device_write eui64 (ds_incoming_frame_counter_update (\<lambda>_. Some c)) s"

definition incoming_frame_counter :: "ApsSecurity \<Rightarrow> Eui64 \<Rightarrow> u32 option" where
  "incoming_frame_counter s eui64 = Option.bind (fm_get (devices s) eui64) ds_incoming_frame_counter"

definition restore_outgoing_frame_counter :: "ApsSecurity \<Rightarrow> u32 \<Rightarrow> ApsSecurity" where
  "restore_outgoing_frame_counter s c = s\<lparr>aps_counter := max (aps_counter s) c\<rparr>"

definition set_provisional_key :: "ApsSecurity \<Rightarrow> Eui64 \<Rightarrow> Key \<Rightarrow> ApsSecurity" where
  "set_provisional_key s eui64 k =
     device_write eui64 (ds_key_update (\<lambda>_. Some \<lparr>link_key = k, attributes = Provisional\<rparr>)) s"

definition begin_join :: "ApsSecurity \<Rightarrow> Eui64 \<Rightarrow> Key option \<times> ApsSecurity" where
  "begin_join s eui64 =
     (case fm_get (devices s) eui64 of
        None \<Rightarrow> (None, s)
      | Some entry \<Rightarrow>
          (let s1 = s\<lparr>devices := fm_get_mut (devices s) eui64 (pending_key_update (\<lambda>_. None))\<rparr> in
           case ds_key entry of
             Some k \<Rightarrow>
               if attributes k = Provisional then (Some (link_key k), s1)
               else (None, prune_if_empty
                       (s1\<lparr>devices := fm_get_mut (devices s1) eui64 (ds_key_update (\<lambda>_. None))\<rparr>) eui64)
           | None \<Rightarrow> (None, s1)))"

definition has_unique_link_key :: "ApsSecurity \<Rightarrow> Eui64 \<Rightarrow> bool" where
  "has_unique_link_key s eui64 \<longleftrightarrow> device_key s eui64 \<noteq> None \<or> tclk_seed s \<noteq> None"

definition device_key_count :: "ApsSecurity \<Rightarrow> nat" where
  "device_key_count s = length (filter (\<lambda>e. ds_key e \<noteq> None) (fm_values (devices s)))"

definition device_keys :: "ApsSecurity \<Rightarrow> (Eui64 \<times> DeviceLinkKey) list" where
  "device_keys s = List.map_filter (\<lambda>(eui64, entry). map_option (Pair eui64) (ds_key entry)) (devices s)"

definition issue_device_key :: "block_cipher \<Rightarrow> ApsSecurity \<Rightarrow> Eui64 \<Rightarrow> Key \<Rightarrow> (Key \<times> ApsSecurity) run" where
  "issue_device_key aes s eui64 fresh_key =
     run_bind (case tclk_seed s of None \<Rightarrow> Ret fresh_key | Some sd \<Rightarrow> tclk_derive aes sd eui64)
       (\<lambda>k. Ret (k, device_write eui64 (pending_key_update (\<lambda>_. Some k)) s))"

definition device_link_key :: "block_cipher \<Rightarrow> ApsSecurity \<Rightarrow> Eui64 \<Rightarrow> Key run" where
  "device_link_key aes s eui64 =
     (case device_key s eui64 of None \<Rightarrow> unkeyed_link_key aes s eui64 | Some k \<Rightarrow> Ret (link_key k))"

definition join_link_key :: "ApsSecurity \<Rightarrow> Eui64 \<Rightarrow> Key" where
  "join_link_key s eui64 =
     (case device_key s eui64 of None \<Rightarrow> global_link_key s | Some k \<Rightarrow> link_key k)"

definition verify_device_key ::
  "block_cipher \<Rightarrow> ApsSecurity \<Rightarrow> Eui64 \<Rightarrow> u8 list \<Rightarrow> (bool option \<times> ApsSecurity) run" where
  "verify_device_key aes s eui64 hash =
     (case fm_get (devices s) eui64 of
        None \<Rightarrow> Ret (None, s)
      | Some entry \<Rightarrow>
          (case pending_key entry of
             Some pending \<Rightarrow>
               run_bind (verify_key_hash aes pending) (\<lambda>h.
                 if h = hash then
                   Ret (Some True, s\<lparr>devices := fm_get_mut (devices s) eui64
                     (\<lambda>e. e\<lparr>ds_key := Some \<lparr>link_key = pending, attributes = Verified\<rparr>,
                            pending_key := None\<rparr>)\<rparr>)
                 else Ret (Some False, s))
           | None \<Rightarrow>
               (case ds_key entry of
                  None \<Rightarrow> Ret (None, s)
                | Some k \<Rightarrow>
                    run_bind (verify_key_hash aes (link_key k)) (\<lambda>h.
                      if h = hash then
                        Ret (Some True, s\<lparr>devices := fm_get_mut (devices s) eui64
                          (\<lambda>e. e\<lparr>ds_key := Some (k\<lparr>attributes := Verified\<rparr>)\<rparr>)\<rparr>)
                      else Ret (Some False, s)))))"

section \<open>Encryption\<close>

definition aps_next_outgoing_frame_counter :: "ApsSecurity \<Rightarrow> (u32 \<times> ApsSecurity) run" where
  "aps_next_outgoing_frame_counter s =
     run_bind (unwrap (checked_add (aps_counter s) 1)) (\<lambda>c. Ret (c, s\<lparr>aps_counter := c\<rparr>))"

definition select_key :: "block_cipher \<Rightarrow> Key \<Rightarrow> NwkSecurityHeaderKeyId \<Rightarrow> Key option run" where
  "select_key aes k kid =
     (case kid of
        KeyTransportKey \<Rightarrow> run_bind (key_transport_key aes k) (Ret \<circ> Some)
      | KeyLoadKey \<Rightarrow> run_bind (key_load_key aes k) (Ret \<circ> Some)
      | DataKey \<Rightarrow> Ret (Some k)
      | NetworkKey \<Rightarrow> Ret None)"

definition next_aux_header :: "NwkSecurityHeaderKeyId \<Rightarrow> ApsSecurity \<Rightarrow> (ApsAuxHeader \<times> ApsSecurity) run" where
  "next_aux_header kid s =
     run_bind (aps_next_outgoing_frame_counter s) (\<lambda>(c, s').
       Ret (\<lparr>security_control = \<lparr>security_level = NoSecurity, key_id = kid, extended_nonce = True,
                                  require_verified_frame_counter = False\<rparr>,
              frame_counter = c, extended_source = Some (local_eui64 s'), key_sequence_number = None\<rparr>, s'))"

type_synonym 'f frame_encrypt = "Key \<Rightarrow> ApsAuxHeader \<Rightarrow> 'f run"

definition encrypt_command_with_link_key ::
  "block_cipher \<Rightarrow> 'f frame_encrypt \<Rightarrow> ApsSecurity \<Rightarrow> Key \<Rightarrow> NwkSecurityHeaderKeyId \<Rightarrow> ('f \<times> ApsSecurity) run" where
  "encrypt_command_with_link_key aes encrypt s k kid =
     run_bind (select_key aes k kid) (\<lambda>sel. run_bind (unwrap sel) (\<lambda>key.
       run_bind (next_aux_header kid s) (\<lambda>(aux, s').
         run_bind (encrypt key aux) (\<lambda>f. Ret (f, s')))))"

definition encrypt_command ::
  "block_cipher \<Rightarrow> 'f frame_encrypt \<Rightarrow> ApsSecurity \<Rightarrow> Eui64 \<Rightarrow> NwkSecurityHeaderKeyId \<Rightarrow> ('f \<times> ApsSecurity) run" where
  "encrypt_command aes encrypt s destination kid =
     run_bind (device_link_key aes s destination) (\<lambda>k. encrypt_command_with_link_key aes encrypt s k kid)"

definition encrypt_command_with_applied_key ::
  "block_cipher \<Rightarrow> 'f frame_encrypt \<Rightarrow> ApsSecurity \<Rightarrow> Eui64 \<Rightarrow> AppliedKey \<Rightarrow> NwkSecurityHeaderKeyId \<Rightarrow>
     ('f option \<times> ApsSecurity) run" where
  "encrypt_command_with_applied_key aes encrypt s source applied kid =
     (case applied of
        AppliedNetwork \<Rightarrow> Ret (None, s)
      | AppliedDevice \<Rightarrow> run_bind (device_link_key aes s source) (\<lambda>k.
          run_bind (encrypt_command_with_link_key aes encrypt s k kid) (\<lambda>(f, s'). Ret (Some f, s')))
      | AppliedGlobal \<Rightarrow>
          run_bind (encrypt_command_with_link_key aes encrypt s (global_link_key s) kid)
            (\<lambda>(f, s'). Ret (Some f, s')))"

definition data_link_key :: "block_cipher \<Rightarrow> ApsSecurity \<Rightarrow> Eui64 \<Rightarrow> Key option run" where
  "data_link_key aes s eui64 =
     (case device_key s eui64 of
        Some entry \<Rightarrow> if attributes entry = Unverified then Ret None else Ret (Some (link_key entry))
      | None \<Rightarrow> run_bind (unkeyed_link_key aes s eui64) (Ret \<circ> Some))"

definition encrypt_data ::
  "block_cipher \<Rightarrow> 'f frame_encrypt \<Rightarrow> ApsSecurity \<Rightarrow> Eui64 \<Rightarrow> ('f option \<times> ApsSecurity) run" where
  "encrypt_data aes encrypt s destination =
     run_bind (data_link_key aes s destination) (\<lambda>k.
       case k of
         None \<Rightarrow> Ret (None, s)
       | Some key \<Rightarrow> run_bind (next_aux_header DataKey s) (\<lambda>(aux, s').
           run_bind (encrypt key aux) (\<lambda>f. Ret (Some f, s'))))"

text \<open>\<^verbatim>\<open>encrypt_ack\<close> has the body of \<^verbatim>\<open>encrypt_data\<close> for another frame type.\<close>

definition encrypt_ack ::
  "block_cipher \<Rightarrow> 'f frame_encrypt \<Rightarrow> ApsSecurity \<Rightarrow> Eui64 \<Rightarrow> ('f option \<times> ApsSecurity) run" where
  "encrypt_ack aes encrypt s destination =
     run_bind (data_link_key aes s destination) (\<lambda>k.
       case k of
         None \<Rightarrow> Ret (None, s)
       | Some key \<Rightarrow> run_bind (next_aux_header DataKey s) (\<lambda>(aux, s').
           run_bind (encrypt key aux) (\<lambda>f. Ret (Some f, s'))))"

section \<open>Decryption\<close>

fun try_keys ::
  "block_cipher \<Rightarrow> NwkSecurityHeaderKeyId \<Rightarrow> (Key \<Rightarrow> 't option) \<Rightarrow> Key list \<Rightarrow> (Key \<times> 't) option run" where
  "try_keys aes kid decrypt [] = Ret None"
| "try_keys aes kid decrypt (k # ks) =
     run_bind (select_key aes k kid) (\<lambda>sel. run_bind (unwrap sel) (\<lambda>key.
       case decrypt key of
         Some frame \<Rightarrow> Ret (Some (k, frame))
       | None \<Rightarrow> try_keys aes kid decrypt ks))"

definition decrypt_frame ::
  "block_cipher \<Rightarrow> ApsSecurity \<Rightarrow> Eui64 \<Rightarrow> ApsAuxHeader \<Rightarrow> Key \<Rightarrow> (Key \<Rightarrow> 't option) \<Rightarrow>
     (('t \<times> AppliedKey) option \<times> ApsSecurity) run" where
  "decrypt_frame aes s source aux net_key decrypt =
     (if frame_counter aux = - 1 then Ret (None, s)
      else if key_id (security_control aux) = NetworkKey
      then Ret (map_option (\<lambda>f. (f, AppliedNetwork)) (decrypt net_key), s)
      else
        run_bind (device_link_key aes s source) (\<lambda>k0.
        run_bind (try_keys aes (key_id (security_control aux)) decrypt
                    (if k0 \<noteq> global_link_key s then [k0, global_link_key s] else [k0])) (\<lambda>found.
          case found of
            None \<Rightarrow> Ret (None, s)
          | Some (k, frame) \<Rightarrow>
              if k = global_link_key s then Ret (Some (frame, AppliedGlobal), s)
              else
                (case incoming_frame_counter s source of
                   Some minimum \<Rightarrow>
                     if frame_counter aux < minimum then Ret (None, s)
                     else Ret (Some (frame, AppliedDevice), device_write source
                            (ds_incoming_frame_counter_update (\<lambda>_. Some (frame_counter aux + 1))) s)
                 | None \<Rightarrow> Ret (Some (frame, AppliedDevice), device_write source
                     (ds_incoming_frame_counter_update (\<lambda>_. Some (frame_counter aux + 1))) s)))))"

definition decrypt_command ::
  "block_cipher \<Rightarrow> ApsSecurity \<Rightarrow> Eui64 \<Rightarrow> ApsAuxHeader \<Rightarrow> Key \<Rightarrow> (Key \<Rightarrow> ParseError + 't) \<Rightarrow>
     (('t \<times> AppliedKey) option \<times> ApsSecurity) run" where
  "decrypt_command aes s source aux net_key decrypt =
     decrypt_frame aes s source aux net_key (\<lambda>k. case decrypt k of Inr f \<Rightarrow> Some f | Inl _ \<Rightarrow> None)"

definition decrypt_data ::
  "block_cipher \<Rightarrow> ApsSecurity \<Rightarrow> Eui64 \<Rightarrow> ApsAuxHeader \<Rightarrow> Key \<Rightarrow> (Key \<Rightarrow> Eui64 \<Rightarrow> ParseError + 't) \<Rightarrow>
     ('t option \<times> ApsSecurity) run" where
  "decrypt_data aes s source aux net_key decrypt =
     run_bind (decrypt_frame aes s source aux net_key
         (\<lambda>k. case decrypt k source of Inr f \<Rightarrow> Some f | Inl _ \<Rightarrow> None))
       (\<lambda>(r, s'). Ret (map_option fst r, s'))"

definition decrypt_ack ::
  "block_cipher \<Rightarrow> ApsSecurity \<Rightarrow> Eui64 \<Rightarrow> ApsAuxHeader \<Rightarrow> Key \<Rightarrow> (Key \<Rightarrow> Eui64 \<Rightarrow> ParseError + 't) \<Rightarrow>
     ('t option \<times> ApsSecurity) run" where
  "decrypt_ack aes s source aux net_key decrypt =
     run_bind (decrypt_frame aes s source aux net_key
         (\<lambda>k. case decrypt k source of Inr f \<Rightarrow> Some f | Inl _ \<Rightarrow> None))
       (\<lambda>(r, s'). Ret (map_option fst r, s'))"

section \<open>The table under the operations\<close>

definition aps_inv :: "ApsSecurity \<Rightarrow> bool" where
  "aps_inv s \<longleftrightarrow> fm_inv (devices s)"

lemma device_write_simps [simp]:
  "global_link_key (device_write e f s) = global_link_key s"
  "local_eui64 (device_write e f s) = local_eui64 s"
  "tclk_seed (device_write e f s) = tclk_seed s"
  "aps_counter (device_write e f s) = aps_counter s"
  by (simp_all add: device_write_def)

lemma aps_inv_new: "aps_inv (aps_security_new g e sd)"
  by (simp add: aps_inv_def aps_security_new_def tbl)

lemma aps_inv_device_write [simp]: "aps_inv s \<Longrightarrow> aps_inv (device_write e f s)"
  by (simp add: aps_inv_def device_write_def tbl)

lemma get_device_write:
  "aps_inv s \<Longrightarrow> fm_get (devices (device_write e f s)) e' =
     (if e' = e then Some (f (case fm_get (devices s) e of None \<Rightarrow> device_state_default | Some v \<Rightarrow> v))
      else fm_get (devices s) e')"
  by (simp add: aps_inv_def device_write_def tbl)

lemma aps_inv_prune [simp]: "aps_inv s \<Longrightarrow> aps_inv (prune_if_empty s e)"
  by (auto simp: aps_inv_def prune_if_empty_def tbl split: option.splits)

lemma prune_fields [simp]:
  "aps_counter (prune_if_empty s e) = aps_counter s"
  "local_eui64 (prune_if_empty s e) = local_eui64 s"
  "global_link_key (prune_if_empty s e) = global_link_key s"
  "tclk_seed (prune_if_empty s e) = tclk_seed s"
  by (auto simp: prune_if_empty_def split: option.splits)

lemma prune_keeps:
  assumes "aps_inv s"
  shows "device_key (prune_if_empty s e) d = device_key s d"
    and "incoming_frame_counter (prune_if_empty s e) d = incoming_frame_counter s d"
  using assms
  by (auto simp: aps_inv_def prune_if_empty_def device_key_def incoming_frame_counter_def tbl
      split: option.splits if_splits)

section \<open>Replay protection\<close>

record 't aps_input =
  ai_source :: Eui64
  ai_aux :: ApsAuxHeader
  ai_network_key :: Key
  ai_decrypt :: "Key \<Rightarrow> 't option"

text \<open>A frame counts as accepted here when a unique link key decrypted it, the case that the code protects.\<close>

definition aps_receive :: "block_cipher \<Rightarrow> ApsSecurity \<Rightarrow> 't aps_input \<Rightarrow> bool \<times> ApsSecurity" where
  "aps_receive aes s i =
     (case decrypt_frame aes s (ai_source i) (ai_aux i) (ai_network_key i) (ai_decrypt i) of
        Panic \<Rightarrow> (False, s)
      | Ret (r, s') \<Rightarrow> (case r of Some (_, AppliedDevice) \<Rightarrow> True | _ \<Rightarrow> False, s'))"

definition ai_counter :: "'t aps_input \<Rightarrow> u32" where
  "ai_counter i = frame_counter (ai_aux i)"

definition aps_floor :: "ApsSecurity \<Rightarrow> Eui64 \<Rightarrow> nat" where
  "aps_floor s d = (case incoming_frame_counter s d of None \<Rightarrow> 0 | Some c \<Rightarrow> unat c)"

text \<open>Either a device key decrypted the frame and its counter is noted, or the state is unchanged.\<close>

lemma decrypt_frame_cases:
  assumes dec: "decrypt_frame aes s source aux nk dec = Ret (r, s')"
  obtains (device) f where "r = Some (f, AppliedDevice)" "frame_counter aux \<noteq> - 1"
      "\<And>m. incoming_frame_counter s source = Some m \<Longrightarrow> m \<le> frame_counter aux"
      "s' = device_write source (ds_incoming_frame_counter_update (\<lambda>_. Some (frame_counter aux + 1))) s"
    | (other) "\<And>f. r \<noteq> Some (f, AppliedDevice)" "s' = s"
proof (cases "frame_counter aux = - 1 \<or> key_id (security_control aux) = NetworkKey")
  case True
  then have "(\<forall>f. r \<noteq> Some (f, AppliedDevice)) \<and> s' = s"
    using dec by (cases "dec nk") (auto simp: decrypt_frame_def split: if_splits)
  then show ?thesis using other by blast
next
  case False
  then obtain k0 found where
    found: "try_keys aes (key_id (security_control aux)) dec
      (if k0 \<noteq> global_link_key s then [k0, global_link_key s] else [k0]) = Ret found" and
    res: "(case found of
            None \<Rightarrow> Ret (None, s)
          | Some (k, frame) \<Rightarrow>
              if k = global_link_key s then Ret (Some (frame, AppliedGlobal), s)
              else
                (case incoming_frame_counter s source of
                   Some minimum \<Rightarrow>
                     if frame_counter aux < minimum then Ret (None, s)
                     else Ret (Some (frame, AppliedDevice), device_write source
                            (ds_incoming_frame_counter_update (\<lambda>_. Some (frame_counter aux + 1))) s)
                 | None \<Rightarrow> Ret (Some (frame, AppliedDevice), device_write source
                     (ds_incoming_frame_counter_update (\<lambda>_. Some (frame_counter aux + 1))) s))) = Ret (r, s')"
    using dec unfolding decrypt_frame_def run_bind_Ret_iff by (simp only: if_False de_Morgan_disj run_bind_Ret_iff) blast
  show ?thesis
  proof (cases found)
    case None
    then show ?thesis using res other by simp
  next
    case (Some kf)
    then show ?thesis
      using res False
      by (cases kf; cases "incoming_frame_counter s source")
        (auto intro: device other simp: not_less split: if_splits)
  qed
qed

lemma counter_after_write:
  "aps_inv s \<Longrightarrow>
     incoming_frame_counter (device_write e (ds_incoming_frame_counter_update (\<lambda>_. Some c)) s) d =
       (if d = e then Some c else incoming_frame_counter s d)"
  by (auto simp: incoming_frame_counter_def get_device_write)

lemma unat_succ: "c \<noteq> - 1 \<Longrightarrow> unat (c + 1) = Suc (unat c)" for c :: u32
  using unat_bound [of c] unat_max [where 'a = 32]
  by (auto simp: word_unat_eq_iff unat_word_ariths)

lemma aps_receive_cases:
  assumes "aps_receive aes s i = (b, s')"
  obtains (device) "b" "ai_counter i \<noteq> - 1"
      "\<And>m. incoming_frame_counter s (ai_source i) = Some m \<Longrightarrow> m \<le> ai_counter i"
      "s' = device_write (ai_source i) (ds_incoming_frame_counter_update (\<lambda>_. Some (ai_counter i + 1))) s"
    | (other) "\<not> b" "s' = s"
proof (cases "decrypt_frame aes s (ai_source i) (ai_aux i) (ai_network_key i) (ai_decrypt i)")
  case Panic
  then show ?thesis using assms other by (simp add: aps_receive_def)
next
  case (Ret x)
  then obtain r where dec: "decrypt_frame aes s (ai_source i) (ai_aux i) (ai_network_key i) (ai_decrypt i) = Ret (r, s')"
    and b: "b \<longleftrightarrow> (\<exists>f. r = Some (f, AppliedDevice))"
    using assms by (cases x) (auto simp: aps_receive_def split: option.splits AppliedKey.splits)
  from dec show ?thesis by (cases rule: decrypt_frame_cases) (use b device other in \<open>auto simp: ai_counter_def\<close>)
qed

interpretation aps_replay: replay_guard "aps_receive aes" ai_source ai_counter aps_floor aps_inv
  for aes :: block_cipher
proof
  fix s b s' and i :: "'t aps_input"
  assume inv: "aps_inv s" and st: "aps_receive aes s i = (b, s')"
  show "aps_inv s'" using st inv by (cases rule: aps_receive_cases) simp_all
  show "aps_floor s' d = (if b \<and> d = ai_source i then Suc (unat (ai_counter i)) else aps_floor s d)" for d
    using st by (cases rule: aps_receive_cases) (simp_all add: aps_floor_def counter_after_write inv unat_succ)
next
  fix s s' and i :: "'t aps_input"
  assume "aps_inv s" "aps_receive aes s i = (True, s')"
  from this(2) show "aps_floor s (ai_source i) \<le> unat (ai_counter i)"
    by (cases rule: aps_receive_cases) (auto simp: aps_floor_def word_le_nat_alt split: option.splits)
qed


end
