(* ===== verification/Aps_Lifecycle.thy ===== *)
theory Aps_Lifecycle
  imports Aps_Security
begin

text \<open>
  Histories of calls to \<^verbatim>\<open>ApsSecurity\<close>: outgoing frame counters and nonces never repeat, and the life of
  a link key from provisioning over issue and verification to a new join.
\<close>

datatype aps_op =
    OpRestoreKey Eui64 Key
  | OpRestoreIncoming Eui64 u32
  | OpRestoreOutgoing u32
  | OpProvision Eui64 Key
  | OpBeginJoin Eui64
  | OpIssue Eui64 Key
  | OpVerify Eui64 "u8 list"
  | OpEncryptCommand Eui64 NwkSecurityHeaderKeyId
  | OpEncryptWithKey Key NwkSecurityHeaderKeyId
  | OpEncryptApplied Eui64 AppliedKey NwkSecurityHeaderKeyId
  | OpEncryptData Eui64
  | OpEncryptAck Eui64
  | OpDecrypt Eui64 ApsAuxHeader Key "Key \<Rightarrow> unit option"

text \<open>The auxiliary header that a call puts into a frame, if it builds one, and the next state.\<close>

definition emit_aux :: "ApsAuxHeader frame_encrypt" where
  "emit_aux k aux = Ret aux"

fun aps_exec :: "block_cipher \<Rightarrow> aps_op \<Rightarrow> ApsSecurity \<Rightarrow> (ApsAuxHeader option \<times> ApsSecurity) run" where
  "aps_exec aes (OpRestoreKey e k) s = Ret (None, restore_device_key s e k)"
| "aps_exec aes (OpRestoreIncoming e c) s = Ret (None, restore_incoming_frame_counter s e c)"
| "aps_exec aes (OpRestoreOutgoing c) s = Ret (None, restore_outgoing_frame_counter s c)"
| "aps_exec aes (OpProvision e k) s = Ret (None, set_provisional_key s e k)"
| "aps_exec aes (OpBeginJoin e) s = Ret (None, snd (begin_join s e))"
| "aps_exec aes (OpIssue e k) s = run_bind (issue_device_key aes s e k) (\<lambda>(_, s'). Ret (None, s'))"
| "aps_exec aes (OpVerify e h) s = run_bind (verify_device_key aes s e h) (\<lambda>(_, s'). Ret (None, s'))"
| "aps_exec aes (OpEncryptCommand e kid) s =
     run_bind (encrypt_command aes emit_aux s e kid) (\<lambda>(f, s'). Ret (Some f, s'))"
| "aps_exec aes (OpEncryptWithKey k kid) s =
     run_bind (encrypt_command_with_link_key aes emit_aux s k kid) (\<lambda>(f, s'). Ret (Some f, s'))"
| "aps_exec aes (OpEncryptApplied e ap kid) s = encrypt_command_with_applied_key aes emit_aux s e ap kid"
| "aps_exec aes (OpEncryptData e) s = encrypt_data aes emit_aux s e"
| "aps_exec aes (OpEncryptAck e) s = encrypt_ack aes emit_aux s e"
| "aps_exec aes (OpDecrypt e aux nk dec) s =
     run_bind (decrypt_frame aes s e aux nk dec) (\<lambda>(_, s'). Ret (None, s'))"

fun aps_run :: "block_cipher \<Rightarrow> aps_op list \<Rightarrow> ApsSecurity \<Rightarrow> (ApsAuxHeader list \<times> ApsSecurity) run" where
  "aps_run aes [] s = Ret ([], s)"
| "aps_run aes (c # cs) s =
     run_bind (aps_exec aes c s) (\<lambda>(h, s').
       run_bind (aps_run aes cs s') (\<lambda>(hs, s''). Ret (case h of None \<Rightarrow> hs | Some x \<Rightarrow> x # hs, s'')))"

section \<open>Counters and nonces\<close>

lemma next_aux_header_Ret:
  assumes "next_aux_header kid s = Ret (aux, s')"
  shows "aps_counter s < aps_counter s'" "frame_counter aux = aps_counter s'"
    "extended_source aux = Some (local_eui64 s)" "local_eui64 s' = local_eui64 s" "devices s' = devices s"
    "global_link_key s' = global_link_key s" "tclk_seed s' = tclk_seed s"
  using assms
  by (auto simp: next_aux_header_def aps_next_outgoing_frame_counter_def run_bind_Ret_iff unwrap_Ret_iff
      checked_add_Some word_less_nat_alt unat_word_ariths)

text \<open>What every call does to the counter: a call that builds a frame uses the counter it has just advanced.\<close>

definition counter_step :: "ApsSecurity \<Rightarrow> ApsAuxHeader option \<Rightarrow> ApsSecurity \<Rightarrow> bool" where
  "counter_step s h s' \<longleftrightarrow> local_eui64 s' = local_eui64 s \<and>
     (case h of None \<Rightarrow> aps_counter s \<le> aps_counter s'
      | Some aux \<Rightarrow> aps_counter s < aps_counter s' \<and> frame_counter aux = aps_counter s' \<and>
          extended_source aux = Some (local_eui64 s))"

lemma counter_step_refl: "counter_step s None s"
  by (simp add: counter_step_def)

lemma next_aux_header_step: "next_aux_header kid s = Ret (aux, s') \<Longrightarrow> counter_step s (Some aux) s'"
  by (simp add: counter_step_def next_aux_header_Ret)

lemma encrypt_with_link_key_step:
  "encrypt_command_with_link_key aes emit_aux s k kid = Ret (f, s') \<Longrightarrow> counter_step s (Some f) s'"
  by (auto simp: encrypt_command_with_link_key_def emit_aux_def run_bind_Ret_iff
      intro: next_aux_header_step)

lemma encrypt_data_step: "encrypt_data aes emit_aux s e = Ret (h, s') \<Longrightarrow> counter_step s h s'"
  by (auto simp: encrypt_data_def emit_aux_def run_bind_Ret_iff counter_step_refl
      intro: next_aux_header_step split: option.splits)

lemma encrypt_ack_data: "encrypt_ack = encrypt_data"
  by (simp add: fun_eq_iff encrypt_ack_def encrypt_data_def)

lemma encrypt_applied_step:
  "encrypt_command_with_applied_key aes emit_aux s e ap kid = Ret (h, s') \<Longrightarrow> counter_step s h s'"
  by (cases ap) (auto simp: encrypt_command_with_applied_key_def run_bind_Ret_iff counter_step_refl
      intro: encrypt_with_link_key_step)

lemma begin_join_fields:
  "aps_counter (snd (begin_join s e)) = aps_counter s"
  "local_eui64 (snd (begin_join s e)) = local_eui64 s"
  "global_link_key (snd (begin_join s e)) = global_link_key s"
  by (auto simp: begin_join_def Let_def split: option.splits)

lemma verify_device_key_fields:
  assumes "verify_device_key aes s e h = Ret (r, s')"
  shows "aps_counter s' = aps_counter s \<and> local_eui64 s' = local_eui64 s"
  using assms by (auto simp: verify_device_key_def run_bind_Ret_iff split: option.splits if_splits)

lemma aps_exec_counter:
  assumes "aps_exec aes c s = Ret (h, s')"
  shows "counter_step s h s'"
proof (cases c)
  case (OpDecrypt e aux nk dec)
  then obtain r where "decrypt_frame aes s e aux nk dec = Ret (r, s')" "h = None"
    using assms by (auto simp: run_bind_Ret_iff)
  from this(1) show ?thesis
    by (cases rule: decrypt_frame_cases) (simp_all add: counter_step_def \<open>h = None\<close>)
next
  case (OpVerify e k)
  then show ?thesis using assms
    by (auto simp: run_bind_Ret_iff counter_step_def dest: verify_device_key_fields)
next
  case (OpEncryptCommand e kid)
  then show ?thesis using assms
    by (auto simp: run_bind_Ret_iff encrypt_command_def intro: encrypt_with_link_key_step)
next
  case (OpEncryptWithKey k kid)
  then show ?thesis using assms by (auto simp: run_bind_Ret_iff intro: encrypt_with_link_key_step)
next
  case (OpEncryptApplied e ap kid)
  then show ?thesis using assms by (simp add: encrypt_applied_step)
next
  case (OpEncryptData e)
  then show ?thesis using assms by (simp add: encrypt_data_step)
next
  case (OpEncryptAck e)
  then show ?thesis using assms by (simp add: encrypt_data_step encrypt_ack_data)
qed (use assms in \<open>auto simp: counter_step_def restore_device_key_def restore_incoming_frame_counter_def
      restore_outgoing_frame_counter_def set_provisional_key_def begin_join_fields issue_device_key_def
      run_bind_Ret_iff\<close>)

lemma aps_run_counters:
  "aps_run aes cs s = Ret (hs, s') \<Longrightarrow>
     sorted_wrt (<) (map frame_counter hs) \<and> local_eui64 s' = local_eui64 s \<and> aps_counter s \<le> aps_counter s' \<and>
     (\<forall>h \<in> set hs. aps_counter s < frame_counter h \<and> extended_source h = Some (local_eui64 s))"
proof (induction cs arbitrary: s hs)
  case (Cons c cs)
  then obtain h s1 hs' where ex: "aps_exec aes c s = Ret (h, s1)" and rest: "aps_run aes cs s1 = Ret (hs', s')"
    and hs: "hs = (case h of None \<Rightarrow> hs' | Some x \<Rightarrow> x # hs')"
    by (auto simp: run_bind_Ret_iff)
  show ?case
    using Cons.IH [OF rest] aps_exec_counter [OF ex] unfolding hs counter_step_def
    by (cases h) (auto intro: le_less_trans less_trans)
qed simp

text \<open>
  C6: Along every history of calls that does not exhaust the counter, the frames that \<^verbatim>\<open>ApsSecurity\<close>
  encrypts (commands, data and acknowledgements, under whatever keys) carry strictly increasing counters,
  and their CCM* nonces are pairwise distinct, whatever security level is patched into the header.
\<close>

theorem aps_nonces_distinct:
  assumes "aps_run aes cs s = Ret (hs, s')"
  shows "sorted_wrt (<) (map frame_counter hs) \<and>
    distinct (map (\<lambda>h. aps_get_nonce wr (aps_aux_get_modified level h) (the (extended_source h))) hs)"
proof -
  have sorted: "sorted_wrt (<) (map frame_counter hs)" using aps_run_counters [OF assms] by simp
  then have "distinct (map frame_counter hs)" by (simp add: strict_sorted_iff)
  then have "distinct (map (\<lambda>h. aps_get_nonce wr (aps_aux_get_modified level h) (the (extended_source h))) hs)"
    by (auto simp: distinct_map inj_on_def aps_get_nonce_def aps_aux_get_modified_def ccm_nonce_eqD)
  with sorted show ?thesis by simp
qed

theorem aps_nonces_distinct_witness:
  "\<exists>hs s'. aps_run (\<lambda>k b. b) [OpEncryptData 5, OpEncryptWithKey [1] DataKey] (aps_security_new [7] 3 None)
      = Ret (hs, s') \<and> length hs = 2 \<and>
    distinct (map (\<lambda>h. aps_get_nonce pack_ctl (aps_aux_get_modified EncMic32 h) (the (extended_source h))) hs)"
proof -
  obtain hs s' where r: "aps_run (\<lambda>k b. b) [OpEncryptData 5, OpEncryptWithKey [1] DataKey]
    (aps_security_new [7] 3 None) = Ret (hs, s')" "length hs = 2"
    by (simp add: aps_security_new_def encrypt_data_def data_link_key_def device_key_def fm_get_def
        index_of_def fm_new_def unkeyed_link_key_def next_aux_header_def aps_next_outgoing_frame_counter_def
        checked_add_def emit_aux_def encrypt_command_with_link_key_def select_key_def)
  with aps_nonces_distinct [OF r(1), of pack_ctl EncMic32] show ?thesis by blast
qed

section \<open>The life of a link key\<close>

text \<open>
  C20: Issuing a key changes no key in use, for any device, until the device proves that it has the new
  key; with the right hash the issued key becomes the device's link key, with any other hash nothing
  changes.
\<close>

theorem issued_key_takes_effect_on_verification:
  assumes "aps_inv s" "issue_device_key aes s e fresh = Ret (k, s1)" "verify_key_hash aes k = Ret h"
  shows "(\<forall>d. device_link_key aes s1 d = device_link_key aes s d \<and> data_link_key aes s1 d = data_link_key aes s d) \<and>
    (\<exists>s2. verify_device_key aes s1 e h = Ret (Some True, s2) \<and>
      device_link_key aes s2 e = Ret k \<and> data_link_key aes s2 e = Ret (Some k)) \<and>
    (\<forall>h'. h' \<noteq> h \<longrightarrow> verify_device_key aes s1 e h' = Ret (Some False, s1))"
proof -
  have s1: "s1 = device_write e (pending_key_update (\<lambda>_. Some k)) s"
    using assms(2) by (auto simp: issue_device_key_def run_bind_Ret_iff)
  have key: "device_key s1 d = device_key s d" for d
    using assms(1) by (auto simp: s1 device_key_def get_device_write device_state_default_def split: option.splits)
  have unkeyed: "unkeyed_link_key aes s1 d = unkeyed_link_key aes s d" for d
    by (simp add: unkeyed_link_key_def s1 split: option.split)
  have inv1: "fm_inv (devices s1)" using aps_inv_device_write [OF assms(1)] by (simp add: s1 aps_inv_def)
  obtain entry where entry: "fm_get (devices s1) e = Some entry" "pending_key entry = Some k"
    using assms(1) by (simp add: s1 get_device_write)
  define s2 where "s2 = s1\<lparr>devices := fm_get_mut (devices s1) e
    (\<lambda>x. x\<lparr>ds_key := Some \<lparr>link_key = k, attributes = Verified\<rparr>, pending_key := None\<rparr>)\<rparr>"
  have "verify_device_key aes s1 e h' = (if h = h' then Ret (Some True, s2) else Ret (Some False, s1))" for h'
    by (simp add: verify_device_key_def entry assms(3) s2_def)
  moreover have "device_key s2 e = Some \<lparr>link_key = k, attributes = Verified\<rparr>"
    by (simp add: s2_def device_key_def fm.get_get_mut inv1 entry)
  moreover have "device_link_key aes s1 d = device_link_key aes s d \<and>
      data_link_key aes s1 d = data_link_key aes s d" for d
    using unkeyed [of d] by (simp add: device_link_key_def data_link_key_def key split: option.split)
  ultimately show ?thesis by (simp add: device_link_key_def data_link_key_def)
qed

theorem issued_key_takes_effect_on_verification_witness:
  "\<exists>s1 h s2. let aes = (\<lambda>k b. k) in
     issue_device_key aes (aps_security_new [7] 3 None) 5 (replicate 16 1) = Ret (replicate 16 1, s1) \<and>
     verify_device_key aes s1 5 h = Ret (Some True, s2) \<and> device_link_key aes s2 5 = Ret (replicate 16 1)"
proof -
  let ?aes = "(\<lambda>k b. k) :: block_cipher" and ?k = "replicate 16 1 :: Key"
  obtain s1 where s1: "issue_device_key ?aes (aps_security_new [7] 3 None) 5 ?k = Ret (?k, s1)"
    by (simp add: issue_device_key_def aps_security_new_def)
  obtain h where h: "verify_key_hash ?aes ?k = Ret h"
    using keyed_hash_Ret [of ?aes ?k "[3]"] by (auto simp: verify_key_hash_def block16_def)
  show ?thesis
    using issued_key_takes_effect_on_verification [OF aps_inv_new s1 h] s1 by (auto simp: Let_def)
qed

text \<open>
  C21: A join starts from the key the device really has: a provisional (install code) key survives it and
  is returned, any other key is forgotten and the joiner falls back to the well-known key; a key that was
  issued and never verified is dropped; replay counters and all other devices are unaffected.
\<close>

theorem begin_join_spec:
  assumes "aps_inv s" "begin_join s e = (r, s')"
  shows "aps_inv s' \<and>
    r = (case device_key s e of
           Some k \<Rightarrow> if attributes k = Provisional then Some (link_key k) else None | None \<Rightarrow> None) \<and>
    join_link_key s' e = (case r of Some k \<Rightarrow> k | None \<Rightarrow> global_link_key s) \<and>
    Option.bind (fm_get (devices s') e) pending_key = None \<and>
    (\<forall>d. incoming_frame_counter s' d = incoming_frame_counter s d) \<and>
    (\<forall>d. d \<noteq> e \<longrightarrow> fm_get (devices s') d = fm_get (devices s) d)"
proof (cases "fm_get (devices s) e")
  case None
  then show ?thesis using assms by (auto simp: begin_join_def device_key_def join_link_key_def)
next
  case (Some entry)
  have inv: "fm_inv (devices s)" using assms(1) by (simp add: aps_inv_def)
  show ?thesis
  proof (cases "\<exists>k. ds_key entry = Some k \<and> attributes k \<noteq> Provisional")
    case False
    then have "s' = s\<lparr>devices := fm_get_mut (devices s) e (pending_key_update (\<lambda>_. None))\<rparr>"
      "r = map_option link_key (ds_key entry)"
      using assms(2) Some by (auto simp: begin_join_def Let_def split: option.splits if_splits)
    then show ?thesis
      using inv Some False by (auto simp: aps_inv_def device_key_def join_link_key_def
          incoming_frame_counter_def fm.inv_get_mut fm.get_get_mut split: option.splits)
  next
    case True
    define s1 where "s1 = s\<lparr>devices := fm_get_mut (fm_get_mut (devices s) e (pending_key_update (\<lambda>_. None))) e
      (ds_key_update (\<lambda>_. None))\<rparr>"
    have s1: "s' = prune_if_empty s1 e" "r = None" "aps_inv s1" "global_link_key s1 = global_link_key s"
      using assms(2) Some True inv
      by (auto simp: begin_join_def s1_def aps_inv_def fm.inv_get_mut Let_def)
    have get: "fm_get (devices s1) d = (if d = e then Some (entry\<lparr>ds_key := None, pending_key := None\<rparr>)
        else fm_get (devices s) d)" for d
      using inv Some by (simp add: s1_def fm.inv_get_mut fm.get_get_mut)
    show ?thesis using s1 get True Some inv prune_keeps [OF s1(3), of e]
      by (auto simp: device_key_def join_link_key_def incoming_frame_counter_def prune_if_empty_def
          aps_inv_def fm.get_remove fm.inv_remove split: option.splits if_splits)
  qed
qed

theorem begin_join_spec_witness:
  "let s = issue_device_key (\<lambda>k b. k) (set_provisional_key (aps_security_new [7] 3 None) 5 [1]) 5 [2];
       j = begin_join (snd (ret_val s)) 5
   in fst j = Some [1] \<and> join_link_key (snd j) 5 = [1] \<and>
      Option.bind (fm_get (devices (snd j)) 5) pending_key = None"
proof -
  let ?s = "device_write 5 (pending_key_update (\<lambda>_. Some [2]))
    (set_provisional_key (aps_security_new [7] 3 None) 5 [1])"
  have inv: "aps_inv ?s" by (simp add: set_provisional_key_def aps_inv_new)
  have "device_key ?s 5 = Some \<lparr>link_key = [1], attributes = Provisional\<rparr>"
    by (simp add: device_key_def set_provisional_key_def get_device_write aps_inv_new)
  with begin_join_spec [OF inv, of 5 "fst (begin_join ?s 5)" "snd (begin_join ?s 5)"] show ?thesis
    by (simp add: issue_device_key_def Let_def set_provisional_key_def aps_security_new_def)
qed

end
