(* ===== verification/Routing.thy ===== *)
theory Routing
  imports Flat_Map "HOL-Library.Product_Lexorder"
begin

text \<open>
  \<^verbatim>\<open>ziggurat-zigbee/src/nwk/routing.rs\<close>: the route table, the route discovery table and the route record
  table, with the processing of route requests and route replies. Log calls are left out; every other
  statement of the file is translated.
\<close>

section \<open>Data\<close>

type_synonym RouteRequestId = u8

definition UNKNOWN_NEXT_HOP :: Nwk where
  "UNKNOWN_NEXT_HOP = 0xFFFF"

definition BROADCAST_ALL_ROUTERS_AND_COORDINATOR :: Nwk where
  "BROADCAST_ALL_ROUTERS_AND_COORDINATOR = 0xFFFC"

datatype Status = Active | DiscoveryUnderway | DiscoveryFailed | Inactive

record RouteEntry =
  re_destination :: Nwk
  re_status :: Status
  no_route_cache :: bool
  many_to_one :: bool
  route_record_required :: bool
  re_expired :: bool
  next_hop_address :: Nwk
  path_cost :: u8
  total_usage_count :: u32
  recent_activity :: u8

definition route_entry_new :: "Nwk \<Rightarrow> Status \<Rightarrow> Nwk \<Rightarrow> RouteEntry" where
  "route_entry_new destination status next_hop =
     \<lparr>re_destination = destination, re_status = status, no_route_cache = False, many_to_one = False,
      route_record_required = False, re_expired = False, next_hop_address = next_hop, path_cost = - 1,
      total_usage_count = 0, recent_activity = 0\<rparr>"

definition consider_route :: "RouteEntry \<Rightarrow> Nwk \<Rightarrow> u8 \<Rightarrow> bool \<times> RouteEntry" where
  "consider_route e next_hop cost =
     (if re_status e = Active \<and> cost \<ge> path_cost e then (False, e)
      else
        (let previous_next_hop = (if re_status e = Active then Some (next_hop_address e) else None) in
         (previous_next_hop \<noteq> Some next_hop,
          e\<lparr>re_status := Active, next_hop_address := next_hop, path_cost := cost\<rparr>)))"

record DiscoveryEntry =
  route_request_id :: RouteRequestId
  source_address :: Nwk
  sender_address :: Nwk
  forward_cost :: u8
  residual_cost :: u8
  expiration_time :: instant
  destination_address :: Nwk

datatype Route = RouteNextHop Nwk | SourceRouted "Nwk list"

datatype RouteReplyDisposition = Drop | Established | Relay Nwk u8

record RouteUpdate =
  ru_destination :: Nwk
  ru_next_hop :: Nwk
  ru_path_cost :: u8

record RouteRequestOutcome =
  accepted :: bool
  rq_update :: "RouteUpdate option"

record RouteReplyOutcome =
  disposition :: RouteReplyDisposition
  rp_update :: "RouteUpdate option"

datatype NwkRouteRequestManyToOne =
    NotManyToOne
  | ManyToOneSenderSupportsRouteRecordTable
  | ManyToOneSenderDoesntSupportRouteRecordTable
  | ManyToOneReserved

record Routing =
  mtorr_route_errors :: u8
  mtorr_delivery_failures :: u8
  route_table :: "(Nwk, RouteEntry) flat_map"
  discovery_table :: "(Nwk \<times> RouteRequestId, DiscoveryEntry) flat_map"
  route_record_table :: "(Nwk, Nwk list) flat_map"
  request_sequence_number :: RouteRequestId

definition routing_default :: Routing where
  "routing_default =
     \<lparr>mtorr_route_errors = 0, mtorr_delivery_failures = 0, route_table = fm_new, discovery_table = fm_new,
      route_record_table = fm_new, request_sequence_number = 0\<rparr>"

section \<open>Route table operations\<close>

definition note_route_error :: "Routing \<Rightarrow> u8 \<Rightarrow> bool \<times> Routing" where
  "note_route_error r threshold =
     (let n = sat_add (mtorr_route_errors r) 1 in (n \<ge> threshold, r\<lparr>mtorr_route_errors := n\<rparr>))"

definition note_delivery_failure :: "Routing \<Rightarrow> u8 \<Rightarrow> bool \<times> Routing" where
  "note_delivery_failure r threshold =
     (let n = sat_add (mtorr_delivery_failures r) 1 in (n \<ge> threshold, r\<lparr>mtorr_delivery_failures := n\<rparr>))"

definition reset_mtorr_triggers :: "Routing \<Rightarrow> Routing" where
  "reset_mtorr_triggers r = r\<lparr>mtorr_route_errors := 0, mtorr_delivery_failures := 0\<rparr>"

definition route_status :: "Routing \<Rightarrow> Nwk \<Rightarrow> Status option" where
  "route_status r destination = map_option re_status (fm_get (route_table r) destination)"

definition next_hop :: "Routing \<Rightarrow> Nwk \<Rightarrow> Nwk option run" where
  "next_hop r destination =
     (case fm_get (route_table r) destination of
        Some e \<Rightarrow>
          if re_status e = Active then
            (if next_hop_address e = UNKNOWN_NEXT_HOP then Panic else Ret (Some (next_hop_address e)))
          else Ret None
      | None \<Rightarrow> Ret None)"

definition mark_discovery_failed :: "Routing \<Rightarrow> Nwk \<Rightarrow> Routing" where
  "mark_discovery_failed r destination =
     r\<lparr>route_table := fm_get_mut (route_table r) destination (re_status_update (\<lambda>_. DiscoveryFailed))\<rparr>"

definition record_usage :: "Routing \<Rightarrow> Nwk \<Rightarrow> Routing" where
  "record_usage r destination =
     r\<lparr>route_table := fm_get_mut (route_table r) destination
         (\<lambda>e. e\<lparr>recent_activity := sat_add (recent_activity e) 1,
                 total_usage_count := sat_add (total_usage_count e) 1\<rparr>)\<rparr>"

definition routing_decay_activity :: "Routing \<Rightarrow> Routing" where
  "routing_decay_activity r =
     r\<lparr>route_table := fm_values_mut
         (\<lambda>e. if re_status e = Active then e\<lparr>recent_activity := sat_sub (recent_activity e) 1\<rparr> else e)
         (route_table r)\<rparr>"

definition invalidate_via :: "Routing \<Rightarrow> Nwk \<Rightarrow> Routing" where
  "invalidate_via r hop =
     r\<lparr>route_table := fm_values_mut
         (\<lambda>e. if re_status e = Active \<and> next_hop_address e = hop then e\<lparr>re_status := Inactive\<rparr> else e)
         (route_table r)\<rparr>"

definition remove_route :: "Routing \<Rightarrow> Nwk \<Rightarrow> bool \<times> Routing" where
  "remove_route r destination =
     (case fm_remove (route_table r) destination of (old, t) \<Rightarrow> (old \<noteq> None, r\<lparr>route_table := t\<rparr>))"

definition restore_route :: "Routing \<Rightarrow> Nwk \<Rightarrow> Nwk \<Rightarrow> u8 \<Rightarrow> Routing" where
  "restore_route r destination hop cost =
     r\<lparr>route_table := snd (fm_insert (route_table r) destination
         ((route_entry_new destination Active hop)\<lparr>path_cost := cost\<rparr>))\<rparr>"

section \<open>Route records\<close>

text \<open>The loop \<^verbatim>\<open>for i in 1..relays.len()\<close>.\<close>

definition store_suffixes :: "Nwk list \<Rightarrow> (Nwk, Nwk list) flat_map \<Rightarrow> (Nwk, Nwk list) flat_map" where
  "store_suffixes relays t =
     fold (\<lambda>i t. snd (fm_insert t (relays ! (i - 1)) (drop i relays))) [1..<length relays] t"

definition store_route_record :: "Routing \<Rightarrow> Nwk \<Rightarrow> Nwk list \<Rightarrow> bool \<times> Routing" where
  "store_route_record r source relays =
     (let t1 = store_suffixes relays (route_record_table r);
          t2 = (if relays = [] then t1 else snd (fm_insert t1 (last relays) []));
          changed = (fm_get t2 source \<noteq> Some relays)
      in (changed, r\<lparr>route_record_table := snd (fm_insert t2 source relays)\<rparr>))"

definition remove_route_record :: "Routing \<Rightarrow> Nwk \<Rightarrow> bool \<times> Routing" where
  "remove_route_record r destination =
     (case fm_remove (route_record_table r) destination of
        (old, t) \<Rightarrow> (old \<noteq> None, r\<lparr>route_record_table := t\<rparr>))"

definition note_source_routed_frame :: "Routing \<Rightarrow> Nwk \<Rightarrow> Routing" where
  "note_source_routed_frame r concentrator =
     r\<lparr>route_table := fm_get_mut (route_table r) concentrator
         (\<lambda>e. if \<not> no_route_cache e then e\<lparr>route_record_required := False\<rparr> else e)\<rparr>"

definition route_to :: "Routing \<Rightarrow> Nwk \<Rightarrow> u8 \<Rightarrow> Route option run" where
  "route_to r destination max_source_route =
     (case fm_get (route_record_table r) destination of
        Some relays \<Rightarrow>
          if relays = [] then Ret (Some (RouteNextHop destination))
          else if length relays < unat max_source_route then Ret (Some (SourceRouted relays))
          else run_bind (next_hop r destination) (Ret \<circ> map_option RouteNextHop)
      | None \<Rightarrow> run_bind (next_hop r destination) (Ret \<circ> map_option RouteNextHop))"

section \<open>Discovery\<close>

text \<open>One iteration of the clean-up loop of \<^verbatim>\<open>expire_discoveries\<close>.\<close>

definition expire_destination :: "Nwk \<Rightarrow> Routing \<Rightarrow> Routing" where
  "expire_destination destination r =
     (if (\<exists>e \<in> set (fm_values (discovery_table r)). destination_address e = destination) then r
      else case fm_get (route_table r) destination of
          Some e \<Rightarrow>
            if re_status e = DiscoveryUnderway
            then r\<lparr>route_table := snd (fm_remove (route_table r) destination)\<rparr> else r
        | None \<Rightarrow> r)"

definition expire_discoveries :: "Routing \<Rightarrow> instant \<Rightarrow> Routing" where
  "expire_discoveries r now =
     (let expired_destinations =
            map destination_address (filter (\<lambda>e. expiration_time e \<le> now) (fm_values (discovery_table r)));
          r1 = r\<lparr>discovery_table := fm_retain (\<lambda>_ e. \<not> expiration_time e \<le> now) (discovery_table r)\<rparr>
      in fold expire_destination expired_destinations r1)"

definition begin_discovery :: "Routing \<Rightarrow> Nwk \<Rightarrow> Nwk \<Rightarrow> instant \<Rightarrow> duration \<Rightarrow> RouteRequestId \<times> Routing" where
  "begin_discovery r0 own_address destination now route_discovery_time =
     (let r = expire_discoveries r0 now;
          t = fm_entry_write (route_table r) destination
                (route_entry_new destination Inactive UNKNOWN_NEXT_HOP)
                (re_status_update (\<lambda>_. DiscoveryUnderway));
          request_id = request_sequence_number r + 1;
          d = fm_entry_write (discovery_table r) (own_address, request_id)
                \<lparr>route_request_id = request_id, source_address = own_address,
                 sender_address = UNKNOWN_NEXT_HOP, forward_cost = 0, residual_cost = - 1,
                 expiration_time = instant_add now route_discovery_time,
                 destination_address = destination\<rparr> id
      in (request_id, r\<lparr>route_table := t, discovery_table := d, request_sequence_number := request_id\<rparr>))"

definition begin_many_to_one_advertisement ::
  "Routing \<Rightarrow> Nwk \<Rightarrow> instant \<Rightarrow> duration \<Rightarrow> RouteRequestId \<times> Routing" where
  "begin_many_to_one_advertisement r0 own_address now route_discovery_time =
     (let request_id = request_sequence_number r0 + 1;
          r = expire_discoveries (r0\<lparr>request_sequence_number := request_id\<rparr>) now;
          d = snd (fm_insert (discovery_table r) (own_address, request_id)
                \<lparr>route_request_id = request_id, source_address = own_address,
                 sender_address = UNKNOWN_NEXT_HOP, forward_cost = 0, residual_cost = - 1,
                 expiration_time = instant_add now route_discovery_time,
                 destination_address = BROADCAST_ALL_ROUTERS_AND_COORDINATOR\<rparr>)
      in (request_id, r\<lparr>discovery_table := d\<rparr>))"

definition discovery_deadline :: "Routing \<Rightarrow> Nwk \<Rightarrow> instant \<Rightarrow> instant option" where
  "discovery_deadline r destination now =
     find_map (\<lambda>e. if expiration_time e > now \<and> destination_address e = destination
                    then Some (expiration_time e) else None) (fm_values (discovery_table r))"

section \<open>Route requests and replies\<close>

text \<open>
  \<^verbatim>\<open>entry(d).or_insert_with(|| TableEntry::new(d, Inactive, UNKNOWN))\<close> followed by \<^verbatim>\<open>consider_route\<close>
  and a further write; the Boolean is what \<^verbatim>\<open>consider_route\<close> returned.
\<close>

definition entry_or_new :: "Routing \<Rightarrow> Nwk \<Rightarrow> RouteEntry" where
  "entry_or_new r destination =
     (case fm_get (route_table r) destination of
        Some e \<Rightarrow> e | None \<Rightarrow> route_entry_new destination Inactive UNKNOWN_NEXT_HOP)"

definition consider_in_table ::
  "Routing \<Rightarrow> Nwk \<Rightarrow> Nwk \<Rightarrow> u8 \<Rightarrow> (RouteEntry \<Rightarrow> RouteEntry) \<Rightarrow> bool \<times> Routing" where
  "consider_in_table r destination hop cost f =
     (fst (consider_route (entry_or_new r destination) hop cost),
      r\<lparr>route_table := fm_entry_write (route_table r) destination
          (route_entry_new destination Inactive UNKNOWN_NEXT_HOP)
          (\<lambda>e. f (snd (consider_route e hop cost)))\<rparr>)"

definition mark_concentrator :: "NwkRouteRequestManyToOne \<Rightarrow> RouteEntry \<Rightarrow> RouteEntry" where
  "mark_concentrator mto e =
     (if mto \<noteq> NotManyToOne then
        e\<lparr>many_to_one := True, route_record_required := True,
          no_route_cache := (mto = ManyToOneSenderDoesntSupportRouteRecordTable)\<rparr>
      else e)"

definition accept_route_request ::
  "Routing \<Rightarrow> Nwk \<Rightarrow> RouteRequestId \<Rightarrow> Nwk \<Rightarrow> Nwk \<Rightarrow> u8 \<Rightarrow> NwkRouteRequestManyToOne \<Rightarrow> instant \<Rightarrow> duration \<Rightarrow>
     RouteRequestOutcome \<times> Routing" where
  "accept_route_request r0 originator request_id destination sender updated_path_cost mto now route_discovery_time =
     (let r = expire_discoveries r0 now;
          worse = (case fm_get (discovery_table r) (originator, request_id) of
                     Some e \<Rightarrow> updated_path_cost > forward_cost e | None \<Rightarrow> False)
      in if worse then (\<lparr>accepted = False, rq_update = None\<rparr>, r)
         else
           (let d = (case fm_get (discovery_table r) (originator, request_id) of
                       Some _ \<Rightarrow> fm_get_mut (discovery_table r) (originator, request_id)
                         (\<lambda>e. e\<lparr>forward_cost := updated_path_cost, sender_address := sender\<rparr>)
                     | None \<Rightarrow> snd (fm_insert (discovery_table r) (originator, request_id)
                         \<lparr>route_request_id = request_id, source_address = originator,
                          sender_address = sender, forward_cost = updated_path_cost, residual_cost = - 1,
                          expiration_time = instant_add now route_discovery_time,
                          destination_address = destination\<rparr>));
                (route_changed, r') =
                  consider_in_table (r\<lparr>discovery_table := d\<rparr>) originator sender updated_path_cost
                    (mark_concentrator mto)
            in (\<lparr>accepted = True,
                 rq_update = (if route_changed
                    then Some \<lparr>ru_destination = originator, ru_next_hop = sender, ru_path_cost = updated_path_cost\<rparr>
                    else None)\<rparr>, r')))"

definition note_relayed_discovery :: "Routing \<Rightarrow> Nwk \<Rightarrow> Routing" where
  "note_relayed_discovery r destination =
     r\<lparr>route_table :=
       fst (fm_or_insert_with
         (fm_and_modify (route_table r) (fm_entry (route_table r) destination)
           (\<lambda>e. if re_status e \<noteq> Active then e\<lparr>re_status := DiscoveryUnderway\<rparr> else e))
         (fm_entry (route_table r) destination)
         (route_entry_new destination DiscoveryUnderway UNKNOWN_NEXT_HOP))\<rparr>"

definition set_reply_route :: "Nwk \<Rightarrow> u8 \<Rightarrow> RouteEntry \<Rightarrow> RouteEntry" where
  "set_reply_route sender cost e = e\<lparr>re_status := Active, next_hop_address := sender, path_cost := cost\<rparr>"

definition accept_route_reply ::
  "Routing \<Rightarrow> Nwk \<Rightarrow> Nwk \<Rightarrow> RouteRequestId \<Rightarrow> Nwk \<Rightarrow> Nwk \<Rightarrow> u8 \<Rightarrow> RouteReplyOutcome \<times> Routing" where
  "accept_route_reply r own_address originator request_id responder sender updated_path_cost =
     (let drop = (\<lparr>disposition = Drop, rp_update = None\<rparr>, r) in
      case fm_get (discovery_table r) (originator, request_id) of
        None \<Rightarrow> drop
      | Some de \<Rightarrow>
          (case fm_get (route_table r) responder of
             None \<Rightarrow> drop
           | Some re \<Rightarrow>
               (let written = r\<lparr>
                      route_table := fm_get_mut (route_table r) responder (set_reply_route sender updated_path_cost),
                      discovery_table := fm_get_mut (discovery_table r) (originator, request_id)
                        (residual_cost_update (\<lambda>_. updated_path_cost))\<rparr>
                in if originator = own_address then
                     (if re_status re = Active \<and> updated_path_cost \<ge> residual_cost de then drop
                      else
                        (let previous_next_hop = (if re_status re = Active then Some (next_hop_address re) else None)
                         in (\<lparr>disposition = Established,
                              rp_update = (if previous_next_hop \<noteq> Some sender
                                then Some \<lparr>ru_destination = responder, ru_next_hop = sender,
                                           ru_path_cost = updated_path_cost\<rparr>
                                else None)\<rparr>, written)))
                   else if updated_path_cost \<ge> residual_cost de then drop
                   else
                     (let hop = sender_address de; cost = forward_cost de;
                          (changed, r') = consider_in_table written originator hop cost id
                      in (\<lparr>disposition = Relay hop updated_path_cost,
                           rp_update = (if changed
                             then Some \<lparr>ru_destination = originator, ru_next_hop = hop, ru_path_cost = cost\<rparr>
                             else None)\<rparr>, r')))))"

end
