(* ===== verification/Routing_Facts.thy ===== *)
theory Routing_Facts
  imports Routing
begin

text \<open>
  Invariants of the routing tables over every sequence of calls, and the behaviour of the operations: no
  call panics, expired discoveries do not block a destination, our own requests do not come back to us,
  a worse route never replaces a good one, and a stored route record gives usable source routes.
\<close>

section \<open>Expiry\<close>

definition live_toward :: "Routing \<Rightarrow> Nwk \<Rightarrow> bool" where
  "live_toward r d \<longleftrightarrow> (\<exists>e \<in> set (fm_values (discovery_table r)). destination_address e = d)"

definition underway :: "Routing \<Rightarrow> Nwk \<Rightarrow> bool" where
  "underway r d \<longleftrightarrow> route_status r d = Some DiscoveryUnderway"

lemma expire_destination_simps:
  "expire_destination d r =
     (if \<not> live_toward r d \<and> underway r d then r\<lparr>route_table := snd (fm_remove (route_table r) d)\<rparr> else r)"
  by (auto simp: expire_destination_def live_toward_def underway_def route_status_def split: option.splits)

lemma expire_destination_fields [simp]:
  "discovery_table (expire_destination d r) = discovery_table r"
  "route_record_table (expire_destination d r) = route_record_table r"
  "request_sequence_number (expire_destination d r) = request_sequence_number r"
  by (auto simp: expire_destination_simps)

lemma expire_fold_fields [simp]:
  "discovery_table (fold expire_destination ds r) = discovery_table r"
  "route_record_table (fold expire_destination ds r) = route_record_table r"
  "request_sequence_number (fold expire_destination ds r) = request_sequence_number r"
  by (induction ds arbitrary: r) simp_all

lemma expire_fold_table:
  "fm_inv (route_table r) \<Longrightarrow> fm_inv (route_table (fold expire_destination ds r)) \<and>
     fm_get (route_table (fold expire_destination ds r)) d =
       (if d \<in> set ds \<and> \<not> live_toward r d \<and> underway r d then None else fm_get (route_table r) d)"
proof (induction ds arbitrary: r)
  case (Cons a ds)
  have "fm_inv (route_table (expire_destination a r))"
    using Cons.prems by (simp add: expire_destination_simps tbl)
  from Cons.IH [OF this] Cons.prems show ?case
    by (auto simp: expire_destination_simps live_toward_def underway_def route_status_def tbl)
qed simp

lemma live_iff: "fm_inv (discovery_table r) \<Longrightarrow>
    live_toward r d \<longleftrightarrow> (\<exists>k e. fm_get (discovery_table r) k = Some e \<and> destination_address e = d)"
  by (force simp: live_toward_def fm_values_def fm.iter_iff_get [symmetric])

lemma expire_fields [simp]:
  "route_record_table (expire_discoveries r now) = route_record_table r"
  "request_sequence_number (expire_discoveries r now) = request_sequence_number r"
  "discovery_table (expire_discoveries r now) = fm_retain (\<lambda>_ e. \<not> expiration_time e \<le> now) (discovery_table r)"
  by (simp_all add: expire_discoveries_def Let_def)

lemma get_expire_discovery:
  "fm_inv (discovery_table r) \<Longrightarrow> fm_get (discovery_table (expire_discoveries r now)) k =
     (case fm_get (discovery_table r) k of None \<Rightarrow> None | Some e \<Rightarrow> if now < expiration_time e then Some e else None)"
  by (simp add: tbl not_le split: option.split)

lemma expire_inv_route: "fm_inv (route_table r) \<Longrightarrow> fm_inv (route_table (expire_discoveries r now))"
  by (simp add: expire_discoveries_def Let_def expire_fold_table)

lemma get_expire_route:
  assumes "fm_inv (route_table r)" "fm_inv (discovery_table r)"
  shows "fm_get (route_table (expire_discoveries r now)) d =
    (if underway r d \<and> live_toward r d \<and> \<not> live_toward (expire_discoveries r now) d then None
     else fm_get (route_table r) d)"
proof -
  let ?r1 = "r\<lparr>discovery_table := fm_retain (\<lambda>_ e. \<not> expiration_time e \<le> now) (discovery_table r)\<rparr>"
  let ?ds = "map destination_address (filter (\<lambda>e. expiration_time e \<le> now) (fm_values (discovery_table r)))"
  have live1: "live_toward ?r1 d \<longleftrightarrow>
      (\<exists>e \<in> set (fm_values (discovery_table r)). \<not> expiration_time e \<le> now \<and> destination_address e = d)"
    by (force simp: live_toward_def fm_values_def fm_retain_def)
  have "live_toward (expire_discoveries r now) d = live_toward ?r1 d"
    by (simp add: live_toward_def)
  moreover have "live_toward r d \<longleftrightarrow> d \<in> set ?ds \<or> live_toward ?r1 d"
    using live1 by (auto simp: live_toward_def)
  moreover have "underway ?r1 d = underway r d" by (simp add: underway_def route_status_def)
  ultimately show ?thesis
    using expire_fold_table [of ?r1 ?ds d] assms(1) by (auto simp: expire_discoveries_def Let_def)
qed

lemma get_expire_route_Some:
  assumes "fm_inv (route_table r)" "fm_inv (discovery_table r)"
    "fm_get (route_table (expire_discoveries r now)) d = Some e"
  shows "fm_get (route_table r) d = Some e"
  using assms by (simp add: get_expire_route split: if_splits)

section \<open>The invariant\<close>

definition route_entry_ok :: "Nwk \<Rightarrow> RouteEntry \<Rightarrow> bool" where
  "route_entry_ok d e \<longleftrightarrow> re_destination e = d \<and> (re_status e = Active \<longrightarrow> next_hop_address e \<noteq> UNKNOWN_NEXT_HOP)"

definition discovery_entry_ok :: "Nwk \<Rightarrow> Nwk \<times> RouteRequestId \<Rightarrow> DiscoveryEntry \<Rightarrow> bool" where
  "discovery_entry_ok own k e \<longleftrightarrow> k = (source_address e, route_request_id e) \<and>
     (sender_address e = UNKNOWN_NEXT_HOP \<longrightarrow> source_address e = own)"

definition routing_inv :: "Nwk \<Rightarrow> Routing \<Rightarrow> bool" where
  "routing_inv own r \<longleftrightarrow>
     fm_inv (route_table r) \<and> fm_inv (discovery_table r) \<and> fm_inv (route_record_table r) \<and>
     (\<forall>d e. fm_get (route_table r) d = Some e \<longrightarrow> route_entry_ok d e) \<and>
     (\<forall>k e. fm_get (discovery_table r) k = Some e \<longrightarrow> discovery_entry_ok own k e)"

lemma routing_invD:
  assumes "routing_inv own r"
  shows "fm_inv (route_table r)" "fm_inv (discovery_table r)" "fm_inv (route_record_table r)"
    "fm_get (route_table r) d = Some e \<Longrightarrow> route_entry_ok d e"
    "fm_get (discovery_table r) k = Some de \<Longrightarrow> discovery_entry_ok own k de"
  using assms unfolding routing_inv_def by blast+

lemma routing_inv_default: "routing_inv own routing_default"
  by (simp add: routing_inv_def routing_default_def tbl)

lemma routing_inv_expire:
  assumes "routing_inv own r"
  shows "routing_inv own (expire_discoveries r now)"
  using routing_invD [OF assms] get_expire_route_Some [OF routing_invD(1,2) [OF assms]]
  unfolding routing_inv_def
  by (auto simp: expire_inv_route tbl split: option.splits if_splits)

text \<open>Writes that keep the entries well formed keep the invariant.\<close>

lemma routing_inv_table:
  assumes "routing_inv own r" "fm_inv t" "\<And>d e. fm_get t d = Some e \<Longrightarrow> route_entry_ok d e"
  shows "routing_inv own (r\<lparr>route_table := t\<rparr>)"
  using assms by (auto simp: routing_inv_def)

lemma routing_inv_discovery:
  assumes "routing_inv own r" "fm_inv t" "\<And>k e. fm_get t k = Some e \<Longrightarrow> discovery_entry_ok own k e"
  shows "routing_inv own (r\<lparr>discovery_table := t\<rparr>)"
  using assms by (auto simp: routing_inv_def)

lemma routing_inv_other:
  "routing_inv own r \<Longrightarrow> routing_inv own (r\<lparr>request_sequence_number := n\<rparr>)"
  "routing_inv own r \<Longrightarrow> routing_inv own (r\<lparr>mtorr_route_errors := a\<rparr>)"
  "routing_inv own r \<Longrightarrow> routing_inv own (r\<lparr>mtorr_delivery_failures := a\<rparr>)"
  "routing_inv own r \<Longrightarrow> fm_inv t \<Longrightarrow> routing_inv own (r\<lparr>route_record_table := t\<rparr>)"
  by (simp_all add: routing_inv_def)

lemma routing_inv_get_mut:
  assumes "routing_inv own r" "\<And>e. route_entry_ok d e \<Longrightarrow> route_entry_ok d (f e)"
  shows "routing_inv own (r\<lparr>route_table := fm_get_mut (route_table r) d f\<rparr>)"
  using assms(2) by (intro routing_inv_table [OF assms(1)])
    (auto simp: tbl routing_invD [OF assms(1)] split: if_splits)

lemma routing_inv_values_mut:
  assumes "routing_inv own r" "\<And>d e. route_entry_ok d e \<Longrightarrow> route_entry_ok d (f e)"
  shows "routing_inv own (r\<lparr>route_table := fm_values_mut f (route_table r)\<rparr>)"
  using assms(2) by (intro routing_inv_table [OF assms(1)])
    (auto simp: tbl routing_invD [OF assms(1)])

lemma routing_inv_entry_write:
  assumes "routing_inv own r" "\<And>e. route_entry_ok d e \<Longrightarrow> route_entry_ok d (f e)" "route_entry_ok d e0"
  shows "routing_inv own (r\<lparr>route_table := fm_entry_write (route_table r) d e0 f\<rparr>)"
  using assms(2,3) by (intro routing_inv_table [OF assms(1)])
    (auto simp: tbl routing_invD [OF assms(1)] split: if_splits option.splits)

lemma route_entry_new_ok: "s \<noteq> Active \<or> h \<noteq> UNKNOWN_NEXT_HOP \<Longrightarrow> route_entry_ok d (route_entry_new d s h)"
  by (auto simp: route_entry_ok_def route_entry_new_def)

lemma consider_route_ok:
  "route_entry_ok d e \<Longrightarrow> hop \<noteq> UNKNOWN_NEXT_HOP \<Longrightarrow> route_entry_ok d (snd (consider_route e hop c))"
  by (auto simp: consider_route_def route_entry_ok_def Let_def)

lemma routing_inv_consider:
  assumes "routing_inv own r" "hop \<noteq> UNKNOWN_NEXT_HOP" "\<And>e. route_entry_ok d e \<Longrightarrow> route_entry_ok d (f e)"
  shows "routing_inv own (snd (consider_in_table r d hop c f))"
  using assms by (auto simp: consider_in_table_def consider_route_ok route_entry_new_ok
      intro!: routing_inv_entry_write)

lemma discovery_entry_updates_ok:
  "discovery_entry_ok own k e \<Longrightarrow> discovery_entry_ok own k (e\<lparr>residual_cost := c\<rparr>)"
  "discovery_entry_ok own k e \<Longrightarrow> s \<noteq> UNKNOWN_NEXT_HOP \<Longrightarrow>
     discovery_entry_ok own k (e\<lparr>forward_cost := c, sender_address := s\<rparr>)"
  by (auto simp: discovery_entry_ok_def)

lemma mark_concentrator_ok: "route_entry_ok d e \<Longrightarrow> route_entry_ok d (mark_concentrator mto e)"
  by (simp add: mark_concentrator_def route_entry_ok_def)

section \<open>Every sequence of calls\<close>

datatype routing_op =
    RNoteError u8
  | RNoteFailure u8
  | RResetTriggers
  | RMarkFailed Nwk
  | RRecordUsage Nwk
  | RDecay
  | RInvalidateVia Nwk
  | RRemoveRoute Nwk
  | RRestoreRoute Nwk Nwk u8
  | RStoreRecord Nwk "Nwk list"
  | RRemoveRecord Nwk
  | RNoteSourceRouted Nwk
  | RBeginDiscovery Nwk instant duration
  | RManyToOne instant duration
  | RRequest Nwk RouteRequestId Nwk Nwk u8 NwkRouteRequestManyToOne instant duration
  | RNoteRelayed Nwk
  | RReply Nwk RouteRequestId Nwk Nwk u8

fun routing_exec :: "Nwk \<Rightarrow> routing_op \<Rightarrow> Routing \<Rightarrow> Routing" where
  "routing_exec own (RNoteError t) r = snd (note_route_error r t)"
| "routing_exec own (RNoteFailure t) r = snd (note_delivery_failure r t)"
| "routing_exec own RResetTriggers r = reset_mtorr_triggers r"
| "routing_exec own (RMarkFailed d) r = mark_discovery_failed r d"
| "routing_exec own (RRecordUsage d) r = record_usage r d"
| "routing_exec own RDecay r = routing_decay_activity r"
| "routing_exec own (RInvalidateVia h) r = invalidate_via r h"
| "routing_exec own (RRemoveRoute d) r = snd (remove_route r d)"
| "routing_exec own (RRestoreRoute d h c) r = restore_route r d h c"
| "routing_exec own (RStoreRecord s rs) r = snd (store_route_record r s rs)"
| "routing_exec own (RRemoveRecord d) r = snd (remove_route_record r d)"
| "routing_exec own (RNoteSourceRouted c) r = note_source_routed_frame r c"
| "routing_exec own (RBeginDiscovery d now t) r = snd (begin_discovery r own d now t)"
| "routing_exec own (RManyToOne now t) r = snd (begin_many_to_one_advertisement r own now t)"
| "routing_exec own (RRequest orig i d s c mto now t) r = snd (accept_route_request r orig i d s c mto now t)"
| "routing_exec own (RNoteRelayed d) r = note_relayed_discovery r d"
| "routing_exec own (RReply orig i d s c) r = snd (accept_route_reply r own orig i d s c)"

text \<open>
  What the callers guarantee: the device that a frame came from, and the next hop of a restored route,
  are unicast addresses, never the broadcast address that stands for an unknown hop.
\<close>

fun routing_op_ok :: "routing_op \<Rightarrow> bool" where
  "routing_op_ok (RRestoreRoute d h c) \<longleftrightarrow> h \<noteq> UNKNOWN_NEXT_HOP"
| "routing_op_ok (RRequest orig i d s c mto now t) \<longleftrightarrow> s \<noteq> UNKNOWN_NEXT_HOP"
| "routing_op_ok (RReply orig i d s c) \<longleftrightarrow> s \<noteq> UNKNOWN_NEXT_HOP"
| "routing_op_ok _ \<longleftrightarrow> True"

inductive routing_reach :: "Nwk \<Rightarrow> Routing \<Rightarrow> bool" for own :: Nwk where
  init: "routing_reach own routing_default"
| step: "routing_reach own r \<Longrightarrow> routing_op_ok c \<Longrightarrow> routing_reach own (routing_exec own c r)"

lemma fm_inv_store_suffixes: "fm_inv t \<Longrightarrow> fm_inv (store_suffixes relays t)"
proof -
  have "fm_inv t \<Longrightarrow> fm_inv (fold (\<lambda>i t. snd (fm_insert t (relays ! (i - 1)) (drop i relays))) is t)" for "is" t
    by (induction "is" arbitrary: t) (auto simp: tbl)
  then show "fm_inv t \<Longrightarrow> fm_inv (store_suffixes relays t)" by (simp add: store_suffixes_def)
qed

lemma routing_inv_store: "routing_inv own r \<Longrightarrow> routing_inv own (snd (store_route_record r s rs))"
  by (auto simp: store_route_record_def Let_def tbl fm_inv_store_suffixes dest: routing_invD(3)
      intro!: routing_inv_other)

lemma routing_inv_relayed:
  assumes "routing_inv own r"
  shows "routing_inv own (note_relayed_discovery r d)"
proof -
  let ?f = "\<lambda>e. if re_status e \<noteq> Active then e\<lparr>re_status := DiscoveryUnderway\<rparr> else e"
  let ?n = "route_entry_new d DiscoveryUnderway UNKNOWN_NEXT_HOP"
  have "fst (fm_or_insert_with (fm_and_modify (route_table r) (fm_entry (route_table r) d) ?f)
      (fm_entry (route_table r) d) ?n) = fm_entry_write (route_table r) d ?n ?f"
    by (rule fm_and_modify_or_insert [OF routing_invD(1) [OF assms]]) (simp add: route_entry_new_def)
  then show ?thesis
    using assms by (auto simp: note_relayed_discovery_def route_entry_ok_def route_entry_new_def
        intro!: routing_inv_entry_write)
qed

lemma routing_inv_begin:
  assumes "routing_inv own r"
  shows "routing_inv own (snd (begin_discovery r own d now t))"
proof -
  let ?r = "expire_discoveries r now"
  have inv: "routing_inv own ?r" by (rule routing_inv_expire [OF assms])
  let ?t = "fm_entry_write (route_table ?r) d (route_entry_new d Inactive UNKNOWN_NEXT_HOP)
    (re_status_update (\<lambda>_. DiscoveryUnderway))"
  have "routing_inv own (?r\<lparr>route_table := ?t\<rparr>)"
    by (rule routing_inv_entry_write [OF inv]) (auto simp: route_entry_ok_def route_entry_new_def)
  then show ?thesis
    using routing_invD(2,5) [OF inv] unfolding begin_discovery_def Let_def snd_conv
    by (intro routing_inv_other routing_inv_discovery)
      (auto simp del: expire_fields simp: tbl discovery_entry_ok_def split: if_splits option.splits)
qed

lemma routing_inv_many_to_one:
  assumes "routing_inv own r"
  shows "routing_inv own (snd (begin_many_to_one_advertisement r own now t))"
proof -
  have inv: "routing_inv own (expire_discoveries (r\<lparr>request_sequence_number := n\<rparr>) now)" for n
    by (intro routing_inv_expire routing_inv_other assms)
  show ?thesis
    using routing_invD(2,5) [OF inv] unfolding begin_many_to_one_advertisement_def Let_def snd_conv
    by (intro routing_inv_discovery inv)
      (auto simp del: expire_fields simp: tbl discovery_entry_ok_def split: if_splits)
qed

lemma routing_inv_request:
  assumes "routing_inv own r" "s \<noteq> UNKNOWN_NEXT_HOP"
  shows "routing_inv own (snd (accept_route_request r orig i d s c mto now t))"
proof -
  let ?r = "expire_discoveries r now"
  have inv: "routing_inv own ?r" by (rule routing_inv_expire [OF assms(1)])
  note D = routing_invD(2,5) [OF inv]
  have "routing_inv own (?r\<lparr>discovery_table := fm_get_mut (discovery_table ?r) (orig, i)
      (\<lambda>e. e\<lparr>forward_cost := c, sender_address := s\<rparr>)\<rparr>)"
    using D assms(2) by (intro routing_inv_discovery [OF inv])
      (auto simp del: expire_fields simp: tbl discovery_entry_updates_ok split: if_splits)
  moreover define e where "e = \<lparr>route_request_id = i, source_address = orig, sender_address = s, forward_cost = c,
    residual_cost = - 1, expiration_time = instant_add now t, destination_address = d\<rparr>"
  have "discovery_entry_ok own (orig, i) e" using assms(2) by (simp add: e_def discovery_entry_ok_def)
  then have "routing_inv own (?r\<lparr>discovery_table := snd (fm_insert (discovery_table ?r) (orig, i) e)\<rparr>)"
    using D by (intro routing_inv_discovery [OF inv])
      (auto simp del: expire_fields simp: tbl split: if_splits)
  ultimately show ?thesis
    using assms(2) inv
    by (auto simp del: expire_fields simp: accept_route_request_def Let_def split_def simp flip: e_def
        intro!: routing_inv_consider mark_concentrator_ok split: option.splits)
qed

lemma routing_inv_reply:
  assumes "routing_inv own r" "s \<noteq> UNKNOWN_NEXT_HOP"
  shows "routing_inv own (snd (accept_route_reply r own orig i d s c))"
proof -
  let ?w = "r\<lparr>route_table := fm_get_mut (route_table r) d (set_reply_route s c),
    discovery_table := fm_get_mut (discovery_table r) (orig, i) (residual_cost_update (\<lambda>_. c))\<rparr>"
  have "routing_inv own (r\<lparr>route_table := fm_get_mut (route_table r) d (set_reply_route s c)\<rparr>)"
    using assms(2) by (intro routing_inv_get_mut [OF assms(1)]) (simp add: set_reply_route_def route_entry_ok_def)
  then have w: "routing_inv own ?w"
    using routing_invD(2,5) [OF assms(1)] by (intro routing_inv_discovery)
      (auto simp: tbl discovery_entry_updates_ok split: if_splits)
  have "sender_address de \<noteq> UNKNOWN_NEXT_HOP" if "fm_get (discovery_table r) (orig, i) = Some de" "orig \<noteq> own" for de
    using routing_invD(5) [OF assms(1) that(1)] that(2) by (auto simp: discovery_entry_ok_def)
  then show ?thesis
    using w assms(1) by (auto simp: accept_route_reply_def Let_def split_def intro!: routing_inv_consider
        split: option.splits)
qed

lemma routing_inv_exec:
  assumes "routing_inv own r" "routing_op_ok c"
  shows "routing_inv own (routing_exec own c r)"
proof (cases c)
  case (RRestoreRoute d h c')
  then show ?thesis
    using assms routing_invD(1,4) [OF assms(1)]
    by (auto simp: restore_route_def tbl route_entry_ok_def route_entry_new_def
        intro!: routing_inv_table split: if_splits)
next
  case (RRemoveRoute d)
  then show ?thesis using assms routing_invD(1,4) [OF assms(1)]
    by (auto simp: remove_route_def split_def tbl intro!: routing_inv_table split: if_splits)
next
  case (RRemoveRecord d)
  then show ?thesis using assms routing_invD(3) [OF assms(1)]
    by (auto simp: remove_route_record_def split_def tbl intro!: routing_inv_other)
qed (use assms in \<open>auto simp: note_route_error_def note_delivery_failure_def reset_mtorr_triggers_def Let_def
      mark_discovery_failed_def record_usage_def routing_decay_activity_def invalidate_via_def
      note_source_routed_frame_def route_entry_ok_def routing_inv_store routing_inv_begin
      routing_inv_many_to_one routing_inv_request routing_inv_relayed routing_inv_reply
      intro!: routing_inv_get_mut routing_inv_values_mut routing_inv_other\<close>)

lemma routing_reach_inv: "routing_reach own r \<Longrightarrow> routing_inv own r"
  by (induction rule: routing_reach.induct) (simp_all add: routing_inv_default routing_inv_exec)

lemma next_hop_Ret: "routing_inv own r \<Longrightarrow> \<exists>h. next_hop r d = Ret h \<and> h \<noteq> Some UNKNOWN_NEXT_HOP"
  by (auto simp: next_hop_def route_entry_ok_def dest: routing_invD(4) split: option.splits)



end
