(* ===== verification/Routing_Props.thy ===== *)
theory Routing_Props
  imports Routing_Facts
begin

text \<open>
  Properties of route discovery: discoveries that never completed do not block a destination, our own
  requests are not accepted when they come back, the suitability rule, and route records.
\<close>

section \<open>Discoveries that never completed\<close>

definition backed :: "Routing \<Rightarrow> bool" where
  "backed r \<longleftrightarrow> (\<forall>d. underway r d \<longrightarrow> live_toward r d)"

text \<open>
  The request identifier is eight bits wide. The bookkeeping below relies on an identifier not being
  reused while a discovery that carries it is still live, and on a relayed discovery being noted
  for a destination whose request was accepted.
\<close>

fun routing_op_fresh :: "Nwk \<Rightarrow> routing_op \<Rightarrow> Routing \<Rightarrow> bool" where
  "routing_op_fresh own (RBeginDiscovery d now t) r \<longleftrightarrow>
     fm_get (discovery_table (expire_discoveries r now)) (own, request_sequence_number r + 1) = None"
| "routing_op_fresh own (RManyToOne now t) r \<longleftrightarrow>
     fm_get (discovery_table (expire_discoveries r now)) (own, request_sequence_number r + 1) = None"
| "routing_op_fresh own (RNoteRelayed d) r \<longleftrightarrow> live_toward r d"
| "routing_op_fresh own _ r \<longleftrightarrow> True"

inductive routing_reach_fresh :: "Nwk \<Rightarrow> Routing \<Rightarrow> bool" for own :: Nwk where
  init: "routing_reach_fresh own routing_default"
| step: "routing_reach_fresh own r \<Longrightarrow> routing_op_ok c \<Longrightarrow> routing_op_fresh own c r \<Longrightarrow>
     routing_reach_fresh own (routing_exec own c r)"

lemma backedI:
  assumes "backed r" "\<And>d. underway r' d \<Longrightarrow> underway r d" "\<And>d. live_toward r d \<Longrightarrow> live_toward r' d"
  shows "backed r'"
  using assms by (auto simp: backed_def)

lemma underway_iff: "underway r d \<longleftrightarrow> (\<exists>e. fm_get (route_table r) d = Some e \<and> re_status e = DiscoveryUnderway)"
  by (auto simp: underway_def route_status_def)

lemma underway_fields [simp]:
  "underway (r\<lparr>discovery_table := dt\<rparr>) d = underway r d"
  "underway (r\<lparr>route_record_table := rt\<rparr>) d = underway r d"
  "underway (r\<lparr>request_sequence_number := n\<rparr>) d = underway r d"
  by (simp_all add: underway_def route_status_def)

lemma live_fields [simp]:
  "live_toward (r\<lparr>route_table := t\<rparr>) d = live_toward r d"
  "live_toward (r\<lparr>route_record_table := rt\<rparr>) d = live_toward r d"
  "live_toward (r\<lparr>request_sequence_number := n\<rparr>) d = live_toward r d"
  by (simp_all add: live_toward_def)

lemma backed_expire:
  assumes "routing_inv own r" "backed r"
  shows "backed (expire_discoveries r now)"
  unfolding backed_def
proof (intro allI impI)
  fix d assume u: "underway (expire_discoveries r now) d"
  then have "underway r d"
    using get_expire_route_Some [OF routing_invD(1,2) [OF assms(1)]] by (auto simp: underway_iff)
  with assms(2) have "live_toward r d" by (simp add: backed_def)
  with u \<open>underway r d\<close> show "live_toward (expire_discoveries r now) d"
    using get_expire_route [OF routing_invD(1,2) [OF assms(1)]] by (auto simp: underway_iff split: if_splits)
qed

text \<open>A write to one route entry that does not leave it underway keeps everything backed.\<close>

lemma underway_get_mut:
  assumes "underway (r\<lparr>route_table := fm_get_mut (route_table r) d f\<rparr>) d'" "fm_inv (route_table r)"
    "\<And>e. re_status (f e) = DiscoveryUnderway \<Longrightarrow> re_status e = DiscoveryUnderway"
  shows "underway r d'"
  using assms by (auto simp: underway_iff tbl split: if_splits)

lemma underway_values_mut:
  assumes "underway (r\<lparr>route_table := fm_values_mut f (route_table r)\<rparr>) d'" "fm_inv (route_table r)"
    "\<And>e. re_status (f e) = DiscoveryUnderway \<Longrightarrow> re_status e = DiscoveryUnderway"
  shows "underway r d'"
  using assms by (auto simp: underway_iff tbl)

lemma consider_route_Active:
  "re_status e \<noteq> Active \<or> cost < path_cost e \<or> True \<Longrightarrow> re_status (snd (consider_route e hop cost)) = Active"
  by (auto simp: consider_route_def Let_def)

lemma underway_consider:
  assumes "underway (snd (consider_in_table r d hop c f)) d'" "fm_inv (route_table r)"
    "\<And>e. re_status (f e) = re_status e"
  shows "underway r d'"
  using assms consider_route_Active
  by (auto simp: underway_iff consider_in_table_def tbl split: if_splits)

lemma live_consider: "live_toward (snd (consider_in_table r d hop c f)) d' = live_toward r d'"
  by (simp add: consider_in_table_def live_toward_def)

lemma live_toward_I:
  "fm_inv (discovery_table r) \<Longrightarrow> fm_get (discovery_table r) k = Some e \<Longrightarrow> destination_address e = d \<Longrightarrow>
     live_toward r d"
  unfolding live_iff by blast

lemma live_toward_E:
  assumes "fm_inv (discovery_table r)" "live_toward r d"
  obtains k e where "fm_get (discovery_table r) k = Some e" "destination_address e = d"
  using assms unfolding live_iff [OF assms(1)] by blast

lemma live_get_mut:
  assumes "fm_inv (discovery_table r)" "\<And>e. destination_address (f e) = destination_address e"
    "live_toward r d"
  shows "live_toward (r\<lparr>discovery_table := fm_get_mut (discovery_table r) k f\<rparr>) d"
  using assms(1,3)
proof (rule live_toward_E)
  fix k' e assume "fm_get (discovery_table r) k' = Some e" "destination_address e = d"
  then show ?thesis
    using assms(1,2) by (intro live_toward_I [of _ k' "if k' = k then f e else e"]) (auto simp: tbl)
qed

lemma live_insert:
  assumes "fm_inv (discovery_table r)" "fm_get (discovery_table r) k = None"
    "live_toward r d \<or> destination_address e = d"
  shows "live_toward (r\<lparr>discovery_table := snd (fm_insert (discovery_table r) k e)\<rparr>) d"
  using assms(3)
proof
  assume "live_toward r d"
  then show ?thesis
  proof (rule live_toward_E [OF assms(1)])
    fix k' e' assume "fm_get (discovery_table r) k' = Some e'" "destination_address e' = d"
    then show ?thesis using assms(1,2) by (intro live_toward_I [of _ k' e']) (auto simp: tbl)
  qed
next
  assume "destination_address e = d"
  then show ?thesis using assms(1) by (intro live_toward_I [of _ k e]) (auto simp: tbl)
qed

lemma fm_entry_write_vacant:
  assumes "fm_inv m" "fm_get m k = None" "f d = d"
  shows "fm_entry_write m k d f = snd (fm_insert m k d)"
  using assms fm.iter_eq_iff_get_eq [of "fm_entry_write m k d f" "snd (fm_insert m k d)"]
  by (simp add: tbl fun_eq_iff)

lemma live_same: "discovery_table r' = discovery_table r \<Longrightarrow> live_toward r' d = live_toward r d"
  by (simp add: live_toward_def)

lemma underway_same: "route_table r' = route_table r \<Longrightarrow> underway r' d = underway r d"
  by (simp add: underway_def route_status_def)

lemma backed_begin:
  assumes inv: "routing_inv own r" and "backed r" and
    fresh: "fm_get (discovery_table (expire_discoveries r now)) (own, request_sequence_number r + 1) = None"
  shows "backed (snd (begin_discovery r own d now t))"
proof -
  let ?r = "expire_discoveries r now"
  define e where "e = \<lparr>route_request_id = request_sequence_number r + 1, source_address = own,
    sender_address = UNKNOWN_NEXT_HOP, forward_cost = 0, residual_cost = - 1,
    expiration_time = instant_add now t, destination_address = d\<rparr>"
  define r' where "r' = ?r\<lparr>discovery_table := snd (fm_insert (discovery_table ?r) (own, request_sequence_number r + 1) e)\<rparr>"
  have D: "fm_inv (route_table ?r)" "fm_inv (discovery_table ?r)"
    using routing_invD [OF routing_inv_expire [OF inv]] by blast+
  have res: "snd (begin_discovery r own d now t) = r'\<lparr>route_table := fm_entry_write (route_table ?r) d
      (route_entry_new d Inactive UNKNOWN_NEXT_HOP) (re_status_update (\<lambda>_. DiscoveryUnderway)),
      request_sequence_number := request_sequence_number r + 1\<rparr>"
    using fm_entry_write_vacant [OF D(2) fresh, of id e]
    by (simp add: begin_discovery_def Let_def r'_def e_def)
  have live: "live_toward r' x" if "live_toward ?r x \<or> x = d" for x
    unfolding r'_def using that by (intro live_insert D(2) fresh) (auto simp: e_def)
  have "underway ?r x \<or> x = d" if "underway (snd (begin_discovery r own d now t)) x" for x
    using that D(1) unfolding res underway_iff by (auto simp: tbl split: if_splits)
  moreover have "live_toward (snd (begin_discovery r own d now t)) x = live_toward r' x" for x
    unfolding res by (simp add: live_toward_def)
  ultimately show ?thesis
    using live backed_expire [OF inv assms(2), of now] unfolding backed_def by blast
qed

lemma backed_many_to_one:
  assumes inv: "routing_inv own r" and "backed r" and
    fresh: "fm_get (discovery_table (expire_discoveries r now)) (own, request_sequence_number r + 1) = None"
  shows "backed (snd (begin_many_to_one_advertisement r own now t))"
proof -
  let ?q = "r\<lparr>request_sequence_number := request_sequence_number r + 1\<rparr>"
  let ?r = "expire_discoveries ?q now"
  have inv0: "routing_inv own ?q" by (rule routing_inv_other(1) [OF inv])
  have "backed ?q" using assms(2) by (simp add: backed_def live_toward_def underway_def route_status_def)
  then have "backed ?r" by (rule backed_expire [OF inv0])
  then show ?thesis
    unfolding begin_many_to_one_advertisement_def Let_def snd_conv
  proof (rule backedI)
    fix x assume "live_toward ?r x"
    then show "live_toward (?r\<lparr>discovery_table := snd (fm_insert (discovery_table ?r)
        (own, request_sequence_number r + 1) e)\<rparr>) x" for e
      using fresh routing_invD(2) [OF routing_inv_expire [OF inv0]] by (intro live_insert) auto
  qed (simp add: underway_def route_status_def)
qed

lemma backed_request:
  assumes inv: "routing_inv own r" and "backed r"
  shows "backed (snd (accept_route_request r orig i d s c mto now t))"
proof -
  let ?r = "expire_discoveries r now"
  have D: "fm_inv (route_table ?r)" "fm_inv (discovery_table ?r)"
    using routing_invD [OF routing_inv_expire [OF inv]] by blast+
  have mto: "re_status (mark_concentrator mto e) = re_status e" for e by (simp add: mark_concentrator_def)
  have wr: "backed (snd (consider_in_table (?r\<lparr>discovery_table := dt\<rparr>) orig s c (mark_concentrator mto)))"
    if "\<And>x. live_toward ?r x \<Longrightarrow> live_toward (?r\<lparr>discovery_table := dt\<rparr>) x" for dt
  proof (rule backedI [OF backed_expire [OF inv assms(2)]])
    fix x assume "underway (snd (consider_in_table (?r\<lparr>discovery_table := dt\<rparr>) orig s c (mark_concentrator mto))) x"
    then have "underway (?r\<lparr>discovery_table := dt\<rparr>) x"
      by (rule underway_consider [OF _ _ mto]) (simp add: D(1))
    then show "underway ?r x" by simp
  qed (simp add: live_consider that)
  show ?thesis
  proof (cases "fm_get (discovery_table ?r) (orig, i)")
    case None
    then show ?thesis
      using wr live_insert [OF D(2) None] by (simp del: expire_fields add: accept_route_request_def Let_def split_def)
  next
    case (Some e)
    have "live_toward (?r\<lparr>discovery_table := fm_get_mut (discovery_table ?r) (orig, i)
        (\<lambda>e. e\<lparr>forward_cost := c, sender_address := s\<rparr>)\<rparr>) x" if "live_toward ?r x" for x
      using that by (intro live_get_mut D(2)) simp
    then show ?thesis
      using Some wr backed_expire [OF inv assms(2)]
      by (simp del: expire_fields add: accept_route_request_def Let_def split_def)
  qed
qed

lemma backed_reply:
  assumes inv: "routing_inv own r" and "backed r"
  shows "backed (snd (accept_route_reply r own orig i d s c))"
proof -
  let ?w = "r\<lparr>route_table := fm_get_mut (route_table r) d (set_reply_route s c),
    discovery_table := fm_get_mut (discovery_table r) (orig, i) (residual_cost_update (\<lambda>_. c))\<rparr>"
  have w: "backed ?w"
  proof (rule backedI [OF assms(2)])
    fix x assume "underway ?w x"
    then have "underway (r\<lparr>route_table := fm_get_mut (route_table r) d (set_reply_route s c)\<rparr>) x"
      by (simp add: underway_iff)
    then show "underway r x"
      by (rule underway_get_mut [OF _ routing_invD(1) [OF inv]]) (simp add: set_reply_route_def)
  next
    fix x assume "live_toward r x"
    then have "live_toward (r\<lparr>discovery_table := fm_get_mut (discovery_table r) (orig, i)
        (residual_cost_update (\<lambda>_. c))\<rparr>) x"
      by (intro live_get_mut routing_invD(2) [OF inv]) simp
    then show "live_toward ?w x" by (simp add: live_toward_def)
  qed
  have "fm_inv (route_table ?w)" using routing_invD(1) [OF inv] by (simp add: tbl)
  then have "backed (snd (consider_in_table ?w o' h k id))" for o' h k
    by (intro backedI [OF w]) (auto dest!: underway_consider simp: live_consider)
  with w assms(2) show ?thesis
    by (auto simp: accept_route_reply_def Let_def split_def split: option.splits)
qed

lemma backed_relayed:
  assumes inv: "routing_inv own r" and "backed r" "live_toward r d"
  shows "backed (note_relayed_discovery r d)"
proof -
  let ?f = "\<lambda>e. if re_status e \<noteq> Active then e\<lparr>re_status := DiscoveryUnderway\<rparr> else e"
  let ?n = "route_entry_new d DiscoveryUnderway UNKNOWN_NEXT_HOP"
  have "note_relayed_discovery r d = r\<lparr>route_table := fm_entry_write (route_table r) d ?n ?f\<rparr>"
    unfolding note_relayed_discovery_def
    by (subst fm_and_modify_or_insert [OF routing_invD(1) [OF inv]]) (simp_all add: route_entry_new_def)
  then have "underway r x \<or> x = d" if "underway (note_relayed_discovery r d) x" for x
    using that routing_invD(1) [OF inv] by (auto simp: underway_iff tbl split: if_splits)
  moreover have "live_toward (note_relayed_discovery r d) x = live_toward r x" for x
    by (simp add: note_relayed_discovery_def live_toward_def)
  ultimately show ?thesis using assms(2,3) unfolding backed_def by blast
qed

lemma backed_get_mut:
  assumes "backed r" "fm_inv (route_table r)"
    "\<And>e. re_status (f e) = DiscoveryUnderway \<Longrightarrow> re_status e = DiscoveryUnderway"
  shows "backed (r\<lparr>route_table := fm_get_mut (route_table r) d f\<rparr>)"
    "backed (r\<lparr>route_table := fm_values_mut f (route_table r)\<rparr>)"
  using underway_get_mut [OF _ assms(2,3)] underway_values_mut [OF _ assms(2,3)]
  by (auto intro!: backedI [OF assms(1)])

lemma backed_same:
  "backed r \<Longrightarrow> route_table r' = route_table r \<Longrightarrow> discovery_table r' = discovery_table r \<Longrightarrow> backed r'"
  by (simp add: backed_def live_toward_def underway_def route_status_def)

lemma backed_exec:
  assumes inv: "routing_inv own r" and b: "backed r" and "routing_op_ok c" "routing_op_fresh own c r"
  shows "backed (routing_exec own c r)"
proof -
  note T = routing_invD(1) [OF inv]
  note mut = backed_get_mut [OF b T]
  show ?thesis
  proof (cases c)
    case (RRemoveRoute d)
    then show ?thesis using T by (auto simp: remove_route_def split_def underway_iff tbl
        intro!: backedI [OF b] split: if_splits)
  next
    case (RRestoreRoute d h p)
    then show ?thesis using T by (auto simp: restore_route_def underway_iff tbl route_entry_new_def
        intro!: backedI [OF b] split: if_splits)
  next
    case RDecay
    then show ?thesis by (auto simp: routing_decay_activity_def intro!: mut(2) split: if_splits)
  next
    case (RInvalidateVia h)
    then show ?thesis by (auto simp: invalidate_via_def intro!: mut(2) split: if_splits)
  next
    case (RRecordUsage d)
    then show ?thesis by (auto simp: record_usage_def intro!: mut(1) split: if_splits)
  next
    case (RMarkFailed d)
    then show ?thesis by (auto simp: mark_discovery_failed_def intro!: mut(1) split: if_splits)
  next
    case (RNoteSourceRouted d)
    then show ?thesis by (auto simp: note_source_routed_frame_def intro!: mut(1) split: if_splits)
  qed (use assms in \<open>simp_all add: backed_same [OF b] note_route_error_def note_delivery_failure_def
        reset_mtorr_triggers_def Let_def split_def store_route_record_def remove_route_record_def
        backed_begin backed_many_to_one backed_request backed_reply backed_relayed\<close>)
qed

lemma routing_reach_fresh_inv: "routing_reach_fresh own r \<Longrightarrow> routing_inv own r \<and> backed r"
proof (induction rule: routing_reach_fresh.induct)
  case init
  then show ?case
    by (simp add: routing_inv_default) (simp add: backed_def underway_def route_status_def routing_default_def tbl)
qed (simp add: routing_inv_exec backed_exec)



section \<open>Our own requests\<close>

lemma request_dropped:
  assumes "fm_inv (discovery_table r)" "fm_get (discovery_table r) (orig, i) = Some e"
    "now < expiration_time e" "forward_cost e < c"
  shows "accept_route_request r orig i d s c mto now t =
    (\<lparr>accepted = False, rq_update = None\<rparr>, expire_discoveries r now)"
  using assms by (simp add: accept_route_request_def Let_def tbl not_le)

text \<open>
  C18: A route request that we originate, point-to-point or many-to-one, is not accepted when a relayed copy
  of it reaches us while the discovery is live: any copy has a cost above zero, whoever relays it.
\<close>

theorem own_requests_not_accepted:
  assumes inv: "routing_inv own r" and
    fresh: "fm_get (discovery_table (expire_discoveries r now)) (own, request_sequence_number r + 1) = None" and
    c: "0 < c" "now' < instant_add now t"
  shows "(case begin_discovery r own d now t of (i, r') \<Rightarrow>
      accept_route_request r' own i d' s c mto now' t' =
        (\<lparr>accepted = False, rq_update = None\<rparr>, expire_discoveries r' now')) \<and>
    (case begin_many_to_one_advertisement r own now t of (i, r') \<Rightarrow>
      accept_route_request r' own i d' s c mto now' t' =
        (\<lparr>accepted = False, rq_update = None\<rparr>, expire_discoveries r' now'))"
proof
  obtain i r' where b: "begin_discovery r own d now t = (i, r')" by force
  have inv': "fm_inv (discovery_table r')"
    using routing_invD(2) [OF routing_inv_begin [OF inv]] b by (metis snd_conv)
  obtain e where "fm_get (discovery_table r') (own, i) = Some e" "expiration_time e = instant_add now t" "forward_cost e = 0"
    using b fresh routing_invD(2) [OF routing_inv_expire [OF inv]]
    by (auto simp: begin_discovery_def Let_def tbl simp del: expire_fields(3))
  with inv' c show "case begin_discovery r own d now t of (i, r') \<Rightarrow>
      accept_route_request r' own i d' s c mto now' t' =
        (\<lparr>accepted = False, rq_update = None\<rparr>, expire_discoveries r' now')"
    unfolding b prod.case by (intro request_dropped) auto
next
  obtain i r' where b: "begin_many_to_one_advertisement r own now t = (i, r')" by force
  have inv': "fm_inv (discovery_table r')"
    using routing_invD(2) [OF routing_inv_many_to_one [OF inv]] b by (metis snd_conv)
  obtain e where "fm_get (discovery_table r') (own, i) = Some e" "expiration_time e = instant_add now t" "forward_cost e = 0"
    using b routing_invD(2) [OF routing_inv_expire [OF routing_inv_other(1) [OF inv]]]
    by (auto simp: begin_many_to_one_advertisement_def Let_def tbl simp del: expire_fields(3))
  with inv' c show "case begin_many_to_one_advertisement r own now t of (i, r') \<Rightarrow>
      accept_route_request r' own i d' s c mto now' t' =
        (\<lparr>accepted = False, rq_update = None\<rparr>, expire_discoveries r' now')"
    unfolding b prod.case by (intro request_dropped) auto
qed

theorem own_requests_not_accepted_witness:
  "case begin_discovery routing_default 0 9 (Instant 0) 10 of (i, r') \<Rightarrow>
     fst (accept_route_request r' 0 i 9 7 1 NotManyToOne (Instant 3) 10) = \<lparr>accepted = False, rq_update = None\<rparr>"
proof -
  have "fm_get (discovery_table (expire_discoveries routing_default (Instant 0)))
    (0, request_sequence_number routing_default + 1) = None" "Instant 3 < instant_add (Instant 0) 10"
    by (simp_all add: routing_default_def tbl instant_add_def sat_add_def less_instant_def)
  from own_requests_not_accepted [OF routing_inv_default this(1) _ this(2), where d = 9 and d' = 9 and s = 7 and c = 1 and mto = NotManyToOne and t' = 10]
  show ?thesis by (simp add: split_def)
qed

section \<open>Suitability\<close>

text \<open>How a change of the route to one destination compares with what was there.\<close>

definition route_not_worse :: "RouteEntry \<Rightarrow> RouteEntry option \<Rightarrow> bool" where
  "route_not_worse e new \<longleftrightarrow>
     (case new of
        None \<Rightarrow> False
      | Some e' \<Rightarrow> re_status e' = Active \<and> path_cost e' \<le> path_cost e \<and>
          (next_hop_address e' = next_hop_address e \<or> path_cost e' < path_cost e))"

lemma consider_not_worse:
  "re_status e = Active \<Longrightarrow> route_not_worse e (Some (mark_concentrator mto (snd (consider_route e hop c))))"
  by (auto simp: route_not_worse_def consider_route_def mark_concentrator_def Let_def)

text \<open>
  C23: The suitability rule. However a route request is answered, every route that was active stays active,
  never gets more expensive, and changes its next hop only for a strictly cheaper path.
\<close>

theorem route_request_keeps_good_routes:
  assumes inv: "routing_inv own r" and e: "fm_get (route_table r) x = Some e" "re_status e = Active"
  shows "route_not_worse e
    (fm_get (route_table (snd (accept_route_request r orig i d s c mto now t))) x)"
proof -
  let ?r = "expire_discoveries r now"
  have D: "fm_inv (route_table ?r)" by (rule routing_invD(1) [OF routing_inv_expire [OF inv]])
  have get: "fm_get (route_table ?r) x = Some e"
    using e get_expire_route [OF routing_invD(1,2) [OF inv], of now x]
    by (simp add: underway_iff split: if_splits)
  have refl: "route_not_worse e (Some e)" using e(2) by (simp add: route_not_worse_def)
  have "route_not_worse e (fm_get (route_table (snd (consider_in_table (?r\<lparr>discovery_table := dt\<rparr>) orig s c
      (mark_concentrator mto)))) x)" for dt
    using D get refl consider_not_worse [OF e(2)] by (auto simp: consider_in_table_def tbl)
  with get refl show ?thesis
    by (simp add: accept_route_request_def Let_def split_def del: expire_fields split: option.split)
qed

theorem route_request_keeps_good_routes_witness:
  "let r = restore_route routing_default 5 7 3 in
   \<exists>e. fm_get (route_table r) 5 = Some e \<and>
     route_not_worse e (fm_get (route_table (snd (accept_route_request r 5 1 9 8 4 NotManyToOne (Instant 0) 10))) 5)"
proof -
  let ?r = "restore_route routing_default 5 7 3"
  have "routing_reach 0 (routing_exec 0 (RRestoreRoute 5 7 3) routing_default)"
    by (intro routing_reach.intros) (simp add: UNKNOWN_NEXT_HOP_def)
  then have inv: "routing_inv 0 ?r" by (simp add: routing_reach_inv)
  obtain e where e: "fm_get (route_table ?r) 5 = Some e" "re_status e = Active"
    by (simp add: restore_route_def routing_default_def tbl route_entry_new_def)
  with route_request_keeps_good_routes [OF inv e] show ?thesis unfolding Let_def by blast
qed

section \<open>Route replies\<close>



text \<open>
  The suitability rule does not extend to relayed replies: a reply that this node relays replaces an active
  route to the responder by a more expensive one.
\<close>

theorem relayed_reply_may_worsen_route:
  "\<exists>r e e'. routing_reach 0 r \<and>
     fm_get (route_table r) 9 = Some e \<and> re_status e = Active \<and> path_cost e = 1 \<and>
     fm_get (route_table (snd (accept_route_reply r 0 5 1 9 8 40))) 9 = Some e' \<and> path_cost e' = 40"
proof -
  let ?r1 = "restore_route routing_default 9 7 1"
  let ?r = "snd (accept_route_request ?r1 5 1 9 8 2 NotManyToOne (Instant 0) 10)"
  have reach: "routing_reach 0 (routing_exec 0 (RRequest 5 1 9 8 2 NotManyToOne (Instant 0) 10)
      (routing_exec 0 (RRestoreRoute 9 7 1) routing_default))"
    by (intro routing_reach.intros) (simp_all add: UNKNOWN_NEXT_HOP_def)
  have inv: "routing_inv 0 ?r" using routing_reach_inv [OF reach] by simp
  have max: "\<not> (- 1 :: u8) \<le> 40" by (simp add: word_le_nat_alt unat_max)
  let ?e = "(route_entry_new 9 Active 7)\<lparr>path_cost := 1\<rparr>"
  have "fm_get (route_table ?r) 9 = Some ?e"
    "fm_get (discovery_table ?r) (5, 1) = Some \<lparr>route_request_id = 1, source_address = 5, sender_address = 8,
       forward_cost = 2, residual_cost = - 1, expiration_time = Instant 10, destination_address = 9\<rparr>"
    using expire_inv_route [of ?r1 "Instant 0"]
    by (simp_all add: accept_route_request_def Let_def split_def consider_in_table_def restore_route_def
        routing_default_def tbl get_expire_route underway_iff instant_add_def sat_add_def route_entry_new_def)
  moreover from this have "fm_get (route_table (snd (accept_route_reply ?r 0 5 1 9 8 40))) 9 =
      Some (set_reply_route 8 40 ?e)"
    using routing_invD(1) [OF inv] max
    by (simp add: accept_route_reply_def Let_def split_def consider_in_table_def tbl)
  ultimately show ?thesis
    using reach by (intro exI [of _ ?r] exI [of _ ?e] exI [of _ "set_reply_route 8 40 ?e"])
      (simp add: set_reply_route_def route_entry_new_def)
qed

section \<open>Route records\<close>

text \<open>The pairs of a relay and the relays after it.\<close>

fun record_pairs :: "Nwk list \<Rightarrow> (Nwk \<times> Nwk list) list" where
  "record_pairs [] = []"
| "record_pairs (x # xs) = (x, xs) # record_pairs xs"

lemma length_record_pairs [simp]: "length (record_pairs relays) = length relays"
  by (induction relays) auto

lemma nth_record_pairs: "i < length relays \<Longrightarrow> record_pairs relays ! i = (relays ! i, drop (Suc i) relays)"
  by (induction relays arbitrary: i) (auto simp: nth_Cons split: nat.splits)

lemma record_pairs_Nil [simp]: "record_pairs relays = [] \<longleftrightarrow> relays = []"
  by (cases relays) auto

lemma keys_record_pairs [simp]: "map fst (record_pairs relays) = relays"
  by (induction relays) auto

lemma suffix_pairs:
  "map (\<lambda>i. (relays ! (i - 1), drop i relays)) [1..<length relays] = butlast (record_pairs relays)"
  by (rule nth_equalityI) (simp_all add: nth_butlast nth_record_pairs)

lemma last_record_pairs: "relays \<noteq> [] \<Longrightarrow> last (record_pairs relays) = (last relays, [])"
  by (induction relays rule: record_pairs.induct) auto

lemma store_suffixes_extend:
  "store_suffixes relays t = fm_extend t (butlast (record_pairs relays))"
  unfolding store_suffixes_def fm_extend_def suffix_pairs [symmetric] by (simp add: fold_map comp_def)

lemma store_relays_extend:
  assumes "relays \<noteq> []"
  shows "snd (fm_insert (store_suffixes relays t) (last relays) []) = fm_extend t (record_pairs relays)"
proof -
  have "record_pairs relays \<noteq> []" using assms by (cases relays) auto
  then have "record_pairs relays = butlast (record_pairs relays) @ [(last relays, [])]"
    using assms by (metis append_butlast_last_id last_record_pairs)
  then have "fm_extend t (record_pairs relays) =
      fm_extend t (butlast (record_pairs relays) @ [(last relays, [])])" by simp
  then show ?thesis by (simp add: store_suffixes_extend fm_extend_def)
qed

lemma get_record_pairs:
  assumes "fm_inv t" "distinct relays"
  shows "fm_get (fm_extend t (record_pairs relays)) x =
    (case map_of (record_pairs relays) x of None \<Rightarrow> fm_get t x | Some v \<Rightarrow> Some v)"
proof -
  have "map_of (rev (record_pairs relays)) = map_of (record_pairs relays)"
    using assms(2) by (subst map_of_inject_set) (simp_all flip: rev_map)
  then show ?thesis unfolding fm_extend_def fm.get_extend [OF assms(1)] by simp
qed

lemma store_route_record_get:
  assumes inv: "fm_inv (route_record_table r)" and dist: "distinct (source # relays)"
    and res: "store_route_record r source relays = (changed, r')"
  shows "fm_get (route_record_table r') x =
      (if x = source then Some relays
       else case map_of (record_pairs relays) x of
         None \<Rightarrow> fm_get (route_record_table r) x | Some v \<Rightarrow> Some v)"
    and "changed \<longleftrightarrow> fm_get (route_record_table r) source \<noteq> Some relays"
proof -
  let ?t = "fm_extend (route_record_table r) (record_pairs relays)"
  have t: "fm_inv ?t" unfolding fm_extend_def by (rule fm.inv_extend [OF inv])
  have get: "fm_get ?t y = (case map_of (record_pairs relays) y of
      None \<Rightarrow> fm_get (route_record_table r) y | Some v \<Rightarrow> Some v)" for y
    using get_record_pairs [OF inv] dist by simp
  have "(if relays = [] then store_suffixes relays (route_record_table r)
      else snd (fm_insert (store_suffixes relays (route_record_table r)) (last relays) [])) = ?t"
    using store_relays_extend by (simp add: store_suffixes_extend fm_extend_def)
  then have c: "changed = (fm_get ?t source \<noteq> Some relays)"
    and r': "r' = r\<lparr>route_record_table := snd (fm_insert ?t source relays)\<rparr>"
    using res by (simp_all add: store_route_record_def Let_def)
  have "map_of (record_pairs relays) source = None"
    using dist keys_record_pairs [of relays] by (metis distinct.simps(2) list.set_map map_of_eq_None_iff)
  with c get show "changed \<longleftrightarrow> fm_get (route_record_table r) source \<noteq> Some relays" by simp
  show "fm_get (route_record_table r') x =
      (if x = source then Some relays
       else case map_of (record_pairs relays) x of
         None \<Rightarrow> fm_get (route_record_table r) x | Some v \<Rightarrow> Some v)"
    using get by (simp add: r' fm.get_insert [OF t])
qed

text \<open>
  C24: Storing a route record gives source routes to the device that sent it and to every relay on the way:
  the record of relay number \<open>i\<close> is the part of the list after it, and the last relay is reached directly. No
  other record changes, and the call reports a change exactly when the stored list was a different one.
\<close>

theorem store_route_record_spec:
  assumes inv: "fm_inv (route_record_table r)" and dist: "distinct (source # relays)"
    and res: "store_route_record r source relays = (changed, r')"
  shows "(relays \<noteq> [] \<and> length relays < unat m \<longrightarrow> route_to r' source m = Ret (Some (SourceRouted relays))) \<and>
    route_to r' (last (source # relays)) m = Ret (Some (RouteNextHop (last (source # relays)))) \<and>
    (\<forall>i < length relays. fm_get (route_record_table r') (relays ! i) = Some (drop (Suc i) relays)) \<and>
    (\<forall>x. x \<notin> set (source # relays) \<longrightarrow>
       fm_get (route_record_table r') x = fm_get (route_record_table r) x) \<and>
    (changed \<longleftrightarrow> fm_get (route_record_table r) source \<noteq> Some relays)"
proof -
  note get = store_route_record_get [OF assms]
  have relay: "fm_get (route_record_table r') (relays ! i) = Some (drop (Suc i) relays)" if "i < length relays" for i
  proof -
    have "(relays ! i, drop (Suc i) relays) \<in> set (record_pairs relays)"
      using that nth_record_pairs [OF that] by (metis length_record_pairs nth_mem)
    then have "map_of (record_pairs relays) (relays ! i) = Some (drop (Suc i) relays)"
      using dist by simp
    moreover have "relays ! i \<noteq> source" using dist that by auto
    ultimately show ?thesis by (simp add: get(1))
  qed
  have "fm_get (route_record_table r') (last (source # relays)) = Some []"
    using relay [of "length relays - 1"] get(1) [of source] by (cases relays) (auto simp: last_conv_nth)
  moreover have "map_of (record_pairs relays) x = None" if "x \<notin> set relays" for x
    using that keys_record_pairs [of relays] by (metis list.set_map map_of_eq_None_iff)
  ultimately show ?thesis
    using relay get by (auto simp: route_to_def)
qed

theorem store_route_record_spec_witness:
  "case store_route_record routing_default 9 [5, 6] of (changed, r') \<Rightarrow>
     changed \<and> route_to r' 9 11 = Ret (Some (SourceRouted [5, 6])) \<and>
     route_to r' 6 11 = Ret (Some (RouteNextHop 6)) \<and> fm_get (route_record_table r') 5 = Some [6]"
proof -
  obtain changed r' where res: "store_route_record routing_default 9 [5, 6] = (changed, r')" by force
  have "fm_inv (route_record_table routing_default)" "fm_get (route_record_table routing_default) 9 = None"
    by (simp_all add: routing_default_def tbl)
  with store_route_record_spec [OF this(1) _ res, of 11] res show ?thesis
    by (auto dest: spec [of _ 0])
qed

end
