(* ===== verification/Neighbors.thy ===== *)
theory Neighbors
  imports Flat_Map Ring_Buffer
begin

text \<open>
  \<^verbatim>\<open>ziggurat-zigbee/src/nwk/neighbors.rs\<close>: the neighbour table with its link quality samples, the
  digestion of link status commands, ageing, and the bookkeeping of children. The cost fields of a link
  status are three bits wide on the air and are read into bytes.
\<close>

section \<open>Data\<close>

definition LINK_QUALITY_SAMPLES :: nat where
  "LINK_QUALITY_SAMPLES = 3"

definition PENDING_LQA_CAP :: nat where
  "PENDING_LQA_CAP = 64"

type_synonym LqaSamples = "u8 ring"

definition lqa_default :: LqaSamples where
  "lqa_default = rb_new LINK_QUALITY_SAMPLES 0"

definition lqi_to_link_cost :: "u8 \<Rightarrow> u8" where
  "lqi_to_link_cost lqi =
     (if lqi \<le> 16 then 7 else if lqi \<le> 32 then 6 else if lqi \<le> 64 then 5 else if lqi \<le> 96 then 4
      else if lqi \<le> 128 then 3 else if lqi \<le> 192 then 2 else 1)"

datatype Relationship =
    Parent | Child | Sibling | NoneOfTheAbove | PreviousChild | UnauthenticatedChild
  | UnauthorizedChildWithRelayAllowed | LostChild | AddressConflictChild | BackboneMeshSibling

record NeighborEntry =
  extended_address :: Eui64
  network_address :: Nwk
  device_type :: NwkDeviceType
  rx_on_when_idle :: bool
  end_device_configuration :: u16
  timeout_at :: instant
  device_timeout :: duration
  relationship :: Relationship
  transmit_failure :: u8
  lqas :: LqaSamples
  outgoing_cost :: u8
  last_link_status_timestamp :: instant
  incoming_beacon_timestamp :: u32
  beacon_transmission_time_offset :: u32
  keepalive_received :: bool
  mac_unicast_bytes_transmitted :: u32
  mac_unicast_bytes_received :: u32
  router_added_timestamp :: instant
  router_connectivity :: u8
  router_neighbor_set_diversity :: u8
  router_outbound_activity :: u8
  router_inbound_activity :: u8
  security_timer :: u8

definition lqa :: "NeighborEntry \<Rightarrow> u8 option" where
  "lqa e =
     (if \<not> rb_is_full LINK_QUALITY_SAMPLES (lqas e) then None
      else
        (let sorted = sort (rb_values (lqas e)) in
         if LINK_QUALITY_SAMPLES mod 2 = 1 then Some (sorted ! (LINK_QUALITY_SAMPLES div 2))
         else Some (of_nat ((unat (sorted ! (LINK_QUALITY_SAMPLES div 2 - 1)) +
                             unat (sorted ! (LINK_QUALITY_SAMPLES div 2))) div 2))))"

definition incoming_link_cost :: "NeighborEntry \<Rightarrow> u8" where
  "incoming_link_cost e = (case lqa e of None \<Rightarrow> 0 | Some q \<Rightarrow> lqi_to_link_cost q)"

definition is_child :: "NeighborEntry \<Rightarrow> bool" where
  "is_child e \<longleftrightarrow> relationship e = Child \<or> relationship e = UnauthenticatedChild"

record ChildDescriptor =
  cd_eui64 :: Eui64
  cd_network_address :: Nwk
  cd_device_type :: NwkDeviceType
  cd_rx_on_when_idle :: bool
  cd_device_timeout :: duration
  cd_relationship :: Relationship

record NeighborLink =
  nl_eui64 :: Eui64
  nl_outgoing_cost :: u8
  nl_incoming_cost :: u8

record NwkLinkStatus =
  ls_address :: Nwk
  ls_incoming_cost :: u8
  ls_outgoing_cost :: u8

record NwkLinkStatusCommand =
  is_first_frame :: bool
  is_last_frame :: bool
  link_statuses :: "NwkLinkStatus list"

record Neighbors =
  table :: "(Eui64, NeighborEntry) flat_map"
  pending_lqas :: "(Nwk, LqaSamples) flat_map"

definition neighbors_default :: Neighbors where
  "neighbors_default = \<lparr>table = fm_new, pending_lqas = fm_new\<rparr>"

section \<open>Link quality\<close>

definition record_lqa :: "Neighbors \<Rightarrow> Nwk \<Rightarrow> u8 \<Rightarrow> Neighbors run" where
  "record_lqa n sender_nwk lqi =
     (case find (\<lambda>e. network_address e = sender_nwk) (fm_values (table n)) of
        Some e \<Rightarrow>
          run_bind (rb_push LINK_QUALITY_SAMPLES lqi (lqas e)) (\<lambda>samples.
            Ret (n\<lparr>table := fm_find_mut (\<lambda>e. network_address e = sender_nwk) (lqas_update (\<lambda>_. samples)) (table n)\<rparr>))
      | None \<Rightarrow>
          (let p = (if length (pending_lqas n) \<ge> PENDING_LQA_CAP \<and> \<not> fm_contains_key (pending_lqas n) sender_nwk
                    then snd (fm_pop_first (pending_lqas n)) else pending_lqas n)
           in run_bind
                (rb_push LINK_QUALITY_SAMPLES lqi
                  (case fm_get p sender_nwk of Some r \<Rightarrow> r | None \<Rightarrow> lqa_default)) (\<lambda>samples.
                Ret (n\<lparr>pending_lqas := fm_entry_write p sender_nwk lqa_default (\<lambda>_. samples)\<rparr>))))"

definition link :: "Neighbors \<Rightarrow> Nwk \<Rightarrow> NeighborLink option" where
  "link n nwk =
     map_option (\<lambda>e. \<lparr>nl_eui64 = extended_address e, nl_outgoing_cost = outgoing_cost e,
                      nl_incoming_cost = incoming_link_cost e\<rparr>)
       (find (\<lambda>e. network_address e = nwk) (fm_values (table n)))"

definition has_network_address :: "Neighbors \<Rightarrow> Nwk \<Rightarrow> bool" where
  "has_network_address n nwk \<longleftrightarrow> list_ex (\<lambda>e. network_address e = nwk) (fm_values (table n))"

definition end_device_child_eui64 :: "Neighbors \<Rightarrow> Nwk \<Rightarrow> Eui64 option" where
  "end_device_child_eui64 n nwk =
     find_map (\<lambda>e. if network_address e = nwk \<and> device_type e = EndDevice \<and>
                     (relationship e = Child \<or> relationship e = UnauthenticatedChild)
                    then Some (extended_address e) else None) (fm_values (table n))"

text \<open>The bit of the header that the call reads and clears, with the header's source address.\<close>

definition clear_end_device_initiator_for_relay :: "Neighbors \<Rightarrow> bool \<Rightarrow> Nwk \<Rightarrow> bool \<times> bool" where
  "clear_end_device_initiator_for_relay n end_device_initiator source =
     (if \<not> end_device_initiator \<or> end_device_child_eui64 n source = None
      then (False, end_device_initiator) else (True, False))"

definition sleepy_child_eui64 :: "Neighbors \<Rightarrow> Nwk \<Rightarrow> Eui64 option" where
  "sleepy_child_eui64 n nwk =
     find_map (\<lambda>e. if network_address e = nwk \<and> \<not> rx_on_when_idle e \<and> is_child e
                    then Some (extended_address e) else None) (fm_values (table n))"

definition sleepy_children :: "Neighbors \<Rightarrow> (Eui64 \<times> Nwk) list" where
  "sleepy_children n =
     map (\<lambda>e. (extended_address e, network_address e))
       (filter (\<lambda>e. \<not> rx_on_when_idle e \<and> is_child e) (fm_values (table n)))"

definition neighbors_contains :: "Neighbors \<Rightarrow> Eui64 \<Rightarrow> bool" where
  "neighbors_contains n eui64 = fm_contains_key (table n) eui64"

definition device_capability :: "Neighbors \<Rightarrow> Eui64 \<Rightarrow> (NwkDeviceType \<times> bool) option" where
  "device_capability n eui64 =
     map_option (\<lambda>e. (device_type e, rx_on_when_idle e)) (fm_get (table n) eui64)"

definition end_device_child_count :: "Neighbors \<Rightarrow> nat" where
  "end_device_child_count n =
     length (filter (\<lambda>e. is_child e \<and> device_type e = EndDevice) (fm_values (table n)))"

section \<open>Children\<close>

definition keepalive :: "instant \<Rightarrow> NeighborEntry \<Rightarrow> NeighborEntry" where
  "keepalive now e = e\<lparr>timeout_at := instant_add now (device_timeout e), keepalive_received := True\<rparr>"

definition refresh_child_timeout ::
  "Neighbors \<Rightarrow> Eui64 option \<Rightarrow> Nwk option \<Rightarrow> instant \<Rightarrow> bool \<times> Neighbors" where
  "refresh_child_timeout n eui64 nwk now =
     (case Option.bind eui64 (\<lambda>e. map_option (\<lambda>_. e) (fm_get (table n) e)) of
        Some e \<Rightarrow> (True, n\<lparr>table := fm_get_mut (table n) e (keepalive now)\<rparr>)
      | None \<Rightarrow>
          (case nwk of
             Some a \<Rightarrow>
               if list_ex (\<lambda>e. network_address e = a) (fm_values (table n))
               then (True, n\<lparr>table := fm_find_mut (\<lambda>e. network_address e = a) (keepalive now) (table n)\<rparr>)
               else (False, n)
           | None \<Rightarrow> (False, n)))"

definition set_child_timeout :: "Neighbors \<Rightarrow> Nwk \<Rightarrow> duration \<Rightarrow> u16 \<Rightarrow> instant \<Rightarrow> bool \<times> Neighbors" where
  "set_child_timeout n nwk timeout configuration now =
     (let p = (\<lambda>e. network_address e = nwk \<and> is_child e \<and> device_type e = EndDevice) in
      if list_ex p (fm_values (table n)) then
        (True, n\<lparr>table := fm_find_mut p
           (\<lambda>e. e\<lparr>device_timeout := timeout, timeout_at := instant_add now timeout,
                   end_device_configuration := configuration, keepalive_received := True\<rparr>) (table n)\<rparr>)
      else (False, n))"

definition update_network_address :: "Neighbors \<Rightarrow> Eui64 \<Rightarrow> Nwk \<Rightarrow> Neighbors" where
  "update_network_address n eui64 nwk =
     n\<lparr>table := fm_get_mut (table n) eui64
         (\<lambda>e. if network_address e \<noteq> nwk then e\<lparr>network_address := nwk\<rparr> else e)\<rparr>"

definition take_child :: "Neighbors \<Rightarrow> Eui64 \<Rightarrow> Nwk option \<times> Neighbors" where
  "take_child n eui64 =
     (case fm_get (table n) eui64 of
        None \<Rightarrow> (None, n)
      | Some e \<Rightarrow>
          if \<not> is_child e then (None, n)
          else (case fm_remove (table n) eui64 of
                  (old, t) \<Rightarrow> (map_option network_address old, n\<lparr>table := t\<rparr>)))"

definition end_device_children :: "Neighbors \<Rightarrow> Eui64 list" where
  "end_device_children n =
     map extended_address (filter (\<lambda>e. is_child e \<and> device_type e = EndDevice) (fm_values (table n)))"

definition is_unconfirmed_end_device_child :: "Neighbors \<Rightarrow> Eui64 \<Rightarrow> bool" where
  "is_unconfirmed_end_device_child n eui64 =
     (case fm_get (table n) eui64 of
        None \<Rightarrow> False
      | Some e \<Rightarrow> is_child e \<and> device_type e = EndDevice \<and> \<not> keepalive_received e)"

fun remove_claimed_children :: "Neighbors \<Rightarrow> Eui64 list \<Rightarrow> (Eui64 \<times> Nwk) list \<times> Neighbors" where
  "remove_claimed_children n [] = ([], n)"
| "remove_claimed_children n (eui64 # claimed) =
     (case fm_get (table n) eui64 of
        None \<Rightarrow> remove_claimed_children n claimed
      | Some e \<Rightarrow>
          if device_type e \<noteq> EndDevice then remove_claimed_children n claimed
          else
            (case remove_claimed_children (n\<lparr>table := snd (fm_remove (table n) eui64)\<rparr>) claimed of
               (removed, n') \<Rightarrow> ((eui64, network_address e) # removed, n')))"

fun process_parent_annce ::
  "Neighbors \<Rightarrow> Eui64 list \<Rightarrow> (Eui64 list \<times> (Eui64 \<times> Nwk) list) \<times> Neighbors" where
  "process_parent_annce n [] = (([], []), n)"
| "process_parent_annce n (eui64 # announced) =
     (case fm_get (table n) eui64 of
        None \<Rightarrow> process_parent_annce n announced
      | Some e \<Rightarrow>
          if device_type e \<noteq> EndDevice then process_parent_annce n announced
          else if keepalive_received e then
            (case process_parent_annce n announced of
               ((claimed, removed), n') \<Rightarrow> ((eui64 # claimed, removed), n'))
          else
            (case process_parent_annce (n\<lparr>table := snd (fm_remove (table n) eui64)\<rparr>) announced of
               ((claimed, removed), n') \<Rightarrow> ((claimed, (eui64, network_address e) # removed), n')))"

definition evict_timed_out_children :: "Neighbors \<Rightarrow> instant \<Rightarrow> (Eui64 \<times> Nwk) list \<times> Neighbors" where
  "evict_timed_out_children n now =
     (let evicted = map (\<lambda>e. (extended_address e, network_address e))
            (filter (\<lambda>e. is_child e \<and> device_type e = EndDevice \<and> timeout_at e \<le> now) (fm_values (table n)))
      in (evicted, n\<lparr>table := fold (\<lambda>(eui64, _) t. snd (fm_remove t eui64)) evicted (table n)\<rparr>))"

text \<open>The entry that \<^verbatim>\<open>upsert_child\<close> creates when there is none.\<close>

definition child_entry_new :: "ChildDescriptor \<Rightarrow> instant \<Rightarrow> NeighborEntry" where
  "child_entry_new child now =
     \<lparr>extended_address = cd_eui64 child, network_address = cd_network_address child,
      device_type = cd_device_type child, rx_on_when_idle = cd_rx_on_when_idle child,
      end_device_configuration = 0, timeout_at = instant_add now (cd_device_timeout child),
      device_timeout = cd_device_timeout child, relationship = Child, transmit_failure = 0,
      lqas = lqa_default, outgoing_cost = 0, last_link_status_timestamp = now,
      incoming_beacon_timestamp = 0, beacon_transmission_time_offset = 0, keepalive_received = False,
      mac_unicast_bytes_transmitted = 0, mac_unicast_bytes_received = 0, router_added_timestamp = now,
      router_connectivity = 0, router_neighbor_set_diversity = 0, router_outbound_activity = 0,
      router_inbound_activity = 0, security_timer = 0\<rparr>"

definition upsert_child :: "Neighbors \<Rightarrow> ChildDescriptor \<Rightarrow> instant \<Rightarrow> Neighbors" where
  "upsert_child n child now =
     n\<lparr>table := fm_entry_write (table n) (cd_eui64 child) (child_entry_new child now)
         (\<lambda>e. e\<lparr>network_address := cd_network_address child, device_type := cd_device_type child,
                 rx_on_when_idle := cd_rx_on_when_idle child, device_timeout := cd_device_timeout child,
                 timeout_at := instant_add now (cd_device_timeout child),
                 relationship := cd_relationship child\<rparr>)\<rparr>"

definition neighbors_remove :: "Neighbors \<Rightarrow> Eui64 \<Rightarrow> Neighbors" where
  "neighbors_remove n eui64 = n\<lparr>table := snd (fm_remove (table n) eui64)\<rparr>"

section \<open>Links\<close>

definition any_live_router_link :: "Neighbors \<Rightarrow> bool" where
  "any_live_router_link n \<longleftrightarrow>
     list_ex (\<lambda>e. device_type e = Router \<and> outgoing_cost e > 0) (fm_values (table n))"

definition next_child_timeout :: "Neighbors \<Rightarrow> instant option" where
  "next_child_timeout n =
     min_list_opt (map timeout_at
       (filter (\<lambda>e. is_child e \<and> device_type e = EndDevice) (fm_values (table n))))"

definition expected_broadcast_relayers :: "Neighbors \<Rightarrow> Nwk list" where
  "expected_broadcast_relayers n =
     map network_address
       (filter (\<lambda>e. device_type e = Router \<and> outgoing_cost e > 0) (fm_values (table n)))"

definition is_stale :: "instant \<Rightarrow> duration \<Rightarrow> NeighborEntry \<Rightarrow> bool" where
  "is_stale now max_age e \<longleftrightarrow>
     outgoing_cost e > 0 \<and> instant_add (last_link_status_timestamp e) max_age \<le> now"

definition age :: "Neighbors \<Rightarrow> instant \<Rightarrow> duration \<Rightarrow> Nwk list \<times> Neighbors" where
  "age n now max_age =
     (map network_address (filter (is_stale now max_age) (fm_values (table n))),
      n\<lparr>table := fm_values_mut
          (\<lambda>e. if is_stale now max_age e then e\<lparr>lqas := rb_clear (lqas e), outgoing_cost := 0\<rparr> else e) (table n)\<rparr>)"

definition neighbors_decay_activity :: "Neighbors \<Rightarrow> Neighbors" where
  "neighbors_decay_activity n =
     n\<lparr>table := fm_values_mut
         (\<lambda>e. e\<lparr>router_outbound_activity := sat_sub (router_outbound_activity e) 1,
                 router_inbound_activity := sat_sub (router_inbound_activity e) 1\<rparr>) (table n)\<rparr>"

definition record_outbound_activity :: "Neighbors \<Rightarrow> Eui64 \<Rightarrow> Neighbors" where
  "record_outbound_activity n eui64 =
     n\<lparr>table := fm_get_mut (table n) eui64
         (\<lambda>e. e\<lparr>router_outbound_activity := sat_add (router_outbound_activity e) 1\<rparr>)\<rparr>"

definition record_inbound_activity :: "Neighbors \<Rightarrow> Nwk \<Rightarrow> Neighbors" where
  "record_inbound_activity n nwk =
     n\<lparr>table := fm_find_mut (\<lambda>e. network_address e = nwk)
         (\<lambda>e. e\<lparr>router_inbound_activity := sat_add (router_inbound_activity e) 1\<rparr>) (table n)\<rparr>"

definition record_transmit_failure :: "Neighbors \<Rightarrow> Eui64 \<Rightarrow> Neighbors" where
  "record_transmit_failure n eui64 =
     n\<lparr>table := fm_get_mut (table n) eui64
         (\<lambda>e. e\<lparr>transmit_failure := sat_add (transmit_failure e) 1\<rparr>)\<rparr>"

definition reset_transmit_failures :: "Neighbors \<Rightarrow> Neighbors" where
  "reset_transmit_failures n = n\<lparr>table := fm_values_mut (transmit_failure_update (\<lambda>_. 0)) (table n)\<rparr>"

definition link_status_entries :: "Neighbors \<Rightarrow> NwkLinkStatus list" where
  "link_status_entries n =
     List.map_filter (\<lambda>e. map_option (\<lambda>q. \<lparr>ls_address = network_address e, ls_incoming_cost = lqi_to_link_cost q,
                                        ls_outgoing_cost = outgoing_cost e\<rparr>) (lqa e))
       (filter (\<lambda>e. device_type e = Router) (fm_values (table n)))"

section \<open>Link status commands\<close>

definition sibling_entry_new :: "Eui64 \<Rightarrow> Nwk \<Rightarrow> instant \<Rightarrow> LqaSamples \<Rightarrow> NeighborEntry" where
  "sibling_entry_new source_ieee source_nwk now samples =
     \<lparr>extended_address = source_ieee, network_address = source_nwk, device_type = Router,
      rx_on_when_idle = True, end_device_configuration = 0,
      timeout_at = instant_add now (0xFFFFFFFF * 1000000), device_timeout = 0xFFFFFFFF * 1000000,
      relationship = Sibling, transmit_failure = 0, lqas = samples, outgoing_cost = 0,
      last_link_status_timestamp = now, incoming_beacon_timestamp = 0, beacon_transmission_time_offset = 0,
      keepalive_received = True, mac_unicast_bytes_transmitted = 0, mac_unicast_bytes_received = 0,
      router_added_timestamp = now, router_connectivity = 0, router_neighbor_set_diversity = 0,
      router_outbound_activity = 0, router_inbound_activity = 0, security_timer = 0\<rparr>"

text \<open>One iteration of the loop over the listed links.\<close>

definition digest_link_status :: "Nwk \<Rightarrow> Nwk flat_set \<Rightarrow> NwkLinkStatus \<Rightarrow> NeighborEntry \<Rightarrow> NeighborEntry" where
  "digest_link_status own_address connected ls e =
     (let connectivity = 7 - max (ls_incoming_cost ls) (ls_outgoing_cost ls);
          e1 = (if ls_outgoing_cost ls > 0 then
                  (let e0 = e\<lparr>router_connectivity := sat_add (router_connectivity e) connectivity\<rparr> in
                   if \<not> fs_contains connected (ls_address ls)
                   then e0\<lparr>router_neighbor_set_diversity := sat_add (router_neighbor_set_diversity e0) connectivity\<rparr>
                   else e0)
                else e)
      in if ls_address ls = own_address then e1\<lparr>outgoing_cost := ls_incoming_cost ls\<rparr> else e1)"

definition link_status_entry ::
  "Nwk \<Rightarrow> Nwk flat_set \<Rightarrow> NwkLinkStatusCommand \<Rightarrow> instant \<Rightarrow> NeighborEntry \<Rightarrow> NeighborEntry" where
  "link_status_entry own_address connected cmd now e0 =
     (let e1 = (if device_type e0 = EndDevice then e0\<lparr>device_type := Router, rx_on_when_idle := True\<rparr> else e0);
          e2 = e1\<lparr>last_link_status_timestamp := now\<rparr>;
          e3 = (if is_first_frame cmd
                then e2\<lparr>router_connectivity := 0, router_neighbor_set_diversity := 0, outgoing_cost := 0\<rparr> else e2)
      in fold (digest_link_status own_address connected) (link_statuses cmd) e3)"

definition on_link_status ::
  "Neighbors \<Rightarrow> Nwk \<Rightarrow> Eui64 \<Rightarrow> Nwk \<Rightarrow> u8 \<Rightarrow> NwkLinkStatusCommand \<Rightarrow> instant \<Rightarrow> (Nwk option \<times> Neighbors) run" where
  "on_link_status n own_address source_ieee source_nwk lqi cmd now =
     (let connected = fs_from (map network_address (filter (\<lambda>e. outgoing_cost e > 0) (fm_values (table n))));
          (buffered, pending) = fm_remove (pending_lqas n) source_nwk;
          buffered_lqas = (case buffered of Some r \<Rightarrow> r | None \<Rightarrow> lqa_default)
      in run_bind
           (case fm_get (table n) source_ieee of
              Some e \<Rightarrow> Ret e
            | None \<Rightarrow> run_bind (rb_push LINK_QUALITY_SAMPLES lqi buffered_lqas)
                (\<lambda>samples. Ret (sibling_entry_new source_ieee source_nwk now samples)))
           (\<lambda>e0. let e = link_status_entry own_address connected cmd now e0;
                     lost_link = (outgoing_cost e0 > 0 \<and> outgoing_cost e = 0)
                 in Ret (if lost_link then Some (network_address e) else None,
                         \<lparr>table = fm_entry_write (table n) source_ieee e0 (\<lambda>_. e), pending_lqas = pending\<rparr>)))"

end
