(* ===== verification/Neighbors_Facts.thy ===== *)
theory Neighbors_Facts
  imports Neighbors
begin

text \<open>
  The invariant of the neighbour table over every sequence of calls, link costs, eviction and ageing.
\<close>

section \<open>The invariant\<close>

definition lqas_ok :: "LqaSamples \<Rightarrow> bool" where
  "lqas_ok r \<longleftrightarrow> (\<exists>h. rb_repr LINK_QUALITY_SAMPLES h r)"

definition neighbor_ok :: "Eui64 \<Rightarrow> NeighborEntry \<Rightarrow> bool" where
  "neighbor_ok k e \<longleftrightarrow> extended_address e = k \<and> lqas_ok (lqas e) \<and> outgoing_cost e \<le> 7"

definition neighbors_inv :: "Neighbors \<Rightarrow> bool" where
  "neighbors_inv n \<longleftrightarrow> fm_inv (table n) \<and> fm_inv (pending_lqas n) \<and>
     (\<forall>k e. fm_get (table n) k = Some e \<longrightarrow> neighbor_ok k e) \<and>
     (\<forall>a r. fm_get (pending_lqas n) a = Some r \<longrightarrow> lqas_ok r) \<and>
     length (pending_lqas n) \<le> PENDING_LQA_CAP"

lemma neighbors_invD:
  assumes "neighbors_inv n"
  shows "fm_inv (table n)" "fm_inv (pending_lqas n)"
    "fm_get (table n) k = Some e \<Longrightarrow> neighbor_ok k e" "fm_get (pending_lqas n) a = Some r \<Longrightarrow> lqas_ok r"
    "length (pending_lqas n) \<le> PENDING_LQA_CAP"
  using assms by (auto simp: neighbors_inv_def)

lemma neighbors_inv_default: "neighbors_inv neighbors_default"
  by (simp add: neighbors_inv_def neighbors_default_def tbl) (simp add: fm_new_def)

lemma lqas_ok_default: "lqas_ok lqa_default"
  unfolding lqas_ok_def lqa_default_def by (rule exI, rule rb_repr_new)

lemma lqas_ok_clear: "lqas_ok r \<Longrightarrow> lqas_ok (rb_clear r)"
  unfolding lqas_ok_def using rb_repr_clear by blast

lemma lqas_ok_push:
  assumes "lqas_ok r"
  obtains r' where "rb_push LINK_QUALITY_SAMPLES q r = Ret r'" "lqas_ok r'"
proof -
  from assms obtain h where "rb_repr LINK_QUALITY_SAMPLES h r" unfolding lqas_ok_def ..
  then show thesis
    by (rule rb_repr_push [where x = q]) (use that in \<open>auto simp: lqas_ok_def LINK_QUALITY_SAMPLES_def\<close>)
qed

lemma neighbors_inv_table:
  assumes "neighbors_inv n" "fm_inv t" "\<And>k e. fm_get t k = Some e \<Longrightarrow> neighbor_ok k e"
  shows "neighbors_inv (n\<lparr>table := t\<rparr>)"
  using assms by (auto simp: neighbors_inv_def)

lemma neighbors_inv_get_mut:
  assumes "neighbors_inv n" "\<And>e. neighbor_ok k e \<Longrightarrow> neighbor_ok k (f e)"
  shows "neighbors_inv (n\<lparr>table := fm_get_mut (table n) k f\<rparr>)"
  using assms(2) by (intro neighbors_inv_table [OF assms(1)])
    (auto simp: tbl neighbors_invD [OF assms(1)] split: if_splits)

lemma neighbors_inv_values_mut:
  assumes "neighbors_inv n" "\<And>k e. neighbor_ok k e \<Longrightarrow> neighbor_ok k (f e)"
  shows "neighbors_inv (n\<lparr>table := fm_values_mut f (table n)\<rparr>)"
  using assms(2) by (intro neighbors_inv_table [OF assms(1)])
    (auto simp: tbl neighbors_invD [OF assms(1)])

lemma find_entry: "fm_inv m \<Longrightarrow> find (\<lambda>(k, v). p v) m = Some (k, v) \<Longrightarrow> fm_get m k = Some v \<and> p v"
  by (auto simp: find_Some_iff fm.iter_iff_get [symmetric] in_set_conv_nth)

lemma neighbors_inv_find_mut:
  assumes "neighbors_inv n" "\<And>k e. neighbor_ok k e \<Longrightarrow> p e \<Longrightarrow> neighbor_ok k (f e)"
  shows "neighbors_inv (n\<lparr>table := fm_find_mut p f (table n)\<rparr>)"
  using assms(2) find_entry [OF neighbors_invD(1) [OF assms(1)]]
  by (intro neighbors_inv_table [OF assms(1)])
    (fastforce simp: tbl neighbors_invD [OF assms(1)] split: option.splits if_splits)+

lemma neighbors_inv_remove: "neighbors_inv n \<Longrightarrow> neighbors_inv (n\<lparr>table := snd (fm_remove (table n) k)\<rparr>)"
  by (intro neighbors_inv_table) (auto simp: tbl neighbors_invD split: if_splits)

lemma neighbors_inv_entry_write:
  assumes "neighbors_inv n" "\<And>e. neighbor_ok k e \<Longrightarrow> neighbor_ok k (f e)" "neighbor_ok k d"
  shows "neighbors_inv (n\<lparr>table := fm_entry_write (table n) k d f\<rparr>)"
  using assms(2,3) by (intro neighbors_inv_table [OF assms(1)])
    (auto simp: tbl neighbors_invD [OF assms(1)] split: if_splits option.splits)

text \<open>Sizes of the buffer of samples.\<close>

lemma length_keys: "fm_inv m \<Longrightarrow> length m = card {k. fm_get m k \<noteq> None}"
proof -
  assume inv: "fm_inv m"
  have "length m = card (set (map fst m))" using fm_inv_distinct [OF inv] by (metis distinct_card length_map)
  moreover have "set (map fst m) = {k. fm_get m k \<noteq> None}"
    using inv by (auto simp: fm_get_map_of map_of_eq_None_iff)
  ultimately show ?thesis by simp
qed

lemma length_entry_write:
  assumes "fm_inv m"
  shows "length (fm_entry_write m k d f) = (if fm_get m k = None then Suc (length m) else length m)"
  by (simp add: fm_entry_write_def fm_or_insert_with_def fm_entry_def fm_modify_at_def fm_get_def
      split: sum.splits) (use index_of_cases [OF assms, of k] in auto)

lemma length_remove: "length (snd (fm_remove m k)) \<le> length m"
  by (auto simp: fm_remove_def split: sum.splits)

section \<open>Every sequence of calls\<close>

lemma record_lqa_inv:
  assumes inv: "neighbors_inv n"
  shows "\<exists>n'. record_lqa n a q = Ret n' \<and> neighbors_inv n'"
proof (cases "find (\<lambda>e. network_address e = a) (fm_values (table n))")
  case (Some e)
  then obtain k where k: "fm_get (table n) k = Some e"
    using find_Some_in_set [OF Some] fm_values_iff [OF neighbors_invD(1) [OF inv]] by blast
  then obtain r' where r': "rb_push LINK_QUALITY_SAMPLES q (lqas e) = Ret r'" "lqas_ok r'"
    using neighbors_invD(3) [OF inv] lqas_ok_push by (metis neighbor_ok_def)
  then have "record_lqa n a q = Ret (n\<lparr>table := fm_find_mut (\<lambda>e. network_address e = a) (lqas_update (\<lambda>_. r')) (table n)\<rparr>)"
    using Some by (simp add: record_lqa_def)
  then show ?thesis
    using r'(2) by (auto simp: neighbor_ok_def intro!: neighbors_inv_find_mut [OF inv])
next
  case None
  define p where "p = (if length (pending_lqas n) \<ge> PENDING_LQA_CAP \<and> \<not> fm_contains_key (pending_lqas n) a
    then snd (fm_pop_first (pending_lqas n)) else pending_lqas n)"
  note P = neighbors_invD [OF inv]
  have p: "fm_inv p" "length p < PENDING_LQA_CAP \<or> fm_get p a \<noteq> None" "length p \<le> PENDING_LQA_CAP"
    using P(2,5) fm_inv_pop_first [OF P(2)]
    by (auto simp: p_def fm_contains_key_iff fm_pop_first_def PENDING_LQA_CAP_def split: list.splits)
  have "set p \<subseteq> set (pending_lqas n)" by (auto simp: p_def fm_pop_first_def split: list.splits)
  then have ok: "lqas_ok r" if "fm_get p b = Some r" for b r
    using that P(4) [of b r] fm.iter_iff_get [OF p(1)] fm.iter_iff_get [OF P(2)] by blast
  then have "lqas_ok (case fm_get p a of Some r \<Rightarrow> r | None \<Rightarrow> lqa_default)"
    by (auto simp: lqas_ok_default split: option.split)
  then obtain r' where r': "rb_push LINK_QUALITY_SAMPLES q (case fm_get p a of Some r \<Rightarrow> r | None \<Rightarrow> lqa_default) = Ret r'"
    "lqas_ok r'" by (rule lqas_ok_push)
  have "record_lqa n a q = Ret (n\<lparr>pending_lqas := fm_entry_write p a lqa_default (\<lambda>_. r')\<rparr>)"
    using None r'(1) by (simp add: record_lqa_def Let_def flip: p_def)
  moreover have "neighbors_inv (n\<lparr>pending_lqas := fm_entry_write p a lqa_default (\<lambda>_. r')\<rparr>)"
    using inv p r'(2) ok by (auto simp: neighbors_inv_def tbl length_entry_write split: if_splits)
  ultimately show ?thesis by blast
qed

lemma digest_ok: "neighbor_ok k e \<Longrightarrow> ls_incoming_cost ls \<le> 7 \<Longrightarrow> neighbor_ok k (digest_link_status own c ls e)"
  by (simp add: digest_link_status_def neighbor_ok_def Let_def)

lemma digest_fold_ok:
  "neighbor_ok k e \<Longrightarrow> \<forall>ls \<in> set lss. ls_incoming_cost ls \<le> 7 \<Longrightarrow> neighbor_ok k (fold (digest_link_status own c) lss e)"
  by (induction lss arbitrary: e) (auto simp: digest_ok)

lemma link_status_entry_ok:
  assumes "neighbor_ok k e" "\<forall>ls \<in> set (link_statuses cmd). ls_incoming_cost ls \<le> 7"
  shows "neighbor_ok k (link_status_entry own c cmd now e)"
  unfolding link_status_entry_def Let_def using assms
  by (intro digest_fold_ok) (auto simp: neighbor_ok_def)

lemma on_link_status_inv:
  assumes inv: "neighbors_inv n" and cmd: "\<forall>ls \<in> set (link_statuses cmd). ls_incoming_cost ls \<le> 7"
  shows "\<exists>r n'. on_link_status n own ieee nwk q cmd now = Ret (r, n') \<and> neighbors_inv n'"
proof -
  note P = neighbors_invD [OF inv]
  let ?p = "snd (fm_remove (pending_lqas n) nwk)"
  let ?b = "case fst (fm_remove (pending_lqas n) nwk) of Some r \<Rightarrow> r | None \<Rightarrow> lqa_default"
  have inv1: "neighbors_inv (n\<lparr>pending_lqas := ?p\<rparr>)"
    using inv P(2,5) length_remove [of "pending_lqas n" nwk] by (auto simp: neighbors_inv_def tbl split: if_splits)
  have "lqas_ok ?b" using P(4) by (auto simp: lqas_ok_default fm.remove_old [OF P(2)] split: option.split)
  then obtain r' where r': "rb_push LINK_QUALITY_SAMPLES q ?b = Ret r'" "lqas_ok r'" by (rule lqas_ok_push)
  define e0 where "e0 = (case fm_get (table n) ieee of Some e \<Rightarrow> e | None \<Rightarrow> sibling_entry_new ieee nwk now r')"
  have e0: "neighbor_ok ieee e0"
    using P(3) r'(2) by (auto simp: e0_def neighbor_ok_def sibling_entry_new_def split: option.split)
  have "\<exists>r e. on_link_status n own ieee nwk q cmd now =
      Ret (r, \<lparr>table = fm_entry_write (table n) ieee e0 (\<lambda>_. e), pending_lqas = ?p\<rparr>) \<and> neighbor_ok ieee e"
    using link_status_entry_ok [OF e0 cmd] r'(1)
    by (auto simp: on_link_status_def Let_def split_def e0_def split: option.splits)
  then obtain r e where res: "on_link_status n own ieee nwk q cmd now =
      Ret (r, \<lparr>table = fm_entry_write (table n) ieee e0 (\<lambda>_. e), pending_lqas = ?p\<rparr>)"
    and e: "neighbor_ok ieee e" by blast
  have eq: "\<lparr>table = t, pending_lqas = ?p\<rparr> = n\<lparr>pending_lqas := ?p, table := t\<rparr>" for t by (cases n) simp
  have "neighbors_inv \<lparr>table = fm_entry_write (table n) ieee e0 (\<lambda>_. e), pending_lqas = ?p\<rparr>"
    unfolding eq using neighbors_inv_entry_write [OF inv1 _ e0, of "\<lambda>_. e"] e by simp
  then show ?thesis unfolding res by blast
qed

lemma neighbors_inv_fold_remove:
  "neighbors_inv n \<Longrightarrow> neighbors_inv (n\<lparr>table := fold (\<lambda>(k, _) t. snd (fm_remove t k)) ks (table n)\<rparr>)"
proof (induction ks arbitrary: n)
  case (Cons k ks)
  from Cons.IH [OF neighbors_inv_remove [OF Cons.prems, of "fst k"]] show ?case by (cases k) simp
qed simp

lemma remove_claimed_inv: "neighbors_inv n \<Longrightarrow> neighbors_inv (snd (remove_claimed_children n ks))"
  by (induction n ks rule: remove_claimed_children.induct)
    (auto simp: neighbors_inv_remove split: option.splits prod.splits)

lemma parent_annce_inv: "neighbors_inv n \<Longrightarrow> neighbors_inv (snd (process_parent_annce n ks))"
  by (induction n ks rule: process_parent_annce.induct)
    (auto simp: neighbors_inv_remove split: option.splits prod.splits)

datatype neighbors_op =
    NRecordLqa Nwk u8
  | NRefresh "Eui64 option" "Nwk option" instant
  | NSetTimeout Nwk duration u16 instant
  | NUpdateAddress Eui64 Nwk
  | NTakeChild Eui64
  | NRemoveClaimed "Eui64 list"
  | NParentAnnce "Eui64 list"
  | NEvict instant
  | NUpsert ChildDescriptor instant
  | NRemove Eui64
  | NAge instant duration
  | NDecay
  | NOutbound Eui64
  | NInbound Nwk
  | NTransmitFailure Eui64
  | NResetFailures
  | NLinkStatus Nwk Eui64 Nwk u8 NwkLinkStatusCommand instant

fun neighbors_exec :: "neighbors_op \<Rightarrow> Neighbors \<Rightarrow> Neighbors run" where
  "neighbors_exec (NRecordLqa a q) n = record_lqa n a q"
| "neighbors_exec (NRefresh e a now) n = Ret (snd (refresh_child_timeout n e a now))"
| "neighbors_exec (NSetTimeout a t c now) n = Ret (snd (set_child_timeout n a t c now))"
| "neighbors_exec (NUpdateAddress e a) n = Ret (update_network_address n e a)"
| "neighbors_exec (NTakeChild e) n = Ret (snd (take_child n e))"
| "neighbors_exec (NRemoveClaimed es) n = Ret (snd (remove_claimed_children n es))"
| "neighbors_exec (NParentAnnce es) n = Ret (snd (process_parent_annce n es))"
| "neighbors_exec (NEvict now) n = Ret (snd (evict_timed_out_children n now))"
| "neighbors_exec (NUpsert c now) n = Ret (upsert_child n c now)"
| "neighbors_exec (NRemove e) n = Ret (neighbors_remove n e)"
| "neighbors_exec (NAge now t) n = Ret (snd (age n now t))"
| "neighbors_exec NDecay n = Ret (neighbors_decay_activity n)"
| "neighbors_exec (NOutbound e) n = Ret (record_outbound_activity n e)"
| "neighbors_exec (NInbound a) n = Ret (record_inbound_activity n a)"
| "neighbors_exec (NTransmitFailure e) n = Ret (record_transmit_failure n e)"
| "neighbors_exec NResetFailures n = Ret (reset_transmit_failures n)"
| "neighbors_exec (NLinkStatus own e a q cmd now) n = run_bind (on_link_status n own e a q cmd now) (Ret \<circ> snd)"

text \<open>Three bits hold the costs of a received link status.\<close>

fun neighbors_op_ok :: "neighbors_op \<Rightarrow> bool" where
  "neighbors_op_ok (NLinkStatus own e a q cmd now) \<longleftrightarrow> (\<forall>ls \<in> set (link_statuses cmd). ls_incoming_cost ls \<le> 7)"
| "neighbors_op_ok _ \<longleftrightarrow> True"

lemma neighbors_exec_inv:
  assumes inv: "neighbors_inv n" and "neighbors_op_ok c"
  shows "\<exists>n'. neighbors_exec c n = Ret n' \<and> neighbors_inv n'"
proof (cases c)
  case (NRecordLqa a q)
  then show ?thesis using record_lqa_inv [OF inv] by simp
next
  case (NLinkStatus own e a q cmd now)
  then show ?thesis using on_link_status_inv [OF inv, of cmd own e a q now] assms(2) by auto
next
  case (NRefresh e a now)
  then show ?thesis using inv
    by (auto simp: refresh_child_timeout_def keepalive_def neighbor_ok_def split: option.splits
        intro!: neighbors_inv_get_mut neighbors_inv_find_mut)
next
  case (NTakeChild e)
  then show ?thesis using inv by (auto simp: take_child_def neighbors_inv_remove split_def split: option.splits)
next
  case (NUpsert c now)
  then show ?thesis using inv
    by (auto simp: upsert_child_def neighbor_ok_def child_entry_new_def lqas_ok_default intro!: neighbors_inv_entry_write)
qed (use inv in \<open>auto simp: set_child_timeout_def update_network_address_def Let_def neighbor_ok_def
      remove_claimed_inv parent_annce_inv evict_timed_out_children_def neighbors_inv_fold_remove neighbors_remove_def
      neighbors_inv_remove age_def neighbors_decay_activity_def record_outbound_activity_def record_inbound_activity_def
      record_transmit_failure_def reset_transmit_failures_def lqas_ok_clear
      intro!: neighbors_inv_get_mut neighbors_inv_values_mut neighbors_inv_find_mut\<close>)

end
