(* ===== verification/Neighbors_Props.thy ===== *)
theory Neighbors_Props
  imports Neighbors_Facts "HOL-Library.Multiset"
begin

text \<open>The properties of the neighbour table.\<close>

fun neighbors_run :: "neighbors_op list \<Rightarrow> Neighbors \<Rightarrow> Neighbors run" where
  "neighbors_run [] n = Ret n"
| "neighbors_run (c # cs) n = run_bind (neighbors_exec c n) (neighbors_run cs)"

lemma neighbors_run_inv:
  "neighbors_inv n \<Longrightarrow> list_all neighbors_op_ok cs \<Longrightarrow> \<exists>n'. neighbors_run cs n = Ret n' \<and> neighbors_inv n'"
proof (induction cs arbitrary: n)
  case (Cons c cs)
  then obtain n1 where "neighbors_exec c n = Ret n1" "neighbors_inv n1"
    using neighbors_exec_inv [of n c] by auto
  with Cons show ?case by simp
qed simp

lemma lqi_cost_range: "1 \<le> lqi_to_link_cost q \<and> lqi_to_link_cost q \<le> 7"
  by (simp add: lqi_to_link_cost_def)

lemma incoming_cost_range: "incoming_link_cost e \<le> 7"
  using lqi_cost_range by (simp add: incoming_link_cost_def split: option.split)

text \<open>
  C19: Whatever the radio delivers, no call on the neighbour table panics: along every sequence of calls
  whose link statuses carry three-bit costs, the buffer of samples from unknown senders never holds more
  than its cap of 64 senders, every entry is filed under its own address, and every link cost is at most 7.
\<close>

theorem neighbor_table_total:
  assumes "list_all neighbors_op_ok cs"
  shows "\<exists>n. neighbors_run cs neighbors_default = Ret n \<and>
    length (pending_lqas n) \<le> PENDING_LQA_CAP \<and>
    (\<forall>k e. fm_get (table n) k = Some e \<longrightarrow>
       extended_address e = k \<and> outgoing_cost e \<le> 7 \<and> incoming_link_cost e \<le> 7)"
proof -
  obtain n where n: "neighbors_run cs neighbors_default = Ret n" "neighbors_inv n"
    using neighbors_run_inv [OF neighbors_inv_default assms] by blast
  have "extended_address e = k \<and> outgoing_cost e \<le> 7 \<and> incoming_link_cost e \<le> 7"
    if "fm_get (table n) k = Some e" for k e
    using neighbors_invD(3) [OF n(2) that] incoming_cost_range by (simp add: neighbor_ok_def)
  with n neighbors_invD(5) [OF n(2)] show ?thesis by blast
qed

theorem neighbor_table_total_witness:
  "\<exists>n. neighbors_run [NRecordLqa 7 200, NLinkStatus 0 5 7 200
       \<lparr>is_first_frame = True, is_last_frame = True,
        link_statuses = [\<lparr>ls_address = 0, ls_incoming_cost = 3, ls_outgoing_cost = 2\<rparr>]\<rparr> (Instant 0)]
     neighbors_default = Ret n \<and> length (pending_lqas n) \<le> PENDING_LQA_CAP"
  using neighbor_table_total [of "[NRecordLqa 7 200, NLinkStatus 0 5 7 200
       \<lparr>is_first_frame = True, is_last_frame = True,
        link_statuses = [\<lparr>ls_address = 0, ls_incoming_cost = 3, ls_outgoing_cost = 2\<rparr>]\<rparr> (Instant 0)]"]
  by auto

section \<open>Link costs\<close>

lemma sort_rotate: "sort (rotate k xs) = sort xs"
proof (rule properties_for_sort)
  have "mset (rotate k xs) = mset (drop (k mod length xs) xs) + mset (take (k mod length xs) xs)"
    by (simp add: rotate_drop_take)
  also have "\<dots> = mset (take (k mod length xs) xs @ drop (k mod length xs) xs)"
    unfolding mset_append by (rule add.commute)
  finally show "mset (sort xs) = mset (rotate k xs)" by simp
qed simp

lemma rb_values_sorted:
  assumes "rb_repr N h r" "N \<le> length h" "0 < N"
  shows "sort (rb_values r) = sort (drop (length h - N) h)"
  using rb_values_full [OF assms] sort_rotate by metis

text \<open>
  The incoming cost of a link is unknown (zero) until three samples have been received, and after that
  is the cost, between 1 and 7, of the median of the last three; better quality never costs more.
\<close>

theorem incoming_link_cost_spec:
  assumes "rb_repr LINK_QUALITY_SAMPLES h (lqas e)"
  shows "incoming_link_cost e =
      (if length h < 3 then 0 else lqi_to_link_cost (sort (drop (length h - 3) h) ! 1)) \<and>
    (3 \<le> length h \<longrightarrow> 1 \<le> incoming_link_cost e \<and> incoming_link_cost e \<le> 7) \<and>
    (q \<le> q' \<longrightarrow> lqi_to_link_cost q' \<le> lqi_to_link_cost q)"
proof -
  have "rb_is_full LINK_QUALITY_SAMPLES (lqas e) \<longleftrightarrow> 3 \<le> length h"
    using assms by (auto simp: rb_repr_def rb_is_full_def LINK_QUALITY_SAMPLES_def)
  then have eq: "incoming_link_cost e =
      (if length h < 3 then 0 else lqi_to_link_cost (sort (drop (length h - 3) h) ! 1))"
    using rb_values_sorted [OF assms]
    by (simp add: incoming_link_cost_def lqa_def Let_def LINK_QUALITY_SAMPLES_def not_less [symmetric])
  moreover have "lqi_to_link_cost q' \<le> lqi_to_link_cost q" if "q \<le> q'"
    using that by (auto simp: lqi_to_link_cost_def dest: order_trans)
  ultimately show ?thesis using lqi_cost_range by simp
qed

theorem incoming_link_cost_spec_witness:
  "let e = (child_entry_new \<lparr>cd_eui64 = 5, cd_network_address = 7, cd_device_type = Router,
      cd_rx_on_when_idle = True, cd_device_timeout = 10, cd_relationship = Child\<rparr> (Instant 0))
      \<lparr>lqas := \<lparr>ring_slots = [200, 60, 250], ring_len = 3, ring_next = 0\<rparr>\<rparr>
   in incoming_link_cost e = lqi_to_link_cost (sort [200, 60, 250] ! 1) \<and> 1 \<le> incoming_link_cost e"
proof -
  have "rb_repr LINK_QUALITY_SAMPLES [200, 60, 250 :: u8] \<lparr>ring_slots = [200, 60, 250], ring_len = 3, ring_next = 0\<rparr>"
    by (auto simp: rb_repr_def LINK_QUALITY_SAMPLES_def)
  then show ?thesis
    using incoming_link_cost_spec [of "[200, 60, 250]" "(child_entry_new \<lparr>cd_eui64 = 5, cd_network_address = 7,
      cd_device_type = Router, cd_rx_on_when_idle = True, cd_device_timeout = 10, cd_relationship = Child\<rparr> (Instant 0))
      \<lparr>lqas := \<lparr>ring_slots = [200, 60, 250], ring_len = 3, ring_next = 0\<rparr>\<rparr>" 0 0]
    unfolding Let_def by (simp del: sort_key_simps) metis
qed

section \<open>Eviction\<close>

definition times_out :: "instant \<Rightarrow> NeighborEntry \<Rightarrow> bool" where
  "times_out now e \<longleftrightarrow> is_child e \<and> device_type e = EndDevice \<and> timeout_at e \<le> now"

lemma get_fold_remove:
  "fm_inv t \<Longrightarrow> fm_get (fold (\<lambda>(k, _) t. snd (fm_remove t k)) ks t) x =
     (if x \<in> fst ` set ks then None else fm_get t x)"
proof (induction ks arbitrary: t)
  case (Cons k ks)
  then show ?case by (cases k) (auto simp: tbl)
qed simp

text \<open>
  The eviction sweep removes exactly the end device children whose deadline has passed and reports
  each with its address; no other entry changes. The next deadline it announces afterwards lies in the
  future, and a sweep before the announced deadline removes nobody.
\<close>

theorem eviction_exact:
  assumes inv: "neighbors_inv n" and ev: "evict_timed_out_children n now = (evicted, n')"
  shows "set evicted = {(k, network_address e) | k e. fm_get (table n) k = Some e \<and> times_out now e} \<and>
    (\<forall>k. fm_get (table n') k =
       (case fm_get (table n) k of Some e \<Rightarrow> if times_out now e then None else Some e | None \<Rightarrow> None)) \<and>
    (\<forall>t. next_child_timeout n' = Some t \<longrightarrow> now < t) \<and>
    ((\<exists>t. next_child_timeout n = Some t \<and> now < t) \<longrightarrow> evicted = [])"
proof -
  note P = neighbors_invD [OF inv]
  have ea: "extended_address e = k" if "fm_get (table n) k = Some e" for k e
    using P(3) [OF that] by (simp add: neighbor_ok_def)
  have evicted: "evicted = map (\<lambda>e. (extended_address e, network_address e))
      (filter (times_out now) (fm_values (table n)))"
    and n': "n' = n\<lparr>table := fold (\<lambda>(k, _) t. snd (fm_remove t k)) evicted (table n)\<rparr>"
    using ev by (auto simp: evict_timed_out_children_def Let_def times_out_def [abs_def])
  have set_ev: "set evicted = {(k, network_address e) | k e. fm_get (table n) k = Some e \<and> times_out now e}"
    unfolding evicted using ea by (force simp: fm_values_iff [OF P(1)])
  have get': "fm_get (table n') k =
      (case fm_get (table n) k of Some e \<Rightarrow> if times_out now e then None else Some e | None \<Rightarrow> None)" for k
    unfolding n' using get_fold_remove [OF P(1), of evicted k] set_ev
    by (auto simp: image_iff split: option.splits)
  have inv': "fm_inv (table n')"
    using neighbors_invD(1) [OF neighbors_inv_fold_remove [OF inv, of evicted]] by (simp add: n')
  have "now < t" if "next_child_timeout n' = Some t" for t
  proof -
    have "t \<in> timeout_at ` set (filter (\<lambda>e. is_child e \<and> device_type e = EndDevice) (fm_values (table n')))"
      using that unfolding next_child_timeout_def min_list_opt_Some by simp
    then obtain e where "e \<in> set (fm_values (table n'))" "is_child e" "device_type e = EndDevice" "t = timeout_at e"
      by auto
    then show ?thesis using get' by (auto simp: fm_values_iff [OF inv'] times_out_def split: option.splits if_splits)
  qed
  moreover have "evicted = []" if "next_child_timeout n = Some t" "now < t" for t
    using that by (auto simp: evicted filter_empty_conv next_child_timeout_def min_list_opt_Some times_out_def)
  ultimately show ?thesis using set_ev get' by blast
qed

text \<open>A table with one end device child whose deadline is at 10 microseconds.\<close>

definition one_child :: Neighbors where
  "one_child = upsert_child neighbors_default \<lparr>cd_eui64 = 5, cd_network_address = 7, cd_device_type = EndDevice,
     cd_rx_on_when_idle = False, cd_device_timeout = 10, cd_relationship = Child\<rparr> (Instant 0)"

lemma one_child_inv: "neighbors_inv one_child"
  using neighbors_exec_inv [OF neighbors_inv_default, of "NUpsert _ _"] by (simp add: one_child_def)

lemma get_one_child:
  "\<exists>e. fm_get (table one_child) 5 = Some e \<and> network_address e = 7 \<and> times_out (Instant 10) e \<and>
     outgoing_cost e = 0"
  by (simp add: one_child_def upsert_child_def neighbors_default_def tbl times_out_def is_child_def
      child_entry_new_def instant_add_def sat_add_def less_eq_instant_def)

theorem eviction_exact_witness:
  "(5, 7) \<in> set (fst (evict_timed_out_children one_child (Instant 10))) \<and>
   fm_get (table (snd (evict_timed_out_children one_child (Instant 10)))) 5 = None"
proof -
  obtain e where e: "fm_get (table one_child) 5 = Some e" "network_address e = 7" "times_out (Instant 10) e"
    using get_one_child by blast
  obtain ev n' where r: "evict_timed_out_children one_child (Instant 10) = (ev, n')" by force
  from eviction_exact [OF one_child_inv r] e show ?thesis by (auto simp: r)
qed

section \<open>Ageing\<close>

text \<open>
  Ageing reports exactly the neighbours that had a live link and have been silent for the maximal age,
  and clears their costs and samples; everybody else is unchanged, and afterwards no router that is
  expected to relay broadcasts is stale.
\<close>

theorem age_exact:
  assumes inv: "neighbors_inv n" and ag: "age n now max_age = (stale, n')"
  shows "set stale = {network_address e | k e. fm_get (table n) k = Some e \<and> is_stale now max_age e} \<and>
    (\<forall>k. fm_get (table n') k = map_option
       (\<lambda>e. if is_stale now max_age e then e\<lparr>lqas := rb_clear (lqas e), outgoing_cost := 0\<rparr> else e)
       (fm_get (table n) k)) \<and>
    (\<forall>a \<in> set (expected_broadcast_relayers n'). \<exists>k e. fm_get (table n') k = Some e \<and>
       network_address e = a \<and> now < instant_add (last_link_status_timestamp e) max_age)"
proof -
  note P = neighbors_invD [OF inv]
  have stale: "stale = map network_address (filter (is_stale now max_age) (fm_values (table n)))"
    and n': "table n' = fm_values_mut
      (\<lambda>e. if is_stale now max_age e then e\<lparr>lqas := rb_clear (lqas e), outgoing_cost := 0\<rparr> else e) (table n)"
    using ag by (auto simp: age_def)
  have inv': "fm_inv (table n')" using P(1) by (simp add: n' tbl)
  have "now < instant_add (last_link_status_timestamp e) max_age"
    if get: "fm_get (table n') k = Some e" and pos: "outgoing_cost e > 0" for k e
  proof -
    obtain e0 where "e = (if is_stale now max_age e0
        then e0\<lparr>lqas := rb_clear (lqas e0), outgoing_cost := 0\<rparr> else e0)"
      using get unfolding n' fm_get_values_mut [OF P(1)] map_option_eq_Some by blast
    with pos show ?thesis by (cases "is_stale now max_age e0") (auto simp: is_stale_def not_le)
  qed
  then have "\<exists>k e. fm_get (table n') k = Some e \<and> network_address e = a \<and>
      now < instant_add (last_link_status_timestamp e) max_age"
    if "a \<in> set (expected_broadcast_relayers n')" for a
    using that by (fastforce simp: expected_broadcast_relayers_def fm_values_iff [OF inv'])
  moreover have "set stale = {network_address e | k e. fm_get (table n) k = Some e \<and> is_stale now max_age e}"
    unfolding stale by (force simp: fm_values_iff [OF P(1)])
  ultimately show ?thesis using P(1) by (simp add: n' tbl)
qed

definition one_link :: Neighbors where
  "one_link = one_child\<lparr>table := fm_get_mut (table one_child) 5 (outgoing_cost_update (\<lambda>_. 3))\<rparr>"

lemma one_link_inv: "neighbors_inv one_link"
  unfolding one_link_def by (rule neighbors_inv_get_mut [OF one_child_inv]) (simp add: neighbor_ok_def)

lemma get_one_link:
  "\<exists>e. fm_get (table one_link) 5 = Some e \<and> network_address e = 7 \<and> is_stale (Instant 10) 5 e"
  by (simp add: one_link_def one_child_def upsert_child_def neighbors_default_def tbl is_stale_def
      child_entry_new_def instant_add_def sat_add_def less_eq_instant_def)

theorem age_exact_witness:
  "7 \<in> set (fst (age one_link (Instant 10) 5)) \<and>
   map_option outgoing_cost (fm_get (table (snd (age one_link (Instant 10) 5))) 5) = Some 0"
proof -
  obtain e where e: "fm_get (table one_link) 5 = Some e" "network_address e = 7" "is_stale (Instant 10) 5 e"
    using get_one_link by blast
  obtain st n' where r: "age one_link (Instant 10) 5 = (st, n')" by force
  from age_exact [OF one_link_inv r] e show ?thesis by (auto simp: r)
qed

section \<open>Link status\<close>

lemma outgoing_cost_digest:
  "outgoing_cost (digest_link_status own c ls e) =
     (if ls_address ls = own then ls_incoming_cost ls else outgoing_cost e)"
  by (simp add: digest_link_status_def Let_def)

lemma outgoing_cost_fold:
  "outgoing_cost (fold (digest_link_status own c) lss e) =
     (case find (\<lambda>ls. ls_address ls = own) (rev lss) of
        Some ls \<Rightarrow> ls_incoming_cost ls | None \<Rightarrow> outgoing_cost e)"
  by (induction lss rule: rev_induct) (simp_all add: outgoing_cost_digest)

lemma digest_keeps:
  "network_address (fold (digest_link_status own c) lss e) = network_address e"
  "last_link_status_timestamp (fold (digest_link_status own c) lss e) = last_link_status_timestamp e"
  "device_type (fold (digest_link_status own c) lss e) = device_type e"
  by (induction lss arbitrary: e) (simp_all add: digest_link_status_def Let_def)

text \<open>
  C28: A link status updates the entry of its sender only. The outgoing cost becomes what the sender last
  listed for us; a first frame that does not list us resets it to zero. The sender is reported as lost
  exactly when its cost drops to zero. The sender counts as a router from then on, heard at this time.
\<close>

theorem link_status_spec:
  assumes inv: "neighbors_inv n" and res: "on_link_status n own ieee nwk q cmd now = Ret (r, n')"
  shows "\<exists>e. fm_get (table n') ieee = Some e \<and>
    (let previous = (case fm_get (table n) ieee of Some e0 \<Rightarrow> outgoing_cost e0 | None \<Rightarrow> 0) in
     outgoing_cost e =
       (case find (\<lambda>ls. ls_address ls = own) (rev (link_statuses cmd)) of
          Some ls \<Rightarrow> ls_incoming_cost ls | None \<Rightarrow> if is_first_frame cmd then 0 else previous) \<and>
     r = (if previous > 0 \<and> outgoing_cost e = 0 then Some (network_address e) else None)) \<and>
    last_link_status_timestamp e = now \<and> device_type e \<noteq> EndDevice \<and>
    (\<forall>k. k \<noteq> ieee \<longrightarrow> fm_get (table n') k = fm_get (table n) k)"
proof -
  note P = neighbors_invD(1) [OF inv]
  obtain e0 c where r: "r = (if outgoing_cost e0 > 0 \<and> outgoing_cost (link_status_entry own c cmd now e0) = 0
      then Some (network_address (link_status_entry own c cmd now e0)) else None)"
    and n': "table n' = fm_entry_write (table n) ieee e0 (\<lambda>_. link_status_entry own c cmd now e0)"
    and e0: "outgoing_cost e0 = (case fm_get (table n) ieee of Some e0 \<Rightarrow> outgoing_cost e0 | None \<Rightarrow> 0)"
    using res by (auto simp: on_link_status_def Let_def split_def run_bind_Ret_iff sibling_entry_new_def
        split: option.splits)
  let ?e = "link_status_entry own c cmd now e0"
  have "fm_get (table n') ieee = Some ?e" "\<forall>k. k \<noteq> ieee \<longrightarrow> fm_get (table n') k = fm_get (table n) k"
    using P by (auto simp: n' tbl)
  moreover have "outgoing_cost ?e = (case find (\<lambda>ls. ls_address ls = own) (rev (link_statuses cmd)) of
      Some ls \<Rightarrow> ls_incoming_cost ls | None \<Rightarrow> if is_first_frame cmd then 0 else outgoing_cost e0)"
    by (auto simp: link_status_entry_def Let_def outgoing_cost_fold split: option.split)
  moreover have "last_link_status_timestamp ?e = now" "device_type ?e \<noteq> EndDevice"
    by (auto simp: link_status_entry_def Let_def digest_keeps)
  ultimately show ?thesis
    unfolding r e0 [symmetric] by (intro exI [of _ ?e]) (simp add: Let_def e0 [symmetric])
qed

theorem link_status_spec_witness:
  "\<exists>r n' e. on_link_status neighbors_default 0 5 7 200 \<lparr>is_first_frame = True, is_last_frame = True,
       link_statuses = [\<lparr>ls_address = 0, ls_incoming_cost = 3, ls_outgoing_cost = 2\<rparr>]\<rparr> (Instant 4) = Ret (r, n') \<and>
     fm_get (table n') 5 = Some e \<and> outgoing_cost e = 3 \<and> last_link_status_timestamp e = Instant 4"
proof -
  let ?cmd = "\<lparr>is_first_frame = True, is_last_frame = True,
       link_statuses = [\<lparr>ls_address = 0, ls_incoming_cost = 3, ls_outgoing_cost = 2\<rparr>]\<rparr>"
  obtain r n' where res: "on_link_status neighbors_default 0 5 7 200 ?cmd (Instant 4) = Ret (r, n')"
    using on_link_status_inv [OF neighbors_inv_default, of ?cmd 0 5 7 200 "Instant 4"] by auto
  from link_status_spec [OF neighbors_inv_default res] res show ?thesis by (auto simp: Let_def)
qed

end
