(* ===== verification/Nwk_Frame.thy ===== *)
theory Nwk_Frame
  imports Security_Headers
begin

text \<open>
  \<^verbatim>\<open>ziggurat-zigbee/src/nwk/frame.rs\<close>: network headers and frames, their byte forms, and the encryption
  and decryption of frames. The bit-packed parts (frame control, source route subframe, security control)
  are read and written by code that the \<^verbatim>\<open>abstract_bits\<close> crate generates; it enters as the record \<open>bits\<close>
  of readers, which return the value and the number of bytes read, and writers. NWK commands enter
  through their byte codec. Indexing past the end of a slice is \<open>Panic\<close>.
\<close>

section \<open>Data\<close>

datatype NwkFrameType = NwkData | NwkCommandFrame | NwkInterpan

datatype NwkRouteDiscovery = Suppress | Enable | WithMulticast

record NwkFrameControl =
  frame_type :: NwkFrameType
  protocol_version :: "4 word"
  discover_route :: NwkRouteDiscovery
  multicast :: bool
  fc_security :: bool
  fc_source_route :: bool
  fc_destination :: bool
  fc_extended_source :: bool
  end_device_initiator :: bool
  reserved1 :: "2 word"

record NwkSourceRoute =
  relay_index :: u8
  relays :: "Nwk list"

record NwkHeader =
  frame_control :: NwkFrameControl
  destination :: Nwk
  source :: Nwk
  radius :: u8
  sequence_number :: u8
  destination_ieee :: "Eui64 option"
  source_ieee :: "Eui64 option"
  multicast_control :: "u8 option"
  source_route :: "NwkSourceRoute option"

record bit_codecs =
  read_fc :: "u8 list \<Rightarrow> (NwkFrameControl \<times> nat) option"
  write_fc :: "NwkFrameControl \<Rightarrow> u8 list"
  read_sr :: "u8 list \<Rightarrow> (NwkSourceRoute \<times> nat) option"
  write_sr :: "NwkSourceRoute \<Rightarrow> u8 list"
  read_ctl :: ctl_reader
  write_ctl :: ctl_writer

record EncryptedNwkFrame =
  enc_header :: NwkHeader
  enc_aux_header :: "NwkAuxHeader option"
  ciphertext :: "u8 list"

datatype 'c NwkPayload = Opaque "u8 list" | Command 'c

record 'c NwkFrame =
  nwk_header :: NwkHeader
  aux_header :: "NwkAuxHeader option"
  payload :: "'c NwkPayload"

section \<open>Header bytes\<close>

definition parse_nwk :: "u8 list \<Rightarrow> (Nwk \<times> u8 list) parse" where
  "parse_nwk bytes = Ret (case nwk_deserialize bytes of Inl e \<Rightarrow> Inl (ParseAddress e) | Inr x \<Rightarrow> Inr x)"

definition parse_eui64_if :: "bool \<Rightarrow> u8 list \<Rightarrow> (Eui64 option \<times> u8 list) parse" where
  "parse_eui64_if present bytes =
     (if present then
        Ret (case eui64_deserialize bytes of Inl e \<Rightarrow> Inl (ParseAddress e) | Inr (a, rest) \<Rightarrow> Inr (Some a, rest))
      else Ret (Inr (None, bytes)))"

definition take_byte :: "u8 list \<Rightarrow> (u8 \<times> u8 list) parse" where
  "take_byte bytes = (case bytes of [] \<Rightarrow> Panic | b # rest \<Rightarrow> Ret (Inr (b, rest)))"

definition parse_multicast :: "bool \<Rightarrow> u8 list \<Rightarrow> (u8 option \<times> u8 list) parse" where
  "parse_multicast present bytes =
     (if present then
        (case bytes of [] \<Rightarrow> Ret (Inl (ParseUnexpectedEnd ''NWK multicast control''))
         | b # rest \<Rightarrow> Ret (Inr (Some b, rest)))
      else Ret (Inr (None, bytes)))"

definition parse_source_route ::
  "bit_codecs \<Rightarrow> bool \<Rightarrow> u8 list \<Rightarrow> (NwkSourceRoute option \<times> u8 list) parse" where
  "parse_source_route bits present bytes =
     (if present then
        (case read_sr bits bytes of
           None \<Rightarrow> Ret (Inl ParseBits)
         | Some (sr, n) \<Rightarrow> if n \<le> length bytes then Ret (Inr (Some sr, drop n bytes)) else Panic)
      else Ret (Inr (None, bytes)))"

definition nwk_header_deserialize :: "bit_codecs \<Rightarrow> u8 list \<Rightarrow> (NwkHeader \<times> u8 list) parse" where
  "nwk_header_deserialize bits bytes =
     (if length bytes < 8 then Ret (Inl (ParseUnexpectedEnd ''NwkHeader''))
      else case read_fc bits bytes of
        None \<Rightarrow> Ret (Inl ParseBits)
      | Some (fc, n) \<Rightarrow>
        if length bytes < n then Panic else
        parse_bind (parse_nwk (drop n bytes)) (\<lambda>(dst, r1).
        parse_bind (parse_nwk r1) (\<lambda>(src, r2).
        parse_bind (take_byte r2) (\<lambda>(rad, r3).
        parse_bind (take_byte r3) (\<lambda>(seq, r4).
        parse_bind (parse_eui64_if (fc_destination fc) r4) (\<lambda>(dst_ieee, r5).
        parse_bind (parse_eui64_if (fc_extended_source fc) r5) (\<lambda>(src_ieee, r6).
        parse_bind (parse_multicast (multicast fc) r6) (\<lambda>(mc, r7).
        parse_bind (parse_source_route bits (fc_source_route fc) r7) (\<lambda>(sr, r8).
          Ret (Inr (\<lparr>frame_control = fc, destination = dst, source = src, radius = rad, sequence_number = seq,
                     destination_ieee = dst_ieee, source_ieee = src_ieee, multicast_control = mc,
                     source_route = sr\<rparr>, r8)))))))))))"

definition nwk_header_to_bytes :: "bit_codecs \<Rightarrow> NwkHeader \<Rightarrow> u8 list" where
  "nwk_header_to_bytes bits h =
     write_fc bits (frame_control h) @ nwk_to_bytes (destination h) @ nwk_to_bytes (source h) @
     [radius h, sequence_number h] @ opt_bytes eui64_to_bytes (destination_ieee h) @
     opt_bytes eui64_to_bytes (source_ieee h) @ opt_bytes (\<lambda>b. [b]) (multicast_control h) @
     opt_bytes (write_sr bits) (source_route h)"

section \<open>Frames\<close>

definition encrypted_nwk_frame_from_bytes :: "bit_codecs \<Rightarrow> u8 list \<Rightarrow> EncryptedNwkFrame parse" where
  "encrypted_nwk_frame_from_bytes bits bytes =
     (if length bytes > MAX_PHY_PACKET_SIZE then Ret (Inl (ParseTooLong ''NwkFrame''))
      else
        parse_bind (nwk_header_deserialize bits bytes) (\<lambda>(h, r1).
        parse_bind (if fc_security (frame_control h)
                    then Ret (case nwk_aux_deserialize (read_ctl bits) r1 of
                                Inl e \<Rightarrow> Inl e | Inr (a, rest) \<Rightarrow> Inr (Some a, rest))
                    else Ret (Inr (None, r1))) (\<lambda>(aux, r2).
          if length r2 \<le> MAX_PHY_PACKET_SIZE
          then Ret (Inr \<lparr>enc_header = h, enc_aux_header = aux, ciphertext = r2\<rparr>)
          else Ret (Inl (ParseTooLong ''ciphertext'')))))"

definition encrypted_nwk_frame_to_bytes :: "bit_codecs \<Rightarrow> EncryptedNwkFrame \<Rightarrow> u8 list" where
  "encrypted_nwk_frame_to_bytes bits f =
     nwk_header_to_bytes bits (enc_header f) @ opt_bytes (nwk_aux_to_bytes (write_ctl bits)) (enc_aux_header f) @
     ciphertext f"

definition with_radius :: "'c NwkFrame \<Rightarrow> u8 \<Rightarrow> 'c NwkFrame" where
  "with_radius f r = f\<lparr>nwk_header := (nwk_header f)\<lparr>radius := r\<rparr>\<rparr>"

definition with_sequence_number :: "'c NwkFrame \<Rightarrow> u8 \<Rightarrow> 'c NwkFrame" where
  "with_sequence_number f n = f\<lparr>nwk_header := (nwk_header f)\<lparr>sequence_number := n\<rparr>\<rparr>"

definition with_source :: "'c NwkFrame \<Rightarrow> Nwk \<Rightarrow> 'c NwkFrame" where
  "with_source f a = f\<lparr>nwk_header := (nwk_header f)\<lparr>source := a\<rparr>\<rparr>"

definition with_destination_ieee :: "'c NwkFrame \<Rightarrow> Eui64 option \<Rightarrow> 'c NwkFrame" where
  "with_destination_ieee f ieee = f\<lparr>nwk_header := (nwk_header f)
     \<lparr>frame_control := (frame_control (nwk_header f))\<lparr>fc_destination := ieee \<noteq> None\<rparr>, destination_ieee := ieee\<rparr>\<rparr>"

definition with_source_ieee :: "'c NwkFrame \<Rightarrow> Eui64 option \<Rightarrow> 'c NwkFrame" where
  "with_source_ieee f ieee = f\<lparr>nwk_header := (nwk_header f)
     \<lparr>frame_control := (frame_control (nwk_header f))\<lparr>fc_extended_source := ieee \<noteq> None\<rparr>, source_ieee := ieee\<rparr>\<rparr>"

definition with_discover_route :: "'c NwkFrame \<Rightarrow> NwkRouteDiscovery \<Rightarrow> 'c NwkFrame" where
  "with_discover_route f d = f\<lparr>nwk_header := (nwk_header f)
     \<lparr>frame_control := (frame_control (nwk_header f))\<lparr>discover_route := d\<rparr>\<rparr>\<rparr>"

definition unsecured :: "'c NwkFrame \<Rightarrow> 'c NwkFrame" where
  "unsecured f = f\<lparr>nwk_header := (nwk_header f)
     \<lparr>frame_control := (frame_control (nwk_header f))\<lparr>fc_security := False\<rparr>\<rparr>\<rparr>"

definition get_modified_aux_header :: "NwkAuxHeader option \<Rightarrow> NwkSecurityLevel \<Rightarrow> NwkAuxHeader run" where
  "get_modified_aux_header aux level =
     (case aux of
        None \<Rightarrow> Panic
      | Some h \<Rightarrow> Ret (h\<lparr>nwk_security_control := (nwk_security_control h)\<lparr>security_level := level\<rparr>\<rparr>))"

definition auth_data :: "bit_codecs \<Rightarrow> NwkHeader \<Rightarrow> NwkAuxHeader \<Rightarrow> u8 list" where
  "auth_data bits h aux = nwk_header_to_bytes bits h @ nwk_aux_to_bytes (write_ctl bits) aux"

text \<open>The codec of NWK commands, and the conversion of payloads.\<close>

record 'c command_codec =
  cmd_to_bytes :: "'c \<Rightarrow> u8 list run"
  cmd_from_bytes :: "u8 list \<Rightarrow> 'c run"

definition payload_to_bytes :: "'c command_codec \<Rightarrow> 'c NwkPayload \<Rightarrow> u8 list run" where
  "payload_to_bytes cc p =
     (case p of
        Opaque bytes \<Rightarrow> Ret bytes
      | Command c \<Rightarrow>
          run_bind (cmd_to_bytes cc c) (\<lambda>bytes. if length bytes \<le> MAX_PHY_PACKET_SIZE then Ret bytes else Panic))"

definition payload_from_bytes :: "'c command_codec \<Rightarrow> NwkFrameType \<Rightarrow> u8 list \<Rightarrow> 'c NwkPayload run" where
  "payload_from_bytes cc ty bytes =
     (case ty of NwkCommandFrame \<Rightarrow> run_bind (cmd_from_bytes cc bytes) (\<lambda>c. Ret (Command c)) | _ \<Rightarrow> Ret (Opaque bytes))"

definition nwk_frame_encrypt ::
  "bit_codecs \<Rightarrow> 'c command_codec \<Rightarrow> ccm_seal \<Rightarrow> 'c NwkFrame \<Rightarrow> Key \<Rightarrow> EncryptedNwkFrame run" where
  "nwk_frame_encrypt bits cc seal f key =
     run_bind (get_modified_aux_header (aux_header f) EncMic32) (\<lambda>aux.
     run_bind (nwk_get_nonce (write_ctl bits) (source_ieee (nwk_header f)) aux) (\<lambda>nonce.
     run_bind (payload_to_bytes cc (payload f)) (\<lambda>plain.
     run_bind (encrypt_ccm seal key nonce (auth_data bits (nwk_header f) aux) plain) (\<lambda>ct.
       Ret \<lparr>enc_header = nwk_header f, enc_aux_header = aux_header f, ciphertext = ct\<rparr>))))"

definition nwk_frame_decrypt ::
  "bit_codecs \<Rightarrow> 'c command_codec \<Rightarrow> ccm_open \<Rightarrow> EncryptedNwkFrame \<Rightarrow> Key \<Rightarrow> (DecryptionError + 'c NwkFrame) run" where
  "nwk_frame_decrypt bits cc open_detached f key =
     run_bind (get_modified_aux_header (enc_aux_header f) EncMic32) (\<lambda>aux.
     run_bind (nwk_get_nonce (write_ctl bits) (source_ieee (enc_header f)) aux) (\<lambda>nonce.
       (case decrypt_ccm open_detached key nonce (auth_data bits (enc_header f) aux) (ciphertext f) of
          Inl e \<Rightarrow> Ret (Inl e)
        | Inr plain \<Rightarrow>
            run_bind (payload_from_bytes cc (frame_type (frame_control (enc_header f))) plain) (\<lambda>p.
              Ret (Inr \<lparr>nwk_header = enc_header f, aux_header = enc_aux_header f, payload = p\<rparr>)))))"

section \<open>Round trips\<close>

text \<open>What is documented of the generated code: a reader returns what the writer wrote and counts its bytes.\<close>

definition bits_ok :: "bit_codecs \<Rightarrow> bool" where
  "bits_ok bits \<longleftrightarrow>
     (\<forall>fc rest. length (write_fc bits fc) = 2 \<and> read_fc bits (write_fc bits fc @ rest) = Some (fc, 2)) \<and>
     (\<forall>sr rest. length (relays sr) < 256 \<longrightarrow>
        read_sr bits (write_sr bits sr @ rest) = Some (sr, length (write_sr bits sr))) \<and>
     ctl_codec (read_ctl bits) (write_ctl bits)"

definition nwk_header_wf :: "NwkHeader \<Rightarrow> bool" where
  "nwk_header_wf h \<longleftrightarrow>
     fc_destination (frame_control h) = (destination_ieee h \<noteq> None) \<and>
     fc_extended_source (frame_control h) = (source_ieee h \<noteq> None) \<and>
     multicast (frame_control h) = (multicast_control h \<noteq> None) \<and>
     fc_source_route (frame_control h) = (source_route h \<noteq> None) \<and>
     (\<forall>sr. source_route h = Some sr \<longrightarrow> length (relays sr) < 256)"

lemma builders_keep_wf:
  assumes "nwk_header_wf (nwk_header f)"
  shows "nwk_header_wf (nwk_header (with_radius f r))" "nwk_header_wf (nwk_header (with_sequence_number f n))"
    "nwk_header_wf (nwk_header (with_source f a))" "nwk_header_wf (nwk_header (with_destination_ieee f ieee))"
    "nwk_header_wf (nwk_header (with_source_ieee f ieee))" "nwk_header_wf (nwk_header (with_discover_route f d))"
    "nwk_header_wf (nwk_header (unsecured f))"
  using assms
  by (auto simp: nwk_header_wf_def with_radius_def with_sequence_number_def with_source_def
      with_destination_ieee_def with_source_ieee_def with_discover_route_def unsecured_def)

lemma parse_nwk_to_bytes [simp]: "parse_nwk (nwk_to_bytes a @ rest) = Ret (Inr (a, rest))"
  by (simp add: parse_nwk_def nwk_deserialize_to_bytes)

lemma parse_eui64_opt [simp]:
  "present = (a \<noteq> None) \<Longrightarrow> parse_eui64_if present (opt_bytes eui64_to_bytes a @ rest) = Ret (Inr (a, rest))"
  by (cases a) (simp_all add: parse_eui64_if_def opt_bytes_def)

lemma parse_multicast_opt [simp]:
  "present = (b \<noteq> None) \<Longrightarrow> parse_multicast present (opt_bytes (\<lambda>b. [b]) b @ rest) = Ret (Inr (b, rest))"
  by (cases b) (simp_all add: parse_multicast_def opt_bytes_def)

lemma parse_source_route_opt:
  "bits_ok bits \<Longrightarrow> present = (sr \<noteq> None) \<Longrightarrow> (\<And>r. sr = Some r \<Longrightarrow> length (relays r) < 256) \<Longrightarrow>
     parse_source_route bits present (opt_bytes (write_sr bits) sr @ rest) = Ret (Inr (sr, rest))"
  by (cases sr) (simp_all add: parse_source_route_def opt_bytes_def bits_ok_def)

lemma take_byte_Cons [simp]: "take_byte (b # rest) = Ret (Inr (b, rest))"
  by (simp add: take_byte_def)

lemma nwk_header_roundtrip:
  assumes bits: "bits_ok bits" and wf: "nwk_header_wf h"
  shows "nwk_header_deserialize bits (nwk_header_to_bytes bits h @ rest) = Ret (Inr (h, rest))"
proof -
  have len: "length (write_fc bits (frame_control h)) = 2"
    and rd: "\<And>r. read_fc bits (write_fc bits (frame_control h) @ r) = Some (frame_control h, 2)"
    using bits by (auto simp: bits_ok_def)
  have drop: "drop 2 (write_fc bits (frame_control h) @ xs) = xs" for xs using len by simp
  have "parse_source_route bits (fc_source_route (frame_control h))
      (opt_bytes (write_sr bits) (source_route h) @ rest) = Ret (Inr (source_route h, rest))"
    using wf by (intro parse_source_route_opt [OF bits]) (auto simp: nwk_header_wf_def)
  then show ?thesis
    using wf len rd by (simp add: nwk_header_deserialize_def nwk_header_to_bytes_def drop nwk_header_wf_def)
qed

text \<open>
  C25: An encrypted network frame is recovered from its bytes when its optional fields agree with its frame
  control and it fits into a radio packet: header, auxiliary header and ciphertext come back unchanged.
\<close>

theorem encrypted_frame_roundtrip:
  assumes bits: "bits_ok bits" and wf: "nwk_header_wf (enc_header f)"
    and sec: "fc_security (frame_control (enc_header f)) = (enc_aux_header f \<noteq> None)"
    and aux: "\<And>a. enc_aux_header f = Some a \<Longrightarrow> nwk_aux_wf a"
    and len: "length (encrypted_nwk_frame_to_bytes bits f) \<le> MAX_PHY_PACKET_SIZE"
  shows "encrypted_nwk_frame_from_bytes bits (encrypted_nwk_frame_to_bytes bits f) = Ret (Inr f)"
proof -
  have ctl: "ctl_codec (read_ctl bits) (write_ctl bits)" using bits by (simp add: bits_ok_def)
  have "length (ciphertext f) \<le> MAX_PHY_PACKET_SIZE" using len by (simp add: encrypted_nwk_frame_to_bytes_def)
  then show ?thesis
    using sec aux len nwk_header_roundtrip [OF bits wf] nwk_aux_roundtrip [OF ctl]
    unfolding encrypted_nwk_frame_from_bytes_def encrypted_nwk_frame_to_bytes_def
    by (cases "enc_aux_header f") (auto simp: opt_bytes_def not_less)
qed

lemma nwk_encrypt_decrypt_payload:
  assumes inverse: "\<And>k n a p c mic. seal k n a p = Some (c, mic) \<Longrightarrow> open_detached k n a c mic = Some p"
    and lengths: "\<And>k n a p c mic. seal k n a p = Some (c, mic) \<Longrightarrow> length mic = 4 \<and> length c = length p"
    and total: "\<And>k n a p. length p < 2 ^ 16 \<Longrightarrow> seal k n a p \<noteq> None"
    and plain: "payload_to_bytes cc (payload f) = Ret bytes" "length bytes \<le> 123"
      "payload_from_bytes cc (frame_type (frame_control (nwk_header f))) bytes = Ret (payload f)"
    and aux: "aux_header f = Some h" "nwk_extended_source h \<noteq> None \<or> source_ieee (nwk_header f) \<noteq> None"
  shows "\<exists>enc. nwk_frame_encrypt bits cc seal f key = Ret enc \<and>
    nwk_frame_decrypt bits cc open_detached enc key = Ret (Inr f)"
proof -
  let ?h = "h\<lparr>nwk_security_control := (nwk_security_control h)\<lparr>security_level := EncMic32\<rparr>\<rparr>"
  have mod: "get_modified_aux_header (aux_header f) EncMic32 = Ret ?h"
    by (simp add: get_modified_aux_header_def aux(1))
  obtain nonce where nonce: "nwk_get_nonce (write_ctl bits) (source_ieee (nwk_header f)) ?h = Ret nonce"
    using aux(2)
    by (cases "nwk_extended_source h"; cases "source_ieee (nwk_header f)") (auto simp: nwk_get_nonce_def)
  obtain c mic where s: "seal key nonce (auth_data bits (nwk_header f) ?h) bytes = Some (c, mic)"
    using total [of bytes key nonce "auth_data bits (nwk_header f) ?h"] plain(2) by force
  have enc: "nwk_frame_encrypt bits cc seal f key =
      Ret \<lparr>enc_header = nwk_header f, enc_aux_header = aux_header f, ciphertext = c @ mic\<rparr>"
    using lengths [OF s] plain(1,2) s mod nonce
    by (simp add: nwk_frame_encrypt_def encrypt_ccm_def MAX_PHY_PACKET_SIZE_def)
  have "decrypt_ccm open_detached key nonce (auth_data bits (nwk_header f) ?h) (c @ mic) = Inr bytes"
    using inverse [OF s] lengths [OF s] by (simp add: decrypt_ccm_def MIC_LENGTH_def)
  then have "nwk_frame_decrypt bits cc open_detached
      \<lparr>enc_header = nwk_header f, enc_aux_header = aux_header f, ciphertext = c @ mic\<rparr> key = Ret (Inr f)"
    using mod nonce plain(3) by (cases f) (simp add: nwk_frame_decrypt_def)
  with enc show ?thesis by blast
qed


section \<open>A concrete packing\<close>

text \<open>
  Readers and writers that meet the hypotheses, for the witnesses: the frame control in mixed radix, a source
  route as a count, an index and the relays.
\<close>

fun type_code :: "NwkFrameType \<Rightarrow> nat" where
  "type_code NwkData = 0" | "type_code NwkCommandFrame = 1" | "type_code NwkInterpan = 2"

fun discovery_code :: "NwkRouteDiscovery \<Rightarrow> nat" where
  "discovery_code Suppress = 0" | "discovery_code Enable = 1" | "discovery_code WithMulticast = 2"

definition fc_code :: "NwkFrameControl \<Rightarrow> nat" where
  "fc_code c = type_code (frame_type c) + 3 * (discovery_code (discover_route c) + 3 *
     (of_bool (multicast c) + 2 * (of_bool (fc_security c) + 2 * (of_bool (fc_source_route c) + 2 *
     (of_bool (fc_destination c) + 2 * (of_bool (fc_extended_source c) + 2 *
     (of_bool (end_device_initiator c) + 2 * (unat (protocol_version c) + 16 * unat (reserved1 c)))))))))"

definition fc_decode :: "nat \<Rightarrow> NwkFrameControl" where
  "fc_decode n =
     \<lparr>frame_type = [NwkData, NwkCommandFrame, NwkInterpan] ! (n mod 3),
      protocol_version = of_nat (n div 576 mod 16),
      discover_route = [Suppress, Enable, WithMulticast] ! (n div 3 mod 3),
      multicast = odd (n div 9), fc_security = odd (n div 18), fc_source_route = odd (n div 36),
      fc_destination = odd (n div 72), fc_extended_source = odd (n div 144),
      end_device_initiator = odd (n div 288), reserved1 = of_nat (n div 9216)\<rparr>"

lemma radix: "a < n \<Longrightarrow> (a + n * b) mod n = a" "a < n \<Longrightarrow> (a + n * b) div n = b" for a b n :: nat
  by simp_all

lemma type_code_less: "type_code t < 3"
  by (cases t) simp_all

lemma discovery_code_less: "discovery_code d < 3"
  by (cases d) simp_all

lemma code_nth:
  "[NwkData, NwkCommandFrame, NwkInterpan] ! type_code t = t"
  "[Suppress, Enable, WithMulticast] ! discovery_code d = d"
  by ((cases t; simp), (cases d; simp))

lemma radix_less: "a < m \<Longrightarrow> b < k \<Longrightarrow> a + m * b < m * k" for a b m k :: nat
proof -
  assume "a < m" "b < k"
  then have "a + m * b < m * Suc b" "m * Suc b \<le> m * k" by (simp, intro mult_le_mono) auto
  then show ?thesis by linarith
qed

lemma odd_of_bool: "odd (of_bool b + 2 * n) = b" for n :: nat
  by simp

lemma of_bool_less: "of_bool b < (2 :: nat)"
  by simp

lemma fc_decode_code: "fc_decode (fc_code c) = c"
proof -
  note R = radix(2) [OF type_code_less] radix(2) [OF discovery_code_less] radix(2) [OF of_bool_less]
  have 9: "n div 9 = n div 3 div 3" "n div 18 = n div 3 div 3 div 2" "n div 36 = n div 3 div 3 div 2 div 2"
    "n div 72 = n div 3 div 3 div 2 div 2 div 2" "n div 144 = n div 3 div 3 div 2 div 2 div 2 div 2"
    "n div 288 = n div 3 div 3 div 2 div 2 div 2 div 2 div 2"
    "n div 576 = n div 3 div 3 div 2 div 2 div 2 div 2 div 2 div 2"
    "n div 9216 = n div 3 div 3 div 2 div 2 div 2 div 2 div 2 div 2 div 16" for n :: nat
    by (simp_all add: div_mult2_eq [symmetric])
  have p: "unat (protocol_version c) < 16" using unat_bound [of "protocol_version c"] by simp
  show ?thesis
    unfolding fc_decode_def 9 fc_code_def R radix [OF p] radix(1) [OF type_code_less]
      radix(1) [OF discovery_code_less] code_nth odd_of_bool
    by simp
qed

fun read_relays :: "nat \<Rightarrow> u8 list \<Rightarrow> Nwk list option" where
  "read_relays 0 bs = Some []"
| "read_relays (Suc n) bs =
     (case nwk_deserialize bs of Inl _ \<Rightarrow> None | Inr (a, rest) \<Rightarrow> map_option ((#) a) (read_relays n rest))"

definition sample_bits :: bit_codecs where
  "sample_bits =
     \<lparr>read_fc = (\<lambda>bs. if length bs < 2 then None
                      else Some (fc_decode (unat (from_le [bs ! 0, bs ! 1] :: u16)), 2)),
      write_fc = (\<lambda>c. to_le 2 (of_nat (fc_code c) :: u16)),
      read_sr = (\<lambda>bs. case bs of
          n # i # rest \<Rightarrow> map_option (\<lambda>rs. (\<lparr>relay_index = i, relays = rs\<rparr>, 2 + 2 * unat n)) (read_relays (unat n) rest)
        | _ \<Rightarrow> None),
      write_sr = (\<lambda>sr. of_nat (length (relays sr)) # relay_index sr # concat (map nwk_to_bytes (relays sr))),
      read_ctl = unpack_ctl, write_ctl = pack_ctl\<rparr>"

lemma read_relays_write: "read_relays (length rs) (concat (map nwk_to_bytes rs) @ rest) = Some rs"
  by (induction rs) (simp_all add: nwk_deserialize_to_bytes)

lemma length_relays_write: "length (concat (map nwk_to_bytes rs)) = 2 * length rs"
  by (induction rs) simp_all

lemma fc_code_bound: "fc_code c < 65536"
proof -
  have "unat (protocol_version c) < 16" "unat (reserved1 c) < 4"
    using unat_bound [of "protocol_version c"] unat_bound [of "reserved1 c"] by simp_all
  then have "fc_code c < 3 * (3 * (2 * (2 * (2 * (2 * (2 * (2 * (16 * 4))))))))"
    unfolding fc_code_def by (intro radix_less type_code_less discovery_code_less of_bool_less)
  then show ?thesis by simp
qed

lemma sample_bits_ok: "bits_ok sample_bits"
proof -
  have "unat (from_le [ucast (of_nat (fc_code c) :: u16), ucast (drop_bit 8 (of_nat (fc_code c) :: u16))] :: u16) = fc_code c" for c
    using from_le_to_le_full [of 2 "of_nat (fc_code c) :: u16"] fc_code_bound [of c]
    unfolding to_le_2 by (simp add: unat_of_nat)
  moreover have "unat (of_nat n :: u8) = n" if "n < 256" for n using that by (simp add: unat_of_nat)
  ultimately show ?thesis
    by (auto simp: bits_ok_def sample_bits_def ctl_codec_pack to_le_2 fc_decode_code read_relays_write
        length_relays_write)
qed

definition sample_header :: NwkHeader where
  "sample_header =
     \<lparr>frame_control = \<lparr>frame_type = NwkData, protocol_version = 2, discover_route = Enable, multicast = False,
        fc_security = True, fc_source_route = True, fc_destination = False, fc_extended_source = True,
        end_device_initiator = False, reserved1 = 0\<rparr>,
      destination = 5, source = 6, radius = 30, sequence_number = 1, destination_ieee = None,
      source_ieee = Some 77, multicast_control = None,
      source_route = Some \<lparr>relay_index = 0, relays = [9]\<rparr>\<rparr>"

definition sample_aux :: NwkAuxHeader where
  "sample_aux = \<lparr>nwk_security_control = \<lparr>security_level = NoSecurity, key_id = NetworkKey, extended_nonce = True,
     require_verified_frame_counter = False\<rparr>, nwk_frame_counter = 7, nwk_extended_source = Some 9,
     nwk_key_sequence_number = 1\<rparr>"

theorem encrypted_frame_roundtrip_witness:
  "let f = \<lparr>enc_header = sample_header, enc_aux_header = Some sample_aux, ciphertext = [1, 2, 3]\<rparr> in
   encrypted_nwk_frame_from_bytes sample_bits (encrypted_nwk_frame_to_bytes sample_bits f) = Ret (Inr f)"
  unfolding Let_def
proof (rule encrypted_frame_roundtrip [OF sample_bits_ok])
  show "length (encrypted_nwk_frame_to_bytes sample_bits
      \<lparr>enc_header = sample_header, enc_aux_header = Some sample_aux, ciphertext = [1, 2, 3]\<rparr>) \<le> MAX_PHY_PACKET_SIZE"
    by (simp add: encrypted_nwk_frame_to_bytes_def nwk_header_to_bytes_def nwk_aux_to_bytes_def opt_bytes_def
        sample_header_def sample_aux_def sample_bits_def write_extended_source_def eui64_to_bytes_def
        MAX_PHY_PACKET_SIZE_def)
qed (auto simp: sample_header_def sample_aux_def nwk_header_wf_def nwk_aux_wf_def)


end
