(* ===== verification/Addresses.thy ===== *)
theory Addresses
  imports Neighbors
begin

text \<open>
  The address map of \<^verbatim>\<open>ziggurat-zigbee/src/nwk/addresses.rs\<close>: extended to network addresses, with conflict
  detection and the allocation of addresses to joining devices. The candidate iterator of an allocation is the
  list of the addresses it yields; running off its end is the panic of the source.
\<close>

section \<open>The map and its operations\<close>

record AddressMap =
  own_address :: Nwk
  addr_map :: "(Eui64, Nwk) flat_map"

definition address_map_new :: "Nwk \<Rightarrow> Eui64 \<Rightarrow> AddressMap" where
  "address_map_new own own_eui64 = \<lparr>own_address = own, addr_map = fm_from [(own_eui64, own)]\<rparr>"

definition nwk_for :: "AddressMap \<Rightarrow> Eui64 \<Rightarrow> Nwk option" where
  "nwk_for a eui64 = fm_get (addr_map a) eui64"

definition eui64_for :: "AddressMap \<Rightarrow> Nwk \<Rightarrow> Eui64 option" where
  "eui64_for a nwk = find_map (\<lambda>(eui64, mapped). if mapped = nwk then Some eui64 else None) (addr_map a)"

definition address_entries :: "AddressMap \<Rightarrow> (Eui64 \<times> Nwk) list" where
  "address_entries a = filter (\<lambda>(_, nwk). nwk \<noteq> own_address a) (addr_map a)"

definition claimed_by_other :: "AddressMap \<Rightarrow> Nwk \<Rightarrow> Eui64 \<Rightarrow> bool" where
  "claimed_by_other a nwk eui64 \<longleftrightarrow>
     nwk = own_address a \<or> list_ex (\<lambda>(other, other_nwk). other_nwk = nwk \<and> other \<noteq> eui64) (addr_map a)"

definition update_mapping :: "AddressMap \<Rightarrow> Eui64 \<Rightarrow> Nwk \<Rightarrow> bool \<times> AddressMap" where
  "update_mapping a eui64 nwk =
     (if fm_get (addr_map a) eui64 = Some nwk then (False, a)
      else if claimed_by_other a nwk eui64 then (True, a)
      else (False, a\<lparr>addr_map := snd (fm_insert (addr_map a) eui64 nwk)\<rparr>))"

definition address_usable :: "AddressMap \<Rightarrow> Neighbors \<Rightarrow> Nwk \<Rightarrow> bool" where
  "address_usable a neighbors candidate \<longleftrightarrow>
     candidate \<noteq> 0 \<and> candidate < 0xFFF8 \<and> candidate \<noteq> own_address a \<and>
     \<not> list_ex (\<lambda>nwk. nwk = candidate) (fm_values (addr_map a)) \<and> \<not> has_network_address neighbors candidate"

definition generate_unused :: "AddressMap \<Rightarrow> Neighbors \<Rightarrow> Nwk list \<Rightarrow> Nwk run" where
  "generate_unused a neighbors candidates = unwrap (find (address_usable a neighbors) candidates)"

definition allocate :: "AddressMap \<Rightarrow> Eui64 \<Rightarrow> Neighbors \<Rightarrow> Nwk list \<Rightarrow> Nwk run" where
  "allocate a eui64 neighbors candidates =
     (case nwk_for a eui64 of Some nwk \<Rightarrow> Ret nwk | None \<Rightarrow> generate_unused a neighbors candidates)"

definition evict_other_owners :: "AddressMap \<Rightarrow> Nwk \<Rightarrow> Eui64 \<Rightarrow> AddressMap" where
  "evict_other_owners a nwk owner =
     a\<lparr>addr_map := fm_retain (\<lambda>eui64 mapped. \<not> (mapped = nwk \<and> eui64 \<noteq> owner)) (addr_map a)\<rparr>"

definition claim :: "AddressMap \<Rightarrow> Eui64 \<Rightarrow> Nwk \<Rightarrow> AddressMap" where
  "claim a eui64 nwk =
     (let a1 = evict_other_owners a nwk eui64
      in a1\<lparr>addr_map := snd (fm_insert (addr_map a1) eui64 nwk)\<rparr>)"

definition forget_address :: "AddressMap \<Rightarrow> Nwk \<Rightarrow> AddressMap" where
  "forget_address a nwk = a\<lparr>addr_map := fm_retain (\<lambda>_ mapped. mapped \<noteq> nwk) (addr_map a)\<rparr>"

section \<open>Histories\<close>

datatype address_op = Learn Eui64 Nwk | Claim Eui64 Nwk | Forget Nwk

fun address_exec :: "address_op \<Rightarrow> AddressMap \<Rightarrow> AddressMap" where
  "address_exec (Learn e n) a = snd (update_mapping a e n)"
| "address_exec (Claim e n) a = claim a e n"
| "address_exec (Forget n) a = forget_address a n"

definition address_run :: "Nwk \<Rightarrow> Eui64 \<Rightarrow> address_op list \<Rightarrow> AddressMap" where
  "address_run own own_eui64 ops = fold address_exec ops (address_map_new own own_eui64)"

section \<open>The invariant\<close>

definition single_owner :: "AddressMap \<Rightarrow> bool" where
  "single_owner a \<longleftrightarrow> fm_inv (addr_map a) \<and>
     (\<forall>e e' n. fm_get (addr_map a) e = Some n \<longrightarrow> fm_get (addr_map a) e' = Some n \<longrightarrow> e = e')"

lemma single_owner_new: "single_owner (address_map_new own own_eui64)"
  by (auto simp: single_owner_def address_map_new_def fm_from_def fm_extend_def tbl split: if_splits)

lemma claimed_by_other_iff:
  "single_owner a \<Longrightarrow>
   claimed_by_other a nwk eui64 \<longleftrightarrow> nwk = own_address a \<or> (\<exists>e. e \<noteq> eui64 \<and> fm_get (addr_map a) e = Some nwk)"
  by (auto simp: claimed_by_other_def list_ex_iff single_owner_def fm.iter_iff_get)

lemma single_owner_update: "single_owner a \<Longrightarrow> single_owner (snd (update_mapping a e n))"
  by (auto simp: update_mapping_def claimed_by_other_iff) (auto simp: single_owner_def tbl split: if_splits)

lemma single_owner_claim: "single_owner a \<Longrightarrow> single_owner (claim a e n)"
  by (auto simp: single_owner_def claim_def evict_other_owners_def Let_def tbl split: if_splits option.splits)

lemma single_owner_forget: "single_owner a \<Longrightarrow> single_owner (forget_address a n)"
  by (auto simp: single_owner_def forget_address_def tbl split: if_splits option.splits)

lemma single_owner_exec: "single_owner a \<Longrightarrow> single_owner (address_exec op a)"
  by (cases op) (simp_all add: single_owner_update single_owner_claim single_owner_forget)

lemma single_owner_fold: "single_owner a \<Longrightarrow> single_owner (fold address_exec ops a)"
  by (induction ops arbitrary: a) (simp_all add: single_owner_exec)

lemma single_owner_run: "single_owner (address_run own own_eui64 ops)"
  by (simp add: address_run_def single_owner_fold single_owner_new)

lemma eui64_for_iff: "single_owner a \<Longrightarrow> eui64_for a n = Some e \<longleftrightarrow> nwk_for a e = Some n"
proof -
  assume a: "single_owner a"
  then have iff: "(e, n) \<in> set (addr_map a) \<longleftrightarrow> fm_get (addr_map a) e = Some n" for e n
    by (simp add: single_owner_def fm.iter_iff_get)
  show ?thesis
  proof (cases "eui64_for a n")
    case None
    then have "(e, n) \<notin> set (addr_map a)" by (force simp: eui64_for_def find_map_None_iff)
    with None show ?thesis by (simp add: iff nwk_for_def)
  next
    case (Some e')
    then have "nwk_for a e' = Some n"
      by (auto simp: eui64_for_def nwk_for_def iff dest!: find_map_SomeD split: if_splits)
    with Some a show ?thesis by (auto simp: single_owner_def nwk_for_def)
  qed
qed

section \<open>Properties\<close>

text \<open>
  C33: A network address has a single owner, whatever sequence of learnt, claimed and forgotten mappings led to
  the map: the two lookups are inverse to each other. An authoritative claim takes effect at once, and what
  it removes is only the mapping of the claimed address to another device.
\<close>
theorem address_single_owner:
  "let a = address_run own own_eui64 ops in
   (\<forall>e n. eui64_for a n = Some e \<longleftrightarrow> nwk_for a e = Some n) \<and>
   (\<forall>e n. nwk_for (claim a e n) e = Some n \<and> eui64_for (claim a e n) n = Some e) \<and>
   (\<forall>e n e'. e' \<noteq> e \<longrightarrow> nwk_for (claim a e n) e' = (if nwk_for a e' = Some n then None else nwk_for a e'))"
proof -
  define a where "a = address_run own own_eui64 ops"
  have a: "single_owner a" by (simp add: a_def single_owner_run)
  then have inv: "fm_inv (addr_map a)" by (simp add: single_owner_def)
  have 1: "nwk_for (claim a e n) e = Some n" for e n
    using inv by (simp add: nwk_for_def claim_def evict_other_owners_def Let_def tbl)
  have 2: "nwk_for (claim a e n) e' = (if nwk_for a e' = Some n then None else nwk_for a e')" if "e' \<noteq> e" for e n e'
    using inv that
    by (auto simp: nwk_for_def claim_def evict_other_owners_def Let_def tbl split: option.splits)
  from 1 2 a show ?thesis
    by (simp add: a_def [symmetric] eui64_for_iff single_owner_claim)
qed

theorem address_single_owner_witness:
  "let a = address_run 0 7 [Learn 1 20, Claim 2 20, Learn 3 30] in
   nwk_for (claim a 3 20) 2 = None"
  using address_single_owner [of 0 7 "[Learn 1 20, Claim 2 20, Learn 3 30]"]
  by (simp add: Let_def address_run_def address_map_new_def update_mapping_def claimed_by_other_def claim_def
      evict_other_owners_def nwk_for_def fm_from_def fm_extend_def tbl)



lemma address_usable_iff:
  "single_owner a \<Longrightarrow> address_usable a nb n \<longleftrightarrow>
     n \<noteq> 0 \<and> n < 0xFFF8 \<and> n \<noteq> own_address a \<and> (\<forall>e. nwk_for a e \<noteq> Some n) \<and> \<not> has_network_address nb n"
  (is "?so \<Longrightarrow> _")
proof -
  assume ?so
  then have "list_ex (\<lambda>nwk. nwk = n) (fm_values (addr_map a)) \<longleftrightarrow> (\<exists>e. nwk_for a e = Some n)"
    by (auto simp: list_ex_iff fm_values_def nwk_for_def single_owner_def fm.iter_iff_get [symmetric] image_iff)
      (metis snd_conv)
  then show ?thesis by (auto simp: address_usable_def)
qed

text \<open>
  Address allocation. A device that joined before keeps its address. Any other device is given the first
  candidate that lies in the range 0x0001 to 0xFFF7 and is not ours, not mapped and not in the neighbour table;
  the allocation only fails when no candidate qualifies. Learning the allocated mapping is never a conflict.
\<close>
theorem allocate_spec:
  assumes a: "a = address_run own own_eui64 ops"
  shows "case nwk_for a e of
      Some n \<Rightarrow> allocate a e nb candidates = Ret n
    | None \<Rightarrow>
       (\<forall>n. allocate a e nb candidates = Ret n \<longrightarrow>
          n \<in> set candidates \<and> 1 \<le> n \<and> n \<le> 0xFFF7 \<and> n \<noteq> own_address a \<and> (\<forall>e'. nwk_for a e' \<noteq> Some n) \<and>
          \<not> has_network_address nb n \<and> update_mapping a e n = (False, claim a e n)) \<and>
       (allocate a e nb candidates = Panic \<longleftrightarrow> (\<forall>n \<in> set candidates. \<not> address_usable a nb n))"
proof (cases "nwk_for a e")
  case (Some n)
  then show ?thesis by (simp add: allocate_def)
next
  case None
  have so: "single_owner a" by (simp add: a single_owner_run)
  have usable: "1 \<le> n \<and> n \<le> 0xFFF7 \<and> n \<noteq> own_address a \<and> (\<forall>e'. nwk_for a e' \<noteq> Some n) \<and>
      \<not> has_network_address nb n \<and> update_mapping a e n = (False, claim a e n)"
    if u: "address_usable a nb n" for n
  proof -
    from u have n: "n \<noteq> 0" "n < 0xFFF8" "n \<noteq> own_address a" "\<And>e. fm_get (addr_map a) e \<noteq> Some n"
        "\<not> has_network_address nb n"
      by (auto simp: address_usable_iff [OF so] nwk_for_def)
    have inv: "fm_inv (addr_map a)" using so by (simp add: single_owner_def)
    have "evict_other_owners a n e = a"
      using n(4) inv by (cases a)
        (auto simp: evict_other_owners_def fm_retain_def fm.iter_iff_get intro!: filter_True)
    then have "update_mapping a e n = (False, claim a e n)"
      using n by (auto simp: update_mapping_def claimed_by_other_iff [OF so] claim_def)
    moreover have "1 \<le> n" "n \<le> 0xFFF7"
      using n by (simp_all add: word_le_nat_alt word_less_nat_alt) (metis Suc_leI unat_eq_0 neq0_conv)
    ultimately show ?thesis using n by (simp add: nwk_for_def)
  qed
  have al: "allocate a e nb candidates = unwrap (find (address_usable a nb) candidates)"
    using None by (simp add: allocate_def generate_unused_def)
  show ?thesis
  proof (cases "find (address_usable a nb) candidates")
    case None
    then show ?thesis using \<open>nwk_for a e = None\<close> by (simp add: al) (simp add: find_None_iff)
  next
    case (Some n)
    then have "n \<in> set candidates" "address_usable a nb n" by (auto simp: find_Some_iff)
    with Some usable [of n] \<open>nwk_for a e = None\<close> show ?thesis by (auto simp: al)
  qed
qed

theorem allocate_spec_witness:
  "(\<exists>n. allocate (address_run 0 7 [Claim 2 20]) 3 neighbors_default [0, 20, 0xFFFF, 21] = Ret n \<and> n \<le> 0xFFF7) \<and>
   allocate (address_run 0 7 [Claim 2 20]) 2 neighbors_default [] = Ret 20"
proof -
  define a where "a = address_run 0 7 [Claim 2 20]"
  have nwk: "nwk_for a = (\<lambda>e. if e = 2 then Some 20 else if e = 7 then Some 0 else None)" "own_address a = 0"
    by (auto simp: a_def address_run_def address_map_new_def claim_def evict_other_owners_def nwk_for_def
        fm_from_def fm_extend_def Let_def fun_eq_iff tbl)
  have "address_usable a neighbors_default 21"
    using single_owner_run [of 0 7 "[Claim 2 20]"] nwk
    by (auto simp: address_usable_iff a_def [symmetric] has_network_address_def neighbors_default_def
        fm_values_def fm_new_def)
  with allocate_spec [OF a_def, of 3 neighbors_default "[0, 20, 0xFFFF, 21]"]
    allocate_spec [OF a_def, of 2 neighbors_default "[]"] nwk
  have "allocate a 3 neighbors_default [0, 20, 0xFFFF, 21] \<noteq> Panic"
    "\<And>n. allocate a 3 neighbors_default [0, 20, 0xFFFF, 21] = Ret n \<Longrightarrow> n \<le> 0xFFF7"
    "allocate a 2 neighbors_default [] = Ret 20"
    by simp_all
  then show ?thesis
    unfolding a_def [symmetric] by (cases "allocate a 3 neighbors_default [0, 20, 0xFFFF, 21]") auto
qed

end
