(* ===== verification/Next_Hop.thy ===== *)
theory Next_Hop
  imports Routing_Facts Neighbors Nwk_Frame
begin

text \<open>
  The choice of the MAC next hop of a unicast we originate
  (\<^verbatim>\<open>ziggurat-zigbee/src/nwk/next_hop.rs\<close>): a decision over the routing and neighbour tables that may
  rewrite the frame to carry a source route. The frame is passed in and returned.
\<close>

section \<open>Model\<close>

datatype HostRoute = HostNextHop Nwk | HostSourceRoute "Nwk list"

datatype RouteDirective = StackDecides | Hint HostRoute | Force HostRoute

datatype SendMode = Direct | RouteMode RouteDirective

datatype NextHop = Resolved Nwk | NeedDiscovery | Discard

record Policy =
  is_concentrator :: bool
  force_route_discovery :: bool
  max_source_route :: u8

definition apply_source_route :: "'c NwkFrame \<Rightarrow> Nwk list \<Rightarrow> (NextHop \<times> 'c NwkFrame) run" where
  "apply_source_route f rs =
     (if rs = [] then Panic
      else Ret (Resolved (last rs),
        f\<lparr>nwk_header := (nwk_header f)
           \<lparr>frame_control := (frame_control (nwk_header f))\<lparr>fc_source_route := True, discover_route := Suppress\<rparr>,
            source_route := Some \<lparr>relay_index = of_nat (length rs) - 1, relays = rs\<rparr>\<rparr>\<rparr>))"

definition apply_host_route :: "'c NwkFrame \<Rightarrow> HostRoute \<Rightarrow> (NextHop \<times> 'c NwkFrame) run" where
  "apply_host_route f route =
     (case route of HostNextHop h \<Rightarrow> Ret (Resolved h, f) | HostSourceRoute rs \<Rightarrow> apply_source_route f rs)"

text \<open>The end of the decision, when neither a child, a stored source route nor an ad-hoc route applies.\<close>

definition resolve_without_route :: "'c NwkFrame \<Rightarrow> RouteDirective \<Rightarrow> (NextHop \<times> 'c NwkFrame) run" where
  "resolve_without_route f directive =
     (case directive of
        Hint route \<Rightarrow> apply_host_route f route
      | _ \<Rightarrow> if discover_route (frame_control (nwk_header f)) = Suppress then Ret (Discard, f)
             else Ret (NeedDiscovery, f))"

definition resolve ::
  "Routing \<Rightarrow> Neighbors \<Rightarrow> 'c NwkFrame \<Rightarrow> SendMode \<Rightarrow> Policy \<Rightarrow> (NextHop \<times> 'c NwkFrame) run" where
  "resolve routing neighbors f mode policy =
     (let dest = destination (nwk_header f) in
      case mode of
        Direct \<Rightarrow> Ret (Resolved dest, f)
      | RouteMode directive \<Rightarrow>
          (case directive of
             Force route \<Rightarrow> apply_host_route f route
           | _ \<Rightarrow>
             if end_device_child_eui64 neighbors dest \<noteq> None then Ret (Resolved dest, f)
             else run_bind
               (if is_concentrator policy \<and> \<not> force_route_discovery policy
                then route_to routing dest (max_source_route policy) else Ret None)
               (\<lambda>stored. case stored of
                  Some (RouteNextHop h) \<Rightarrow> Ret (Resolved h, f)
                | Some (SourceRouted rs) \<Rightarrow> apply_source_route f rs
                | None \<Rightarrow>
                    run_bind (if force_route_discovery policy then Ret None else next_hop routing dest)
                      (\<lambda>h. case h of
                         Some hop \<Rightarrow> Ret (Resolved hop, f)
                       | None \<Rightarrow> resolve_without_route f directive))))"

section \<open>Properties\<close>

text \<open>
  The route the stack has of its own for a destination: an end device child is reached directly, then a stored
  source route (for a concentrator), then an ad-hoc route.
\<close>

definition own_route :: "Routing \<Rightarrow> Neighbors \<Rightarrow> Nwk \<Rightarrow> Policy \<Rightarrow> Route option" where
  "own_route routing neighbors dest policy =
     (if end_device_child_eui64 neighbors dest \<noteq> None then Some (RouteNextHop dest)
      else if force_route_discovery policy then None
      else if is_concentrator policy then ret_val (route_to routing dest (max_source_route policy))
      else map_option RouteNextHop (ret_val (next_hop routing dest)))"

definition follow_route :: "'c NwkFrame \<Rightarrow> Route \<Rightarrow> (NextHop \<times> 'c NwkFrame) run" where
  "follow_route f route = (case route of RouteNextHop h \<Rightarrow> Ret (Resolved h, f) | SourceRouted rs \<Rightarrow> apply_source_route f rs)"

lemma route_to_Ret:
  assumes "routing_inv own r"
  shows "\<exists>x. route_to r d m = Ret x \<and> (\<forall>rs. x = Some (SourceRouted rs) \<longrightarrow> rs \<noteq> [] \<and> length rs < unat m) \<and>
    (x = None \<longrightarrow> next_hop r d = Ret None)"
  using next_hop_Ret [OF assms, of d] by (auto simp: route_to_def split: option.splits)

lemma own_route_source_routed:
  assumes "routing_inv own routing" "own_route routing neighbors dest policy = Some (SourceRouted rs)"
  shows "rs \<noteq> [] \<and> length rs < unat (max_source_route policy)"
  using assms(2) route_to_Ret [OF assms(1), of dest "max_source_route policy"]
  by (auto simp: own_route_def split: if_splits)

lemma resolve_route_mode:
  assumes inv: "routing_inv own routing" and "\<And>route. directive \<noteq> Force route"
  shows "resolve routing neighbors f (RouteMode directive) policy =
    (case own_route routing neighbors (destination (nwk_header f)) policy of
       Some route \<Rightarrow> follow_route f route
     | None \<Rightarrow> resolve_without_route f directive)"
proof -
  let ?dest = "destination (nwk_header f)"
  obtain x where x: "route_to routing ?dest (max_source_route policy) = Ret x"
      "x = None \<Longrightarrow> next_hop routing ?dest = Ret None"
    using route_to_Ret [OF inv] by blast
  obtain h where "next_hop routing ?dest = Ret h" using next_hop_Ret [OF inv] by blast
  with x assms(2) show ?thesis
    by (cases directive)
      (auto simp: resolve_def own_route_def follow_route_def Let_def split: option.splits Route.splits)
qed



text \<open>
  A resolution changes the frame only to give it a source route: the relays are not empty, the MAC next hop is
  the last of them and the relay index points at it, discovery is suppressed, every other field is kept, and a
  header whose flags agree with its optional fields stays so. Source routes of our own are shorter than the
  configured maximum.
\<close>
theorem resolved_source_route_wf:
  assumes "routing_reach own routing" "resolve routing neighbors f mode policy = Ret (hop, f')"
    "\<And>rs. mode = RouteMode (Hint (HostSourceRoute rs)) \<or> mode = RouteMode (Force (HostSourceRoute rs)) \<Longrightarrow>
       length rs < 256"
  shows "f' = f \<or>
    (\<exists>rs sr. rs \<noteq> [] \<and> hop = Resolved (last rs) \<and> source_route (nwk_header f') = Some sr \<and> relays sr = rs \<and>
       Suc (unat (relay_index sr)) = length rs \<and> rs ! unat (relay_index sr) = last rs \<and>
       fc_source_route (frame_control (nwk_header f')) \<and>
       discover_route (frame_control (nwk_header f')) = Suppress \<and>
       f' = f\<lparr>nwk_header := (nwk_header f)\<lparr>frame_control := frame_control (nwk_header f'),
               source_route := source_route (nwk_header f')\<rparr>\<rparr> \<and>
       (nwk_header_wf (nwk_header f) \<longrightarrow> nwk_header_wf (nwk_header f')))"
proof -
  have inv: "routing_inv own routing" by (rule routing_reach_inv [OF assms(1)])
  have src: ?thesis if "apply_source_route f rs = Ret (hop, f')" "length rs < 256" for rs
  proof -
    have rs: "rs \<noteq> []" using that(1) by (auto simp: apply_source_route_def)
    have "unat (of_nat (length rs) - 1 :: u8) = length rs - 1"
      using that(2) rs by (simp add: unat_sub_if' unat_of_nat Suc_leI)
    with that rs show ?thesis
      by (auto simp: apply_source_route_def last_conv_nth nwk_header_wf_def)
  qed
  have host: ?thesis if "apply_host_route f route = Ret (hop, f')" "\<And>rs. route = HostSourceRoute rs \<Longrightarrow> length rs < 256" for route
    using that src by (cases route) (auto simp: apply_host_route_def)
  have own: ?thesis if "follow_route f route = Ret (hop, f')"
    "own_route routing neighbors (destination (nwk_header f)) policy = Some route" for route
  proof (cases route)
    case (SourceRouted rs)
    with that own_route_source_routed [OF inv] unat_bound [of "max_source_route policy"]
    show ?thesis by (intro src [of rs]) (fastforce simp: follow_route_def)+
  qed (use that in \<open>simp add: follow_route_def\<close>)
  show ?thesis
  proof (cases mode)
    case Direct
    with assms(2) show ?thesis by (simp add: resolve_def Let_def)
  next
    case mode: (RouteMode directive)
    show ?thesis
    proof (cases directive)
      case (Force route)
      with assms(2,3) show ?thesis by (intro host [of route]) (auto simp: mode resolve_def Let_def)
    next
      case (Hint route)
      show ?thesis
      proof (cases "own_route routing neighbors (destination (nwk_header f)) policy")
        case None
        with assms(2,3) Hint show ?thesis
          by (intro host [of route]) (auto simp: mode resolve_route_mode [OF inv] resolve_without_route_def)
      next
        case (Some r)
        with assms(2) Hint show ?thesis by (intro own [of r]) (simp_all add: mode resolve_route_mode [OF inv])
      qed
    next
      case StackDecides
      show ?thesis
      proof (cases "own_route routing neighbors (destination (nwk_header f)) policy")
        case None
        with assms(2) StackDecides show ?thesis
          by (simp add: mode resolve_route_mode [OF inv] resolve_without_route_def split: if_splits)
      next
        case (Some r)
        with assms(2) StackDecides show ?thesis
          by (intro own [of r]) (simp_all add: mode resolve_route_mode [OF inv])
      qed
    qed
  qed
qed

theorem resolved_source_route_wf_witness:
  "let f = \<lparr>nwk_header = sample_header, aux_header = None, payload = Opaque [] :: u8 NwkPayload\<rparr>;
       r = resolve routing_default neighbors_default f (RouteMode (Force (HostSourceRoute [8, 9])))
             \<lparr>is_concentrator = True, force_route_discovery = False, max_source_route = 11\<rparr>
   in \<exists>hop f'. r = Ret (hop, f') \<and> hop = Resolved 9 \<and> nwk_header_wf (nwk_header f')"
proof -
  let ?f = "\<lparr>nwk_header = sample_header, aux_header = None, payload = Opaque [] :: u8 NwkPayload\<rparr>"
  let ?p = "\<lparr>is_concentrator = True, force_route_discovery = False, max_source_route = 11\<rparr>"
  obtain hop f' where r: "resolve routing_default neighbors_default ?f (RouteMode (Force (HostSourceRoute [8, 9]))) ?p
      = Ret (hop, f')" and relays: "map_option relays (source_route (nwk_header f')) = Some [8, 9]"
    by (simp add: resolve_def apply_host_route_def apply_source_route_def)
  have "nwk_header_wf sample_header" by (simp add: nwk_header_wf_def sample_header_def)
  with resolved_source_route_wf [OF routing_reach.intros(1) r] relays
  show ?thesis unfolding Let_def r by (auto simp: sample_header_def)
qed

end
