(* ===== verification/Nwk_Broadcasts.thy ===== *)
theory Nwk_Broadcasts
  imports Flat_Map "HOL-Library.Product_Lexorder"
begin

text \<open>
  The broadcast transaction table (\<^verbatim>\<open>ziggurat-zigbee/src/nwk/broadcasts.rs\<close>): deduplication of received
  broadcasts and the passive acknowledgments of our own.
\<close>

section \<open>Model\<close>

record Transaction =
  tr_expiration_time :: instant
  expected_relayers :: "Nwk list"
  heard_from :: "Nwk flat_set"

record Broadcasts =
  transactions :: "(Nwk \<times> u8, Transaction) flat_map"

definition broadcasts_default :: Broadcasts where
  "broadcasts_default = \<lparr>transactions = fm_new\<rparr>"

definition filter_received ::
  "Broadcasts \<Rightarrow> Nwk \<Rightarrow> u8 \<Rightarrow> Nwk \<Rightarrow> Nwk list \<Rightarrow> instant \<Rightarrow> duration \<Rightarrow> bool \<times> Broadcasts" where
  "filter_received b source sequence_number sender audience now delivery_time =
     (let t = fm_retain (\<lambda>_ e. tr_expiration_time e > now) (transactions b);
          key = (source, sequence_number)
      in if fm_get t key \<noteq> None then
           (True, b\<lparr>transactions := fm_get_mut t key (\<lambda>e. e\<lparr>heard_from := snd (fs_insert (heard_from e) sender)\<rparr>)\<rparr>)
         else
           (False, b\<lparr>transactions := snd (fm_insert t key
              \<lparr>tr_expiration_time = instant_add now delivery_time, expected_relayers = audience,
               heard_from = fs_from [sender]\<rparr>)\<rparr>))"

definition record_transmission ::
  "Broadcasts \<Rightarrow> Nwk \<Rightarrow> u8 \<Rightarrow> Nwk list \<Rightarrow> instant \<Rightarrow> duration \<Rightarrow> Broadcasts" where
  "record_transmission b source sequence_number audience now delivery_time =
     b\<lparr>transactions := snd (fm_insert (transactions b) (source, sequence_number)
        \<lparr>tr_expiration_time = instant_add now delivery_time, expected_relayers = audience,
         heard_from = fs_new\<rparr>)\<rparr>"

definition passively_acked :: "Broadcasts \<Rightarrow> Nwk \<Rightarrow> u8 \<Rightarrow> Nwk list \<Rightarrow> nat \<Rightarrow> bool" where
  "passively_acked b source sequence_number live_relayers quorum =
     (case fm_get (transactions b) (source, sequence_number) of
        None \<Rightarrow> True
      | Some t \<Rightarrow>
          (let audience = filter (\<lambda>nwk. nwk \<in> set live_relayers) (expected_relayers t);
               heard = length (filter (\<lambda>nwk. fs_contains (heard_from t) nwk) audience)
           in heard \<ge> min (length audience) quorum))"

section \<open>Histories\<close>

datatype broadcast_op =
    Received Nwk u8 Nwk "Nwk list" instant duration
  | Transmitted Nwk u8 "Nwk list" instant duration

fun broadcast_exec :: "broadcast_op \<Rightarrow> Broadcasts \<Rightarrow> Broadcasts" where
  "broadcast_exec (Received s n relayer aud now d) b = snd (filter_received b s n relayer aud now d)"
| "broadcast_exec (Transmitted s n aud now d) b = record_transmission b s n aud now d"

definition transactions_inv :: "Broadcasts \<Rightarrow> bool" where
  "transactions_inv b \<longleftrightarrow> fm_inv (transactions b) \<and>
     (\<forall>k t. fm_get (transactions b) k = Some t \<longrightarrow> fm_inv (heard_from t))"

lemma transactions_inv_default: "transactions_inv broadcasts_default"
  by (simp add: transactions_inv_def broadcasts_default_def tbl)

lemma transactions_inv_exec: "transactions_inv b \<Longrightarrow> transactions_inv (broadcast_exec op b)"
  by (cases op) (auto simp: transactions_inv_def filter_received_def record_transmission_def Let_def tbl
      split: if_splits option.splits)

lemma transactions_inv_run: "transactions_inv b \<Longrightarrow> transactions_inv (fold broadcast_exec ops b)"
  by (induction ops arbitrary: b) (simp_all add: transactions_inv_exec)

text \<open>
  The history of one transaction inside its delivery window: operations at instants before its expiry, in which
  the broadcast is not sent again under the same sequence number.
\<close>

fun within_window :: "Nwk \<times> u8 \<Rightarrow> instant \<Rightarrow> broadcast_op \<Rightarrow> bool" where
  "within_window k expiry (Received s n relayer aud now d) \<longleftrightarrow> now < expiry"
| "within_window k expiry (Transmitted s n aud now d) \<longleftrightarrow> (s, n) \<noteq> k"

fun relayed_by :: "Nwk \<times> u8 \<Rightarrow> broadcast_op \<Rightarrow> Nwk list" where
  "relayed_by k (Received s n relayer aud now d) = (if (s, n) = k then [relayer] else [])"
| "relayed_by k (Transmitted s n aud now d) = []"

definition tracks :: "Broadcasts \<Rightarrow> Nwk \<times> u8 \<Rightarrow> instant \<Rightarrow> Nwk list \<Rightarrow> Nwk set \<Rightarrow> bool" where
  "tracks b k expiry audience heard \<longleftrightarrow>
     (\<exists>t. fm_get (transactions b) k = Some t \<and> tr_expiration_time t = expiry \<and> expected_relayers t = audience \<and>
          {x. fs_contains (heard_from t) x} = heard)"

lemma tracks_exec:
  assumes inv: "transactions_inv b" and tr: "tracks b k expiry audience heard" and w: "within_window k expiry op"
  shows "tracks (broadcast_exec op b) k expiry audience (heard \<union> set (relayed_by k op))"
proof -
  obtain t where t: "fm_get (transactions b) k = Some t" "tr_expiration_time t = expiry"
      "expected_relayers t = audience" "{x. fs_contains (heard_from t) x} = heard"
    using tr by (auto simp: tracks_def)
  have fm: "fm_inv (transactions b)" "fm_inv (heard_from t)" using inv t(1) unfolding transactions_inv_def by blast+
  show ?thesis
  proof (cases op)
    case (Received s n relayer aud now d)
    with t fm w show ?thesis
      by (auto simp: tracks_def filter_received_def Let_def tbl)
  next
    case (Transmitted s n aud now d)
    with t fm w show ?thesis by (auto simp: tracks_def record_transmission_def tbl)
  qed
qed

lemma tracks_run:
  "transactions_inv b \<Longrightarrow> tracks b k expiry audience heard \<Longrightarrow> list_all (within_window k expiry) ops \<Longrightarrow>
   tracks (fold broadcast_exec ops b) k expiry audience (heard \<union> set (concat (map (relayed_by k) ops)))"
proof (induction ops arbitrary: b heard)
  case (Cons op ops)
  from Cons.IH [OF transactions_inv_exec tracks_exec, of b heard op] Cons.prems
  show ?case by (simp add: Un_assoc)
qed simp

lemma filter_received_fresh_tracks:
  assumes "transactions_inv b" "filter_received b s n relayer aud now d = (False, b')"
  shows "tracks b' (s, n) (instant_add now d) aud {relayer}"
  using assms by (auto simp: transactions_inv_def tracks_def filter_received_def Let_def tbl split: if_splits)

lemma record_transmission_tracks:
  "transactions_inv b \<Longrightarrow> tracks (record_transmission b s n aud now d) (s, n) (instant_add now d) aud {}"
  by (auto simp: transactions_inv_def tracks_def record_transmission_def tbl)

lemma tracks_received:
  "transactions_inv b \<Longrightarrow> tracks b (s, n) expiry audience heard \<Longrightarrow> now < expiry \<Longrightarrow>
   fst (filter_received b s n relayer aud now d)"
  by (auto simp: transactions_inv_def tracks_def filter_received_def Let_def tbl)

lemma tracks_acked:
  assumes "tracks b (s, n) expiry audience heard"
  shows "passively_acked b s n live quorum \<longleftrightarrow>
    length (filter (\<lambda>x. x \<in> set live \<and> x \<in> heard) audience) \<ge> min (length (filter (\<lambda>x. x \<in> set live) audience)) quorum"
proof -
  obtain t where t: "fm_get (transactions b) (s, n) = Some t" "expected_relayers t = audience"
      "{x. fs_contains (heard_from t) x} = heard"
    using assms by (auto simp: tracks_def)
  from t(3) have "fs_contains (heard_from t) x \<longleftrightarrow> x \<in> heard" for x by auto
  with t(1,2) show ?thesis by (simp add: passively_acked_def Let_def conj_commute)
qed

section \<open>Properties\<close>

text \<open>
  C36: A broadcast is processed once. After any history, once a broadcast was let through as fresh, or was sent by
  us, every later copy that arrives before its delivery window closes is filtered as a duplicate, whoever
  relays it and whatever else is received or sent in between.
\<close>
theorem broadcast_processed_once:
  assumes "b = fold broadcast_exec history broadcasts_default"
    and "filter_received b s n relayer aud t0 d = (False, b') \<or> b' = record_transmission b s n aud t0 d"
    and "list_all (within_window (s, n) (instant_add t0 d)) later"
    and "now < instant_add t0 d"
  shows "fst (filter_received (fold broadcast_exec later b') s n relayer' aud' now d')"
proof -
  have b: "transactions_inv b" using assms(1) by (simp add: transactions_inv_run transactions_inv_default)
  have "b' = broadcast_exec (Received s n relayer aud t0 d) b \<or> b' = broadcast_exec (Transmitted s n aud t0 d) b"
    using assms(2) by auto
  then have b': "transactions_inv b'" using transactions_inv_exec [OF b] by blast
  obtain heard where "tracks b' (s, n) (instant_add t0 d) aud heard"
    using assms(2) filter_received_fresh_tracks [OF b] record_transmission_tracks [OF b] by blast
  from tracks_run [OF b' this assms(3)] tracks_received [OF transactions_inv_run [OF b'] _ assms(4)]
  show ?thesis by blast
qed

theorem broadcast_processed_once_witness:
  "fst (filter_received (fold broadcast_exec [Received 3 1 3 [] (Instant 2) 10]
     (record_transmission broadcasts_default 0 7 [4, 5] (Instant 1) 10)) 0 7 4 [] (Instant 5) 10)"
  by (rule broadcast_processed_once [of broadcasts_default "[]" 0 7 0 "[4, 5]" "Instant 1" 10])
    (simp_all add: instant_less_iff unat_instant_add)

text \<open>
  Passive acknowledgment. Inside the delivery window a broadcast we sent counts as acknowledged exactly when,
  of the routers that were its audience and are still live neighbours, the quorum or all of them have been heard
  relaying it since.
\<close>
theorem passive_ack_exact:
  assumes "b = fold broadcast_exec history broadcasts_default"
    and "list_all (within_window (s, n) (instant_add t0 d)) later"
  shows "passively_acked (fold broadcast_exec later (record_transmission b s n aud t0 d)) s n live quorum \<longleftrightarrow>
    (let expected = filter (\<lambda>x. x \<in> set live) aud;
         heard = filter (\<lambda>x. x \<in> set (concat (map (relayed_by (s, n)) later))) expected
     in length heard \<ge> quorum \<or> heard = expected)"
proof -
  have b: "transactions_inv b" using assms(1) by (simp add: transactions_inv_run transactions_inv_default)
  have b': "transactions_inv (record_transmission b s n aud t0 d)"
    using transactions_inv_exec [OF b, of "Transmitted s n aud t0 d"] by simp
  have eq: "length (filter P xs) \<ge> min (length xs) q \<longleftrightarrow> length (filter P xs) \<ge> q \<or> filter P xs = xs"
    for P :: "Nwk \<Rightarrow> bool" and xs q
  proof -
    have "length (filter P xs) \<ge> length xs \<longleftrightarrow> filter P xs = xs"
      using length_filter_le [of P xs] by (metis filter_id_conv le_antisym length_filter_less nle_le not_less)
    then show ?thesis by linarith
  qed
  from tracks_acked [OF tracks_run [OF b' record_transmission_tracks [OF b] assms(2)], of live quorum]
    eq [where P = "\<lambda>x. x \<in> set (concat (map (relayed_by (s, n)) later))" and xs = "filter (\<lambda>x. x \<in> set live) aud" and q = quorum]
  show ?thesis by (simp add: Let_def conj_commute)
qed

theorem passive_ack_exact_witness:
  "passively_acked (fold broadcast_exec [Received 0 7 4 [] (Instant 2) 10]
     (record_transmission broadcasts_default 0 7 [4, 5] (Instant 1) 10)) 0 7 [4, 5] 1"
  using passive_ack_exact [of broadcasts_default "[]" 0 7 "Instant 1" 10 "[Received 0 7 4 [] (Instant 2) 10]" "[4, 5]" "[4, 5]" 1]
  by (simp add: instant_less_iff unat_instant_add)

end
