(* ===== verification/Tunables.thy ===== *)
theory Tunables
  imports Prelude
begin

text \<open>
  The runtime parameters of \<^verbatim>\<open>ziggurat-zigbee/src/constants.rs\<close>. The macro \<^verbatim>\<open>tunables!\<close> expands one list of
  fields into a struct, its defaults, the typed getters and the setter by name. The model keeps that list: a
  field has a name, a type and a default, and the store maps each name to the raw value held in its atomic
  (booleans as 0 and 1, durations in microseconds, enumerations as their discriminant). \<^verbatim>\<open>usize\<close> is 64 bits.
\<close>

section \<open>Field types\<close>

datatype EndDeviceTimeout =
    Seconds10 | Minutes2 | Minutes4 | Minutes8 | Minutes16 | Minutes32 | Minutes64 | Minutes128
  | Minutes256 | Minutes512 | Minutes1024 | Minutes2048 | Minutes4096 | Minutes8192 | Minutes16384

definition end_device_timeouts :: "EndDeviceTimeout list" where
  "end_device_timeouts =
     [Seconds10, Minutes2, Minutes4, Minutes8, Minutes16, Minutes32, Minutes64, Minutes128,
      Minutes256, Minutes512, Minutes1024, Minutes2048, Minutes4096, Minutes8192, Minutes16384]"

text \<open>The conversion from the discriminant that the enumeration derives.\<close>

definition end_device_timeout_try_from :: "u8 \<Rightarrow> EndDeviceTimeout option" where
  "end_device_timeout_try_from n =
     (if unat n < length end_device_timeouts then Some (end_device_timeouts ! unat n) else None)"

definition end_device_timeout_discriminant :: "EndDeviceTimeout \<Rightarrow> nat" where
  "end_device_timeout_discriminant t = length (takeWhile (\<lambda>x. x \<noteq> t) end_device_timeouts)"

definition end_device_timeout_duration :: "EndDeviceTimeout \<Rightarrow> duration" where
  "end_device_timeout_duration t =
     (if t = Seconds10 then 10 * 1000000 else 60 * 2 ^ end_device_timeout_discriminant t * 1000000)"

lemma end_device_timeout_roundtrip:
  "end_device_timeout_try_from (of_nat (end_device_timeout_discriminant t)) = Some t"
  by (cases t) (simp_all add: end_device_timeout_try_from_def end_device_timeout_discriminant_def end_device_timeouts_def)

datatype tunable_type = TU8 | TUsize | TBool | TDuration | TEndDeviceTimeout

text \<open>\<^verbatim>\<open>TunableValue::decode\<close>: the raw value that is stored, or a rejection.\<close>

fun tunable_decode :: "tunable_type \<Rightarrow> u64 \<Rightarrow> u64 option" where
  "tunable_decode TU8 raw = (if raw < 2 ^ 8 then Some raw else None)"
| "tunable_decode TUsize raw = Some raw"
| "tunable_decode TBool raw = (if raw = 0 \<or> raw = 1 then Some raw else None)"
| "tunable_decode TDuration raw = (if raw < 2 ^ 32 then Some raw else None)"
| "tunable_decode TEndDeviceTimeout raw =
     (if raw < 2 ^ 8 \<and> end_device_timeout_try_from (ucast raw) \<noteq> None then Some raw else None)"

section \<open>The field list\<close>

definition tunable_fields :: "(string \<times> tunable_type \<times> u64) list" where
  "tunable_fields =
    [(''concentrator_radius'', TU8, 10),
     (''transaction_persistence_time'', TDuration, 7680000),
     (''max_source_route'', TU8, 12),
     (''max_children'', TU8, 32),
     (''allow_unsecured_rejoins'', TBool, 0),
     (''allow_unencrypted_router_device_update'', TBool, 0),
     (''passive_ack_timeout'', TDuration, 500000),
     (''max_broadcast_retries'', TU8, 2),
     (''broadcast_passive_ack_quorum'', TUsize, 8),
     (''mtorr_min_interval'', TDuration, 10000000),
     (''mtorr_max_interval'', TDuration, 60000000),
     (''mtorr_route_error_threshold'', TU8, 3),
     (''mtorr_delivery_failure_threshold'', TU8, 1),
     (''link_status_period'', TDuration, 15000000),
     (''router_age_limit'', TU8, 3),
     (''route_discovery_time'', TDuration, 10000000),
     (''max_broadcast_jitter'', TDuration, 64000),
     (''initial_rreq_retries'', TU8, 3),
     (''rreq_retries'', TU8, 2),
     (''rreq_retry_interval'', TDuration, 254000),
     (''min_rreq_jitter'', TDuration, 2000),
     (''max_rreq_jitter'', TDuration, 128000),
     (''unicast_retries'', TU8, 3),
     (''unicast_retry_delay'', TDuration, 50000),
     (''broadcast_delivery_time'', TDuration, 9000000),
     (''pending_route_discovery_attempts'', TU8, 1),
     (''end_device_timeout_default'', TEndDeviceTimeout, 8),
     (''parent_annce_base_timer'', TDuration, 10000000),
     (''parent_annce_jitter_max'', TDuration, 10000000),
     (''aps_duplicate_rejection_timeout'', TDuration, 9000000),
     (''aps_ack_timeout'', TDuration, 5000000),
     (''handoff_timeout'', TDuration, 30000000),
     (''mac_max_csma_backoffs'', TU8, 2),
     (''mac_max_frame_retries'', TU8, 5),
     (''broadcast_budget_tokens'', TU8, 40),
     (''broadcast_token_refill'', TDuration, 675000),
     (''broadcast_critical_reserve'', TU8, 3),
     (''broadcast_forwarding_reserve'', TU8, 2)]"

type_synonym Tunables = "string \<Rightarrow> u64"

definition tunable_type_of :: "string \<Rightarrow> tunable_type option" where
  "tunable_type_of name = map_option fst (map_of tunable_fields name)"

definition tunables_default :: Tunables where
  "tunables_default name = (case map_of tunable_fields name of Some (_, d) \<Rightarrow> d | None \<Rightarrow> 0)"

datatype TunableError = UnknownName | InvalidValue

definition tunables_set :: "Tunables \<Rightarrow> string \<Rightarrow> u64 \<Rightarrow> TunableError + Tunables" where
  "tunables_set t name raw =
     (case tunable_type_of name of
        None \<Rightarrow> Inl UnknownName
      | Some ty \<Rightarrow>
          (case tunable_decode ty raw of None \<Rightarrow> Inl InvalidValue | Some v \<Rightarrow> Inr (t(name := v))))"

section \<open>Typed getters\<close>

definition get_u8 :: "Tunables \<Rightarrow> string \<Rightarrow> u8" where
  "get_u8 t name = ucast (t name)"

definition get_duration :: "Tunables \<Rightarrow> string \<Rightarrow> duration" where
  "get_duration t name = unat (t name)"

definition get_end_device_timeout :: "Tunables \<Rightarrow> string \<Rightarrow> EndDeviceTimeout run" where
  "get_end_device_timeout t name = unwrap (end_device_timeout_try_from (ucast (t name)))"

abbreviation "transaction_persistence_time t \<equiv> get_duration t ''transaction_persistence_time''"
abbreviation "handoff_timeout t \<equiv> get_duration t ''handoff_timeout''"
abbreviation "unicast_retries t \<equiv> get_u8 t ''unicast_retries''"
abbreviation "pending_route_discovery_attempts t \<equiv> get_u8 t ''pending_route_discovery_attempts''"

section \<open>Properties\<close>

definition tunables_typed :: "Tunables \<Rightarrow> bool" where
  "tunables_typed t \<longleftrightarrow> (\<forall>name ty. tunable_type_of name = Some ty \<longrightarrow> tunable_decode ty (t name) = Some (t name))"

lemma tunable_decode_same: "tunable_decode ty raw = Some v \<Longrightarrow> v = raw"
  by (cases ty) (auto split: if_splits)

lemma end_device_timeout_default_ok: "end_device_timeout_try_from 8 = Some Minutes256"
  by (simp add: end_device_timeout_try_from_def end_device_timeouts_def)

lemma tunable_fields_typed: "list_all (\<lambda>(_, ty, d). tunable_decode ty d = Some d) tunable_fields"
  by (simp add: tunable_fields_def end_device_timeout_default_ok word_less_nat_alt)

lemma tunables_default_typed: "tunables_typed tunables_default"
proof -
  have "tunable_decode ty d = Some d" if "map_of tunable_fields name = Some (ty, d)" for name ty d
    using map_of_SomeD [OF that] tunable_fields_typed by (auto simp: list_all_iff)
  then show ?thesis
    by (auto simp: tunables_typed_def tunable_type_of_def tunables_default_def)
qed

lemma tunables_set_typed: "tunables_typed t \<Longrightarrow> tunables_set t name raw = Inr t' \<Longrightarrow> tunables_typed t'"
  by (auto simp: tunables_typed_def tunables_set_def split: option.splits) (metis tunable_decode_same)

text \<open>A sequence of set commands; a rejected one leaves the store as it is.\<close>

definition tunables_step :: "string \<times> u64 \<Rightarrow> Tunables \<Rightarrow> Tunables" where
  "tunables_step c t = (case tunables_set t (fst c) (snd c) of Inl _ \<Rightarrow> t | Inr t' \<Rightarrow> t')"

lemma tunables_run_typed: "tunables_typed t \<Longrightarrow> tunables_typed (fold tunables_step cs t)"
  by (induction cs arbitrary: t) (auto simp: tunables_step_def tunables_set_typed split: sum.splits)

text \<open>
  C37: The store is well typed after any sequence of set commands, whatever names and raw values they carry: every
  field holds a value of its type, so loading an enumeration never hits the unreachable branch. A command is
  rejected exactly when the name is unknown or the value is out of range for the field, and an accepted one
  changes that field alone.
\<close>
theorem tunables_well_typed:
  "let t = fold tunables_step cs tunables_default in
   (\<forall>name ty. tunable_type_of name = Some ty \<longrightarrow> tunable_decode ty (t name) = Some (t name)) \<and>
   (\<forall>name. tunable_type_of name = Some TEndDeviceTimeout \<longrightarrow> get_end_device_timeout t name \<noteq> Panic) \<and>
   (\<forall>name raw. tunables_set t name raw =
      (if tunable_type_of name = None then Inl UnknownName
       else if tunable_decode (the (tunable_type_of name)) raw = None then Inl InvalidValue
       else Inr (t(name := raw))))"
proof -
  define t where "t = fold tunables_step cs tunables_default"
  have typed: "tunables_typed t" by (simp add: t_def tunables_run_typed tunables_default_typed)
  have "get_end_device_timeout t name \<noteq> Panic" if "tunable_type_of name = Some TEndDeviceTimeout" for name
  proof -
    have "tunable_decode TEndDeviceTimeout (t name) = Some (t name)" using typed that unfolding tunables_typed_def by blast
    then show ?thesis by (auto simp: get_end_device_timeout_def split: if_splits)
  qed
  moreover have "tunables_set t name raw =
      (if tunable_type_of name = None then Inl UnknownName
       else if tunable_decode (the (tunable_type_of name)) raw = None then Inl InvalidValue
       else Inr (t(name := raw)))" for name raw
    by (auto simp: tunables_set_def dest: tunable_decode_same split: option.splits)
  ultimately show ?thesis using typed by (simp add: t_def [symmetric] tunables_typed_def)
qed

theorem tunables_well_typed_witness:
  "let t = fold tunables_step [(''unicast_retries'', 300), (''end_device_timeout_default'', 2)] tunables_default in
   get_end_device_timeout t ''end_device_timeout_default'' \<noteq> Panic \<and>
   tunables_set t ''unicast_retries'' 256 = Inl InvalidValue"
  using tunables_well_typed [of "[(''unicast_retries'', 300), (''end_device_timeout_default'', 2)]"]
  by (simp add: Let_def tunable_type_of_def tunable_fields_def word_less_nat_alt)

end
