(* ===== verification/Sends_Base.thy ===== *)
theory Sends_Base
  imports Flat_Map Tunables "HOL-Library.Multiset" "HOL-Library.Product_Lexorder"
begin

text \<open>
  What the three send tables of \<^verbatim>\<open>ziggurat-zigbee/src/sends\<close> share (\<^verbatim>\<open>sends/mod.rs\<close>): identifiers,
  priorities, verdicts and the actions a mutation returns to the driver. The frame type \<open>'f\<close>, the waiter
  type \<open>'w\<close> and the driver's error type \<open>'e\<close> are parameters, as in the source; the conversion of a
  failure into an error (\<^verbatim>\<open>From<SendFailure>\<close>) is an argument of the operations that use it.

  The locale \<open>settling\<close> states what the tables have in common: settling a record removes it and reports its
  waiter once. A loop that settles a list of records then settles each of them exactly once.
\<close>

section \<open>Types\<close>

type_synonym SendId = u32

datatype TxPriority = Background | UserLow | UserNormal | UserHigh | UserCritical | StackCritical

fun priority_rank :: "TxPriority \<Rightarrow> nat" where
  "priority_rank Background = 0" | "priority_rank UserLow = 1" | "priority_rank UserNormal = 2"
| "priority_rank UserHigh = 3" | "priority_rank UserCritical = 4" | "priority_rank StackCritical = 5"

lemma priority_rank_inject [simp]: "priority_rank p = priority_rank q \<longleftrightarrow> p = q"
  by (cases p; cases q) simp_all

instantiation TxPriority :: linorder
begin

definition less_eq_TxPriority :: "TxPriority \<Rightarrow> TxPriority \<Rightarrow> bool" where
  "less_eq_TxPriority p q \<longleftrightarrow> priority_rank p \<le> priority_rank q"

definition less_TxPriority :: "TxPriority \<Rightarrow> TxPriority \<Rightarrow> bool" where
  "less_TxPriority p q \<longleftrightarrow> priority_rank p < priority_rank q"

instance
  by standard (auto simp: less_eq_TxPriority_def less_TxPriority_def)

end

definition from_host :: "u8 \<Rightarrow> TxPriority" where
  "from_host value =
     (if sint value \<le> -2 then Background else if sint value = -1 then UserLow
      else if sint value = 0 then UserNormal else if sint value = 1 then UserHigh else UserCritical)"

record ApsAckData =
  ack_src :: Nwk
  ack_destination_endpoint :: "u8 option"
  ack_cluster_id :: "u16 option"
  ack_profile_id :: "u16 option"
  ack_source_endpoint :: "u8 option"
  ack_counter :: u8

datatype SendFailure =
    HandoffTimeout | ApsAckTimeout | IndirectExpired Ieee802154Address | RouteDiscoveryTimeout
  | BroadcastQuorumNotReached | Cancelled

datatype Confirm = OnHandoff | ApsAck ApsAckData duration

datatype Transmit = TxUnicast Nwk bool | TxBroadcast

record 'f InFlight =
  fl_id :: SendId
  fl_frame :: 'f
  fl_transmit :: Transmit

text \<open>\<^verbatim>\<open>Result<(), E>\<close>; a settled action carries the waiter, the result, the frame and the failed hop.\<close>

type_synonym 'e verdict = "'e + unit"

datatype ('f, 'w, 'e) Action = HandedOff 'w | Settled 'w "'e verdict" 'f "Nwk option"

type_synonym ('f, 'w, 'e) Actions = "('f, 'w, 'e) Action list"

record SrcMatchTable =
  short_addresses :: "Nwk flat_set"
  extended_addresses :: "Eui64 flat_set"

definition src_match_contains :: "SrcMatchTable \<Rightarrow> Ieee802154Address \<Rightarrow> bool" where
  "src_match_contains t a =
     (case a of NwkAddr n \<Rightarrow> fs_contains (short_addresses t) n | Eui64Addr e \<Rightarrow> fs_contains (extended_addresses t) e)"

section \<open>Choosing the next send\<close>

text \<open>\<^verbatim>\<open>Iterator::max_by_key\<close>: the last of the elements with the greatest key.\<close>

fun max_by_key :: "('a \<Rightarrow> 'k::linorder) \<Rightarrow> 'a list \<Rightarrow> 'a option" where
  "max_by_key key [] = None"
| "max_by_key key (x # xs) = Some (fold (\<lambda>y best. if key best \<le> key y then y else best) xs x)"

text \<open>\<^verbatim>\<open>(priority, Reverse(id))\<close>: the order of the complement is the reversed order of the identifiers.\<close>

definition queue_key :: "TxPriority \<Rightarrow> SendId \<Rightarrow> TxPriority \<times> SendId" where
  "queue_key p i = (p, - 1 - i)"

lemma max_by_key_fold:
  fixes key :: "'a \<Rightarrow> 'k::linorder"
  shows
  "key x \<le> key (fold (\<lambda>y best. if key best \<le> key y then y else best) xs x) \<and>
   fold (\<lambda>y best. if key best \<le> key y then y else best) xs x \<in> insert x (set xs) \<and>
   (\<forall>y \<in> set xs. key y \<le> key (fold (\<lambda>y best. if key best \<le> key y then y else best) xs x))"
proof (induction xs arbitrary: x)
  case (Cons y ys)
  show ?case
  proof (cases "key x \<le> key y")
    case True
    with Cons.IH [of y] show ?thesis by (auto intro: order_trans [of "key x" "key y"])
  next
    case False
    with Cons.IH [of x] show ?thesis by (auto intro: order_trans [of "key y" "key x"])
  qed
qed simp

lemma max_by_key_SomeD:
  "max_by_key key xs = Some m \<Longrightarrow> m \<in> set xs \<and> (\<forall>y \<in> set xs. key y \<le> key m)"
  using max_by_key_fold [of key] by (cases xs) auto

lemma max_by_key_None [simp]: "max_by_key key xs = None \<longleftrightarrow> xs = []"
  by (cases xs) simp_all

lemma complement_le: "- 1 - i \<le> - 1 - j \<longleftrightarrow> j \<le> i" for i j :: "'a::len word"
proof -
  have u: "unat (- 1 - x) = 2 ^ LENGTH('a) - 1 - unat x" for x :: "'a word"
  proof -
    have "unat x \<le> unat (- 1 :: 'a word)" using unat_bound [of x] unfolding unat_max by linarith
    then show ?thesis by (simp add: unat_sub_if' unat_max)
  qed
  show ?thesis unfolding word_le_nat_alt u using unat_bound [of i] unat_bound [of j] by linarith
qed

lemma queue_key_le: "queue_key p i \<le> queue_key q j \<longleftrightarrow> p < q \<or> p = q \<and> j \<le> i"
  by (auto simp: queue_key_def less_eq_prod_def complement_le)

section \<open>Accounting of waiters\<close>

text \<open>The waiters that a list of actions gives their verdict.\<close>

fun settled_waiter :: "('f, 'w, 'e) Action \<Rightarrow> 'w multiset" where
  "settled_waiter (HandedOff w) = {#}"
| "settled_waiter (Settled w res f hop) = {#w#}"

definition settled_waiters :: "('f, 'w, 'e) Actions \<Rightarrow> 'w multiset" where
  "settled_waiters as = sum_list (map settled_waiter as)"

lemma settled_waiters_simps [simp]:
  "settled_waiters [] = {#}"
  "settled_waiters (a # as) = settled_waiter a + settled_waiters as"
  "settled_waiters (as @ bs) = settled_waiters as + settled_waiters bs"
  by (simp_all add: settled_waiters_def)

definition live_waiters :: "('r \<Rightarrow> 'w) \<Rightarrow> (SendId, 'r) flat_map \<Rightarrow> 'w multiset" where
  "live_waiters waiter m = image_mset (\<lambda>e. waiter (snd e)) (mset m)"

lemma live_waiters_new [simp]: "live_waiters w fm_new = {#}" "live_waiters w [] = {#}"
  by (simp_all add: live_waiters_def fm_new_def)

lemma live_waiters_remove:
  "fm_inv m \<Longrightarrow> fm_get m k = Some r \<Longrightarrow> live_waiters w m = add_mset (w r) (live_waiters w (snd (fm_remove m k)))"
proof -
  assume m: "fm_inv m" and g: "fm_get m k = Some r"
  obtain i where i: "index_of m k = Inr i" "i < length m" "snd (m ! i) = r"
    using g index_of_InrD [OF m] by (auto simp: fm_get_def split: sum.splits)
  have "m = take i m @ m ! i # drop (Suc i) m" using i(2) by (simp add: id_take_nth_drop)
  then have "live_waiters w m = live_waiters w (take i m @ m ! i # drop (Suc i) m)" by simp
  then show ?thesis using i by (simp add: live_waiters_def fm_remove_def split_beta)
qed

lemma live_waiters_insert:
  "fm_inv m \<Longrightarrow> fm_get m k = None \<Longrightarrow> live_waiters w (snd (fm_insert m k r)) = add_mset (w r) (live_waiters w m)"
proof -
  assume m: "fm_inv m" and g: "fm_get m k = None"
  obtain i where i: "index_of m k = Inl i" using g by (auto simp: fm_get_def split: sum.splits)
  have "mset m = mset (take i m) + mset (drop i m)" by (simp flip: mset_append)
  with i show ?thesis by (simp add: live_waiters_def fm_insert_def)
qed

lemma live_waiters_values_mut [simp]:
  "(\<And>r. w (f r) = w r) \<Longrightarrow> live_waiters w (fm_values_mut f m) = live_waiters w m"
  by (simp add: live_waiters_def fm_values_mut_def image_mset.compositionality comp_def split_beta flip: mset_map)

lemma live_waiters_get_mut:
  assumes "fm_inv m" "fm_get m k = Some r" "w (f r) = w r"
  shows "live_waiters w (fm_get_mut m k f) = live_waiters w m"
proof -
  obtain i where i: "index_of m k = Inr i" "i < length m" "snd (m ! i) = r"
    using assms(2) index_of_InrD [OF assms(1)] by (auto simp: fm_get_def split: sum.splits)
  then have "fm_get_mut m k f = m[i := (fst (m ! i), f r)]"
    by (simp add: fm_get_mut_def fm_modify_at_def split_beta)
  moreover have "map (\<lambda>e. w (snd e)) (m[i := (fst (m ! i), f r)]) = map (\<lambda>e. w (snd e)) m"
    using i assms(3) by (simp add: map_update split_beta list_update_same_conv)
  ultimately show ?thesis by (metis live_waiters_def mset_map)
qed

lemma get_mut_twice: "fm_inv m \<Longrightarrow> fm_get_mut (fm_get_mut m i f) i g = fm_get_mut m i (\<lambda>r. g (f r))"
  by (rule fm.iter_eq_iff_get_eq [THEN iffD2]) (auto simp: tbl option.map_comp comp_def fun_eq_iff)

lemma remove_get_mut: "fm_inv m \<Longrightarrow> snd (fm_remove (fm_get_mut m i f) i) = snd (fm_remove m i)"
  by (rule fm.iter_eq_iff_get_eq [THEN iffD2]) (auto simp: tbl fun_eq_iff)

section \<open>Settling records\<close>

text \<open>The loop \<^verbatim>\<open>for .. in .. { self.settle(..) }\<close>: the actions of the settlements in order.\<close>

fun settle_each :: "('v \<Rightarrow> 't \<Rightarrow> ('a list \<times> 't) run) \<Rightarrow> 'v list \<Rightarrow> 't \<Rightarrow> ('a list \<times> 't) run" where
  "settle_each settle [] t = Ret ([], t)"
| "settle_each settle (v # vs) t =
     run_bind (settle v t) (\<lambda>(as, t1). run_bind (settle_each settle vs t1) (\<lambda>(bs, t2). Ret (as @ bs, t2)))"

text \<open>The loop that collects, in order, the records to settle with their verdicts.\<close>

definition verdict_list :: "('r \<Rightarrow> 'v option) \<Rightarrow> (SendId, 'r) flat_map \<Rightarrow> (SendId \<times> 'v) list" where
  "verdict_list g m = List.map_filter (\<lambda>(i, r). map_option (Pair i) (g r)) m"

lemma verdict_list_simps [simp]:
  "verdict_list g [] = []"
  "verdict_list g ((i, r) # m) = (case g r of None \<Rightarrow> verdict_list g m | Some v \<Rightarrow> (i, v) # verdict_list g m)"
  by (simp_all add: verdict_list_def split: option.split)

lemma verdict_list_ids: "map fst (verdict_list g m) = map fst (filter (\<lambda>(_, r). g r \<noteq> None) m)"
  by (induction m) (auto split: option.split)

lemma distinct_verdict_list: "fm_inv m \<Longrightarrow> distinct (map fst (verdict_list g m))"
  using fm_inv_distinct [of m] by (simp add: verdict_list_ids distinct_map_filter)

lemma verdict_list_id_iff:
  assumes "fm_inv m"
  shows "i \<in> fst ` set (verdict_list g m) \<longleftrightarrow> (\<exists>r. fm_get m i = Some r \<and> g r \<noteq> None)"
proof -
  have "fst ` set (verdict_list g m) = fst ` set (filter (\<lambda>(_, r). g r \<noteq> None) m)"
    using verdict_list_ids [of g m] by (metis set_map)
  then show ?thesis by (force simp: fm.iter_iff_get [OF assms, symmetric] image_iff)
qed

locale settling =
  fixes settle :: "SendId \<times> 'v \<Rightarrow> (SendId, 'r) flat_map \<Rightarrow> (('f, 'w, 'e) Actions \<times> (SendId, 'r) flat_map) run"
    and waiter :: "'r \<Rightarrow> 'w"
    and report :: "'r \<Rightarrow> 'v \<Rightarrow> ('f, 'w, 'e) Actions"
    and at_rest :: "'r \<Rightarrow> bool"
  assumes settle_at_rest: "fm_inv m \<Longrightarrow> fm_get m k = Some r \<Longrightarrow> at_rest r \<Longrightarrow>
      settle (k, v) m = Ret (report r v, snd (fm_remove m k))"
    and report_settles: "at_rest r \<Longrightarrow> settled_waiters (report r v) = {#waiter r#}"
begin

lemma settle_one:
  assumes "fm_inv m" "fm_get m k = Some r" "at_rest r"
  shows "settle (k, v) m = Ret (report r v, snd (fm_remove m k))"
    and "live_waiters waiter m = live_waiters waiter (snd (fm_remove m k)) + settled_waiters (report r v)"
  using settle_at_rest [OF assms] report_settles [OF assms(3)] live_waiters_remove [OF assms(1,2)] by simp_all

lemma settle_each_settles:
  assumes "fm_inv m" "distinct (map fst vs)" "\<And>k. k \<in> fst ` set vs \<Longrightarrow> \<exists>r. fm_get m k = Some r \<and> at_rest r"
  shows "\<exists>m'. settle_each settle vs m = Ret (concat (map (\<lambda>(k, v). report (the (fm_get m k)) v) vs), m') \<and>
    fm_inv m' \<and> (\<forall>k. fm_get m' k = (if k \<in> fst ` set vs then None else fm_get m k)) \<and>
    live_waiters waiter m = live_waiters waiter m' +
      settled_waiters (concat (map (\<lambda>(k, v). report (the (fm_get m k)) v) vs))"
  using assms
proof (induction vs arbitrary: m)
  case (Cons kv vs)
  obtain k v where kv: "kv = (k, v)" by (cases kv)
  obtain r where r: "fm_get m k = Some r" "at_rest r" using Cons.prems(3) by (auto simp: kv)
  let ?m = "snd (fm_remove m k)"
  have get: "fm_get ?m j = (if j = k then None else fm_get m j)" for j using Cons.prems(1) by (auto simp: tbl)
  have fresh: "k \<notin> fst ` set vs" "distinct (map fst vs)" using Cons.prems(2) by (auto simp: kv)
  have rest: "\<exists>r. fm_get ?m j = Some r \<and> at_rest r" if "j \<in> fst ` set vs" for j
    using Cons.prems(3) [of j] fresh(1) that by (auto simp: get)
  have same: "map (\<lambda>(j, u). report (the (fm_get ?m j)) u) vs = map (\<lambda>(j, u). report (the (fm_get m j)) u) vs"
    using fresh(1) by (auto simp: get image_iff split_beta)
  obtain m' where m': "settle_each settle vs ?m = Ret (concat (map (\<lambda>(k, v). report (the (fm_get m k)) v) vs), m')"
      "fm_inv m'" "\<forall>j. fm_get m' j = (if j \<in> fst ` set vs then None else fm_get ?m j)"
      "live_waiters waiter ?m = live_waiters waiter m' +
        settled_waiters (concat (map (\<lambda>(k, v). report (the (fm_get m k)) v) vs))"
    using Cons.IH [of ?m, OF fm.inv_remove [OF Cons.prems(1)] fresh(2) rest]
    unfolding same by blast
  with settle_one [OF Cons.prems(1) r, of v] r(1) show ?case by (auto simp: kv get)
qed simp

lemma settle_verdicts:
  assumes m: "fm_inv m" and g: "\<And>i r. fm_get m i = Some r \<Longrightarrow> g r \<noteq> None \<Longrightarrow> at_rest r"
  shows "\<exists>as m'. settle_each settle (verdict_list g m) m = Ret (as, m') \<and>
    as = concat (map (\<lambda>(i, v). report (the (fm_get m i)) v) (verdict_list g m)) \<and> fm_inv m' \<and>
    (\<forall>i. fm_get m' i = (case fm_get m i of Some r \<Rightarrow> if g r = None then Some r else None | None \<Rightarrow> None)) \<and>
    live_waiters waiter m = live_waiters waiter m' + settled_waiters as"
proof -
  have "\<exists>r. fm_get m i = Some r \<and> at_rest r" if "i \<in> fst ` set (verdict_list g m)" for i
    using that g unfolding verdict_list_id_iff [OF m] by blast
  from settle_each_settles [OF m distinct_verdict_list [OF m] this]
  obtain m' where m': "settle_each settle (verdict_list g m) m =
         Ret (concat (map (\<lambda>(i, v). report (the (fm_get m i)) v) (verdict_list g m)), m')" "fm_inv m'"
      "\<And>i. fm_get m' i = (if i \<in> fst ` set (verdict_list g m) then None else fm_get m i)"
      "live_waiters waiter m = live_waiters waiter m' +
         settled_waiters (concat (map (\<lambda>(i, v). report (the (fm_get m i)) v) (verdict_list g m)))"
    by blast
  have "fm_get m' i = (case fm_get m i of Some r \<Rightarrow> if g r = None then Some r else None | None \<Rightarrow> None)" for i
    unfolding m'(3) verdict_list_id_iff [OF m] by (auto split: option.splits)
  with m' show ?thesis by blast
qed

end

section \<open>Steps of a table\<close>

text \<open>
  The contract of a mutation of a send table: it does not panic, keeps the table's invariant, adds no record,
  leaves the given sends in the radio, and every waiter that was live is still live or is given its verdict, once.
\<close>

definition table_step ::
  "('t \<Rightarrow> bool) \<Rightarrow> ('t \<Rightarrow> SendId set) \<Rightarrow> ('t \<Rightarrow> 'i set) \<Rightarrow> ('t \<Rightarrow> 'w multiset) \<Rightarrow> 'i set \<Rightarrow> 't \<Rightarrow>
   (('f, 'w, 'e) Actions \<times> 't) run \<Rightarrow> bool" where
  "table_step invar ids radio waiters R t res \<longleftrightarrow>
     (\<exists>as t'. res = Ret (as, t') \<and> invar t' \<and> ids t' \<subseteq> ids t \<and> radio t' = R \<and>
        waiters t = waiters t' + settled_waiters as)"

lemma table_stepI:
  "res = Ret (as, t') \<Longrightarrow> invar t' \<Longrightarrow> ids t' \<subseteq> ids t \<Longrightarrow> radio t' = R \<Longrightarrow>
   waiters t = waiters t' + settled_waiters as \<Longrightarrow> table_step invar ids radio waiters R t res"
  by (auto simp: table_step_def)

lemma table_stepE:
  assumes "table_step invar ids radio waiters R t res"
  obtains as t' where "res = Ret (as, t')" "invar t'" "ids t' \<subseteq> ids t" "radio t' = R"
    "waiters t = waiters t' + settled_waiters as"
  using assms by (auto simp: table_step_def)

definition record_ids :: "(SendId, 'r) flat_map \<Rightarrow> SendId set" where
  "record_ids m = {i. fm_get m i \<noteq> None}"

lemma record_ids_simps [simp]:
  "fm_inv m \<Longrightarrow> record_ids (snd (fm_insert m i r)) = insert i (record_ids m)"
  "fm_inv m \<Longrightarrow> record_ids (snd (fm_remove m i)) = record_ids m - {i}"
  "fm_inv m \<Longrightarrow> record_ids (fm_get_mut m i f) = record_ids m"
  "fm_inv m \<Longrightarrow> record_ids (fm_values_mut f m) = record_ids m"
  "record_ids fm_new = {}"
  by (auto simp: record_ids_def tbl)

end
