(* ===== verification/Unicasts.thy ===== *)
theory Unicasts
  imports Sends_Base
begin

text \<open>
  Unicasts with a known next hop (\<^verbatim>\<open>ziggurat-zigbee/src/sends/unicasts.rs\<close>): delivered directly with
  retries, or to a sleepy child when it polls. The table is the \<^verbatim>\<open>FlatMap\<close> of its records.
\<close>

section \<open>Model\<close>

record ('f, 'w) Unicast =
  u_frame :: 'f
  u_priority :: TxPriority
  u_waiter :: 'w
  u_confirm :: Confirm
  u_next_hop :: Nwk
  u_poll_address :: "Ieee802154Address option"

datatype Stage = Queued | Transmitting bool | Retrying instant | AwaitingPoll | AwaitingApsAck

record ('f, 'w) UnicastRecord =
  ur_frame :: "'f option"
  ur_priority :: TxPriority
  ur_waiter :: 'w
  ur_confirm :: Confirm
  ur_next_hop :: Nwk
  ur_poll_address :: "Ieee802154Address option"
  attempts_remaining :: u8
  ur_stage :: Stage
  ur_deadline :: instant
  copy_of :: "SendId option"

type_synonym ('f, 'w) Unicasts = "(SendId, ('f, 'w) UnicastRecord) flat_map"

definition is_transmitting_stage :: "Stage \<Rightarrow> bool" where
  "is_transmitting_stage s = (case s of Transmitting _ \<Rightarrow> True | _ \<Rightarrow> False)"

definition pending_for :: "('f, 'w) UnicastRecord \<Rightarrow> Ieee802154Address option" where
  "pending_for r =
     (case ur_poll_address r of
        Some a \<Rightarrow> (if ur_stage r = AwaitingPoll \<or> ur_stage r = Queued \<or> is_transmitting_stage (ur_stage r)
                   then Some a else None)
      | None \<Rightarrow> None)"

definition deadline_failure :: "('f, 'w) UnicastRecord \<Rightarrow> SendFailure option" where
  "deadline_failure r =
     (case ur_stage r of
        Transmitting _ \<Rightarrow> None
      | AwaitingApsAck \<Rightarrow> Some ApsAckTimeout
      | _ \<Rightarrow> (case ur_poll_address r of None \<Rightarrow> Some HandoffTimeout | Some d \<Rightarrow> Some (IndirectExpired d)))"

definition unicast_next_wake :: "('f, 'w) UnicastRecord \<Rightarrow> instant option" where
  "unicast_next_wake r =
     (case ur_stage r of
        Transmitting _ \<Rightarrow> None
      | Retrying at \<Rightarrow> Some (min at (ur_deadline r))
      | _ \<Rightarrow> Some (ur_deadline r))"

definition unicasts_enqueue ::
  "('f, 'w) Unicasts \<Rightarrow> SendId \<Rightarrow> ('f, 'w) Unicast \<Rightarrow> instant \<Rightarrow> instant option \<Rightarrow> SendId option \<Rightarrow> Tunables \<Rightarrow> ('f, 'w) Unicasts" where
  "unicasts_enqueue m i u now admitted_deadline copy tunables =
     (let persistence_deadline = instant_add now (transaction_persistence_time tunables);
          (stage, deadline) =
            (case (u_poll_address u, admitted_deadline) of
               (None, None) \<Rightarrow> (Queued, instant_add now (handoff_timeout tunables))
             | (None, Some d) \<Rightarrow> (Queued, d)
             | (Some _, None) \<Rightarrow> (AwaitingPoll, persistence_deadline)
             | (Some _, Some d) \<Rightarrow> (AwaitingPoll, min persistence_deadline d))
      in snd (fm_insert m i
           \<lparr>ur_frame = Some (u_frame u), ur_priority = u_priority u, ur_waiter = u_waiter u,
            ur_confirm = u_confirm u, ur_next_hop = u_next_hop u, ur_poll_address = u_poll_address u,
            attempts_remaining = unicast_retries tunables, ur_stage = stage, ur_deadline = deadline,
            copy_of = copy\<rparr>))"

definition unicasts_best_queued :: "('f, 'w) Unicasts \<Rightarrow> instant \<Rightarrow> (SendId \<times> TxPriority) option" where
  "unicasts_best_queued m now =
     map_option (\<lambda>(i, r). (i, ur_priority r))
       (max_by_key (\<lambda>(i, r). queue_key (ur_priority r) i)
         (filter (\<lambda>(_, r). ur_stage r = Queued \<and> now < ur_deadline r) m))"

definition unicasts_dequeue :: "('f, 'w) Unicasts \<Rightarrow> SendId \<Rightarrow> ('f InFlight \<times> ('f, 'w) Unicasts) run" where
  "unicasts_dequeue m i =
     run_bind (unwrap (fm_get m i)) (\<lambda>r.
       let frame_pending = (case ur_poll_address r of
             None \<Rightarrow> False
           | Some a \<Rightarrow> list_ex (\<lambda>(other, r'). other \<noteq> i \<and> pending_for r' = Some a) m)
       in run_bind (unwrap (ur_frame r)) (\<lambda>f.
         Ret (\<lparr>fl_id = i, fl_frame = f, fl_transmit = TxUnicast (ur_next_hop r) frame_pending\<rparr>,
              fm_get_mut m i (\<lambda>r. r\<lparr>ur_stage := Transmitting False, ur_frame := None\<rparr>))))"

text \<open>\<^verbatim>\<open>settle\<close> takes the identifier together with the verdict and the failed hop.\<close>

definition unicasts_settle ::
  "SendId \<times> 'e verdict \<times> Nwk option \<Rightarrow> ('f, 'w) Unicasts \<Rightarrow> (('f, 'w, 'e) Actions \<times> ('f, 'w) Unicasts) run" where
  "unicasts_settle v m =
     (case v of (i, result, failed_hop) \<Rightarrow>
        (case fm_remove m i of (removed, m') \<Rightarrow>
           run_bind (unwrap removed) (\<lambda>r.
             run_bind (unwrap (ur_frame r)) (\<lambda>f.
               Ret ((if ur_stage r = AwaitingApsAck then [HandedOff (ur_waiter r)] else []) @
                    [Settled (ur_waiter r) result f failed_hop], m')))))"

definition unicasts_handed_off ::
  "('f, 'w) Unicasts \<Rightarrow> SendId \<Rightarrow> instant \<Rightarrow> bool \<Rightarrow> (('f, 'w, 'e) Actions \<times> ('f, 'w) Unicasts) run" where
  "unicasts_handed_off m i now acked =
     run_bind (unwrap (fm_get m i)) (\<lambda>r.
       case (case ur_confirm r of OnHandoff \<Rightarrow> None | ApsAck _ wait \<Rightarrow> if acked then None else Some wait) of
         None \<Rightarrow> unicasts_settle (i, Inr (), None) m
       | Some wait \<Rightarrow>
           Ret ([HandedOff (ur_waiter r)],
                fm_get_mut m i (\<lambda>r. r\<lparr>ur_stage := AwaitingApsAck, ur_deadline := instant_add now wait\<rparr>)))"

definition unicasts_transmitted ::
  "('f, 'w) Unicasts \<Rightarrow> SendId \<Rightarrow> 'f \<Rightarrow> 'e verdict \<Rightarrow> instant \<Rightarrow> duration \<Rightarrow> (('f, 'w, 'e) Actions \<times> ('f, 'w) Unicasts) run" where
  "unicasts_transmitted m i f result now retry_delay =
     run_bind (unwrap (fm_get m i)) (\<lambda>r.
       case ur_stage r of
         Transmitting acked \<Rightarrow>
           (let m1 = fm_get_mut m i (\<lambda>r. r\<lparr>ur_frame := Some f\<rparr>) in
            case result of
              Inr _ \<Rightarrow> unicasts_handed_off m1 i now acked
            | Inl err \<Rightarrow>
                if acked then unicasts_handed_off m1 i now acked
                else
                  (case ur_poll_address r of
                     Some _ \<Rightarrow>
                       if now < ur_deadline r then Ret ([], fm_get_mut m1 i (\<lambda>r. r\<lparr>ur_stage := AwaitingPoll\<rparr>))
                       else unicasts_settle (i, Inl err, None) m1
                   | None \<Rightarrow>
                       if attempts_remaining r = 0 then unicasts_settle (i, Inl err, Some (ur_next_hop r)) m1
                       else Ret ([], fm_get_mut m1 i (\<lambda>r. r\<lparr>attempts_remaining := attempts_remaining r - 1,
                                                           ur_stage := Retrying (instant_add now retry_delay)\<rparr>))))
       | _ \<Rightarrow> Panic)"

definition unicasts_poll ::
  "('f, 'w) Unicasts \<Rightarrow> Eui64 option \<Rightarrow> Nwk option \<Rightarrow> instant \<Rightarrow> (bool \<times> ('f, 'w) Unicasts) run" where
  "unicasts_poll m eui64 nwk now =
     (let matches = (\<lambda>a. case a of Eui64Addr e \<Rightarrow> eui64 = Some e | NwkAddr n \<Rightarrow> nwk = Some n) in
      case find_map (\<lambda>(i, r). case ur_poll_address r of
                                Some a \<Rightarrow> if ur_stage r = AwaitingPoll \<and> matches a \<and> now < ur_deadline r
                                          then Some i else None
                              | None \<Rightarrow> None) m of
        None \<Rightarrow> Ret (False, m)
      | Some i \<Rightarrow>
          run_bind (unwrap (fm_get m i)) (\<lambda>_.
            Ret (True, fm_get_mut m i (\<lambda>r. r\<lparr>ur_priority := StackCritical, ur_stage := Queued\<rparr>))))"

definition unicasts_ack_received ::
  "('f, 'w) Unicasts \<Rightarrow> ApsAckData \<Rightarrow> (('f, 'w, 'e) Actions \<times> ('f, 'w) Unicasts) run" where
  "unicasts_ack_received m ack =
     (case find_map (\<lambda>(i, r). case ur_confirm r of
                                ApsAck expected _ \<Rightarrow> if expected = ack then Some i else None
                              | OnHandoff \<Rightarrow> None) m of
        None \<Rightarrow> Ret ([], m)
      | Some i \<Rightarrow>
          run_bind (unwrap (fm_get m i)) (\<lambda>r.
            if is_transmitting_stage (ur_stage r)
            then Ret ([], fm_get_mut m i (\<lambda>r. r\<lparr>ur_stage := Transmitting True\<rparr>))
            else unicasts_settle (i, Inr (), None) m))"

definition indirect_match :: "Eui64 option \<Rightarrow> Nwk \<Rightarrow> ('f, 'w) UnicastRecord \<Rightarrow> Ieee802154Address option" where
  "indirect_match eui64 nwk r =
     (case ur_poll_address r of
        Some a \<Rightarrow> if ur_stage r = AwaitingPoll \<and> (a = NwkAddr nwk \<or> (case eui64 of Some e \<Rightarrow> a = Eui64Addr e | None \<Rightarrow> False))
                  then Some a else None
      | None \<Rightarrow> None)"

definition unicasts_drop_indirect ::
  "(SendFailure \<Rightarrow> 'e) \<Rightarrow> ('f, 'w) Unicasts \<Rightarrow> Eui64 option \<Rightarrow> Nwk \<Rightarrow> (('f, 'w, 'e) Actions \<times> ('f, 'w) Unicasts) run" where
  "unicasts_drop_indirect into m eui64 nwk =
     settle_each unicasts_settle
       (verdict_list (\<lambda>r. map_option (\<lambda>a. (Inl (into (IndirectExpired a)), None)) (indirect_match eui64 nwk r)) m) m"

fun unicasts_abandon :: "('f, 'w) Unicasts \<Rightarrow> 'w list" where
  "unicasts_abandon [] = []"
| "unicasts_abandon ((_, r) # m) = ur_waiter r # unicasts_abandon m"

definition unicasts_cancel ::
  "(SendFailure \<Rightarrow> 'e) \<Rightarrow> ('f, 'w) Unicasts \<Rightarrow> SendId \<Rightarrow> (('f, 'w, 'e) Actions \<times> ('f, 'w) Unicasts) option run" where
  "unicasts_cancel into m i =
     (case fm_get m i of
        None \<Rightarrow> Ret None
      | Some r \<Rightarrow>
          if is_transmitting_stage (ur_stage r) then Ret None
          else run_bind (unicasts_settle (i, Inl (into Cancelled), None) m) (Ret \<circ> Some))"

definition unicasts_is_transmitting :: "('f, 'w) Unicasts \<Rightarrow> SendId \<Rightarrow> bool run" where
  "unicasts_is_transmitting m i = run_bind (unwrap (fm_get m i)) (\<lambda>r. Ret (is_transmitting_stage (ur_stage r)))"

definition copies_of :: "('f, 'w) Unicasts \<Rightarrow> SendId \<Rightarrow> SendId list" where
  "copies_of m broadcast = map fst (filter (\<lambda>(_, r). copy_of r = Some broadcast) m)"

text \<open>One step of the timer pass on a record, and the failures it collects.\<close>

definition unicast_requeue :: "instant \<Rightarrow> ('f, 'w) UnicastRecord \<Rightarrow> ('f, 'w) UnicastRecord" where
  "unicast_requeue now r =
     (case ur_stage r of Retrying at \<Rightarrow> if at \<le> now then r\<lparr>ur_stage := Queued\<rparr> else r | _ \<Rightarrow> r)"

definition unicast_lapsed :: "instant \<Rightarrow> ('f, 'w) UnicastRecord \<Rightarrow> SendFailure option" where
  "unicast_lapsed now r = (if ur_deadline r \<le> now then deadline_failure r else None)"

definition unicast_lapsed_verdict ::
  "(SendFailure \<Rightarrow> 'e) \<Rightarrow> instant \<Rightarrow> ('f, 'w) UnicastRecord \<Rightarrow> ('e verdict \<times> Nwk option) option" where
  "unicast_lapsed_verdict into now r = map_option (\<lambda>failure. (Inl (into failure), None)) (unicast_lapsed now r)"

definition unicasts_tick ::
  "(SendFailure \<Rightarrow> 'e) \<Rightarrow> ('f, 'w) Unicasts \<Rightarrow> instant \<Rightarrow> (('f, 'w, 'e) Actions \<times> ('f, 'w) Unicasts) run" where
  "unicasts_tick into m now =
     (let m1 = fm_values_mut (unicast_requeue now) m
      in settle_each unicasts_settle
           (verdict_list (unicast_lapsed_verdict into now) m1) m1)"

definition unicasts_next_wake :: "('f, 'w) Unicasts \<Rightarrow> instant option" where
  "unicasts_next_wake m = min_list_opt (List.map_filter unicast_next_wake (fm_values m))"

definition poll_address_insert :: "(Eui64, Nwk) flat_map \<Rightarrow> Ieee802154Address \<Rightarrow> SrcMatchTable \<Rightarrow> SrcMatchTable" where
  "poll_address_insert address_map a t =
     (case a of
        Eui64Addr e \<Rightarrow>
          (let t1 = t\<lparr>extended_addresses := snd (fs_insert (extended_addresses t) e)\<rparr> in
           case fm_get address_map e of
             Some n \<Rightarrow> t1\<lparr>short_addresses := snd (fs_insert (short_addresses t1) n)\<rparr>
           | None \<Rightarrow> t1)
      | NwkAddr n \<Rightarrow> t\<lparr>short_addresses := snd (fs_insert (short_addresses t) n)\<rparr>)"

definition poll_addresses :: "('f, 'w) Unicasts \<Rightarrow> (Eui64, Nwk) flat_map \<Rightarrow> SrcMatchTable" where
  "poll_addresses m address_map =
     fold (poll_address_insert address_map) (List.map_filter pending_for (fm_values m))
       \<lparr>short_addresses = fs_new, extended_addresses = fs_new\<rparr>"

definition has_awaiting_poll :: "('f, 'w) Unicasts \<Rightarrow> Ieee802154Address \<Rightarrow> bool" where
  "has_awaiting_poll m a = list_ex (\<lambda>r. pending_for r = Some a) (fm_values m)"

section \<open>Invariant\<close>

text \<open>A record is without its frame exactly while the frame is on loan to the radio.\<close>

definition unicast_ok :: "('f, 'w) UnicastRecord \<Rightarrow> bool" where
  "unicast_ok r \<longleftrightarrow> (ur_frame r = None) = is_transmitting_stage (ur_stage r)"

definition unicasts_inv :: "('f, 'w) Unicasts \<Rightarrow> bool" where
  "unicasts_inv m \<longleftrightarrow> fm_inv m \<and> (\<forall>i r. fm_get m i = Some r \<longrightarrow> unicast_ok r)"

definition unicasts_radio :: "('f, 'w) Unicasts \<Rightarrow> SendId set" where
  "unicasts_radio m = {i. \<exists>r. fm_get m i = Some r \<and> is_transmitting_stage (ur_stage r)}"

abbreviation "unicasts_waiters \<equiv> live_waiters ur_waiter"
abbreviation "unicasts_step R m res \<equiv> table_step unicasts_inv record_ids unicasts_radio unicasts_waiters R m res"

lemma unicasts_invD:
  assumes "unicasts_inv m"
  shows "fm_inv m" "fm_get m i = Some r \<Longrightarrow> unicast_ok r"
  using assms by (auto simp: unicasts_inv_def)

lemma transmitting_stage_simps [simp]:
  "is_transmitting_stage (Transmitting b)" "\<not> is_transmitting_stage Queued"
  "\<not> is_transmitting_stage (Retrying at)" "\<not> is_transmitting_stage AwaitingPoll"
  "\<not> is_transmitting_stage AwaitingApsAck"
  by (simp_all add: is_transmitting_stage_def)

lemma is_transmitting_stage_iff: "is_transmitting_stage s \<longleftrightarrow> (\<exists>b. s = Transmitting b)"
  by (cases s) simp_all

lemma unicasts_inv_insert: "unicasts_inv m \<Longrightarrow> unicast_ok r \<Longrightarrow> unicasts_inv (snd (fm_insert m i r))"
  by (auto simp: unicasts_inv_def tbl split: if_splits)

lemma unicasts_inv_remove: "unicasts_inv m \<Longrightarrow> unicasts_inv (snd (fm_remove m i))"
  by (auto simp: unicasts_inv_def tbl split: if_splits)

lemma unicasts_inv_get_mut:
  "unicasts_inv m \<Longrightarrow> (\<And>r. fm_get m i = Some r \<Longrightarrow> unicast_ok (f r)) \<Longrightarrow> unicasts_inv (fm_get_mut m i f)"
  by (auto simp: unicasts_inv_def tbl split: if_splits option.splits)

lemma unicasts_radio_remove: "unicasts_inv m \<Longrightarrow> unicasts_radio (snd (fm_remove m i)) = unicasts_radio m - {i}"
  by (auto simp: unicasts_radio_def unicasts_inv_def tbl split: if_splits)

lemma unicasts_radio_get_mut:
  "unicasts_inv m \<Longrightarrow> fm_get m i = Some r \<Longrightarrow>
   unicasts_radio (fm_get_mut m i f) =
     (if is_transmitting_stage (ur_stage (f r)) then insert i (unicasts_radio m) else unicasts_radio m - {i})"
  by (auto simp: unicasts_radio_def unicasts_inv_def tbl split: if_splits)

section \<open>Settling\<close>

definition unicast_report :: "('f, 'w) UnicastRecord \<Rightarrow> 'e verdict \<times> Nwk option \<Rightarrow> ('f, 'w, 'e) Actions" where
  "unicast_report r v =
     (if ur_stage r = AwaitingApsAck then [HandedOff (ur_waiter r)] else []) @
     [Settled (ur_waiter r) (fst v) (the (ur_frame r)) (snd v)]"

interpretation unicasts: settling unicasts_settle ur_waiter unicast_report "\<lambda>r. ur_frame r \<noteq> None"
  by unfold_locales (auto simp: unicasts_settle_def unicast_report_def split_beta tbl)

text \<open>Settling one record of the table is a step of it.\<close>

lemma unicasts_settle_step:
  assumes inv: "unicasts_inv m" and r: "fm_get m i = Some r" "\<not> is_transmitting_stage (ur_stage r)"
  shows "unicasts_step (unicasts_radio m) m (unicasts_settle (i, v) m)"
proof -
  have "ur_frame r \<noteq> None" using unicasts_invD(2) [OF inv r(1)] r(2) by (simp add: unicast_ok_def)
  note s = unicasts.settle_one [OF unicasts_invD(1) [OF inv] r(1) this, of v]
  have "unicasts_radio (snd (fm_remove m i)) = unicasts_radio m"
    using r unfolding unicasts_radio_remove [OF inv] by (auto simp: unicasts_radio_def)
  with s inv unicasts_invD(1) [OF inv] show ?thesis by (intro table_stepI) (auto simp: unicasts_inv_remove)
qed

lemma unicasts_settle_verdicts_step:
  assumes inv: "unicasts_inv m"
    and g: "\<forall>r. g r \<noteq> None \<longrightarrow> \<not> is_transmitting_stage (ur_stage r)"
  shows "unicasts_step (unicasts_radio m) m (settle_each unicasts_settle (verdict_list g m) m)"
    and "\<exists>as m'. settle_each unicasts_settle (verdict_list g m) m = Ret (as, m') \<and>
      as = concat (map (\<lambda>(i, v). unicast_report (the (fm_get m i)) v) (verdict_list g m)) \<and>
      (\<forall>i. fm_get m' i = (case fm_get m i of Some r \<Rightarrow> if g r = None then Some r else None | None \<Rightarrow> None))"
proof -
  have rest: "ur_frame r \<noteq> None" if "fm_get m i = Some r" "g r \<noteq> None" for i r
    using g that(2) unicasts_invD(2) [OF inv that(1)] by (auto simp: unicast_ok_def)
  obtain as m' where m': "settle_each unicasts_settle (verdict_list g m) m = Ret (as, m')"
       "as = concat (map (\<lambda>(i, v). unicast_report (the (fm_get m i)) v) (verdict_list g m))" "fm_inv m'"
       "\<And>i. fm_get m' i = (case fm_get m i of Some r \<Rightarrow> if g r = None then Some r else None | None \<Rightarrow> None)"
       "unicasts_waiters m = unicasts_waiters m' + settled_waiters as"
    using unicasts.settle_verdicts [where m = m and g = g] unicasts_invD(1) [OF inv] rest by blast
  then show "\<exists>as m'. settle_each unicasts_settle (verdict_list g m) m = Ret (as, m') \<and>
      as = concat (map (\<lambda>(i, v). unicast_report (the (fm_get m i)) v) (verdict_list g m)) \<and>
      (\<forall>i. fm_get m' i = (case fm_get m i of Some r \<Rightarrow> if g r = None then Some r else None | None \<Rightarrow> None))"
    by blast
  have "i \<in> unicasts_radio m' \<longleftrightarrow> i \<in> unicasts_radio m" for i
    using m'(4) [of i] g by (auto simp: unicasts_radio_def split: option.splits if_splits)
  then have "unicasts_radio m' = unicasts_radio m" by blast
  with m' inv show "unicasts_step (unicasts_radio m) m (settle_each unicasts_settle (verdict_list g m) m)"
    by (intro table_stepI [OF m'(1)]) (auto simp: unicasts_inv_def record_ids_def split: if_splits option.splits)
qed

end
