(* ===== verification/Unicasts_Facts.thy ===== *)
theory Unicasts_Facts
  imports Unicasts
begin

text \<open>
  Every operation of the unicast table is a step of it: no panic, the invariant kept, and each live waiter still
  live or given one verdict. What the timer pass and the polls do exactly.
\<close>

section \<open>Each operation is a step\<close>

lemma unicasts_enqueue_facts:
  assumes inv: "unicasts_inv m" and fresh: "fm_get m i = None"
  shows "unicasts_inv (unicasts_enqueue m i u now d copy tunables)"
    and "record_ids (unicasts_enqueue m i u now d copy tunables) = insert i (record_ids m)"
    and "unicasts_radio (unicasts_enqueue m i u now d copy tunables) = unicasts_radio m"
    and "unicasts_waiters (unicasts_enqueue m i u now d copy tunables) = add_mset (u_waiter u) (unicasts_waiters m)"
proof -
  obtain r where r: "unicasts_enqueue m i u now d copy tunables = snd (fm_insert m i r)"
      "ur_waiter r = u_waiter u" "ur_frame r \<noteq> None" "\<not> is_transmitting_stage (ur_stage r)"
    by (auto simp: unicasts_enqueue_def Let_def split_beta split: option.splits)
  note fm = unicasts_invD(1) [OF inv]
  show "unicasts_inv (unicasts_enqueue m i u now d copy tunables)"
    using r inv by (auto simp: unicast_ok_def intro!: unicasts_inv_insert)
  show "record_ids (unicasts_enqueue m i u now d copy tunables) = insert i (record_ids m)"
    using r fm by simp
  show "unicasts_radio (unicasts_enqueue m i u now d copy tunables) = unicasts_radio m"
    using r fm fresh by (auto simp: unicasts_radio_def tbl split: if_splits)
  show "unicasts_waiters (unicasts_enqueue m i u now d copy tunables) = add_mset (u_waiter u) (unicasts_waiters m)"
    using r fm fresh by (simp add: live_waiters_insert)
qed

lemma unicasts_best_queued_Some:
  assumes "fm_inv m" "unicasts_best_queued m now = Some (i, p)"
  shows "\<exists>r. fm_get m i = Some r \<and> ur_stage r = Queued \<and> now < ur_deadline r \<and> ur_priority r = p \<and>
    (\<forall>j r'. fm_get m j = Some r' \<and> ur_stage r' = Queued \<and> now < ur_deadline r' \<longrightarrow>
       ur_priority r' < p \<or> ur_priority r' = p \<and> i \<le> j)"
proof -
  obtain r where r: "max_by_key (\<lambda>(i, r). queue_key (ur_priority r) i)
         (filter (\<lambda>(_, r). ur_stage r = Queued \<and> now < ur_deadline r) m) = Some (i, r)" "ur_priority r = p"
    using assms(2) by (auto simp: unicasts_best_queued_def)
  from max_by_key_SomeD [OF r(1)] r(2) show ?thesis
    by (intro exI [of _ r]) (force simp: queue_key_le fm.iter_iff_get [OF assms(1)])
qed

lemma unicasts_best_queued_None:
  "fm_inv m \<Longrightarrow> unicasts_best_queued m now = None \<longleftrightarrow>
   (\<forall>i r. fm_get m i = Some r \<longrightarrow> \<not> (ur_stage r = Queued \<and> now < ur_deadline r))"
  by (force simp: unicasts_best_queued_def filter_empty_conv fm.iter_iff_get [symmetric])

lemma unicasts_dequeue_facts:
  assumes inv: "unicasts_inv m" and r: "fm_get m i = Some r" "ur_stage r = Queued"
  shows "\<exists>fl m'. unicasts_dequeue m i = Ret (fl, m') \<and> fl_id fl = i \<and> Some (fl_frame fl) = ur_frame r \<and>
    (\<exists>pending. fl_transmit fl = TxUnicast (ur_next_hop r) pending) \<and>
    unicasts_inv m' \<and> record_ids m' = record_ids m \<and> unicasts_radio m' = insert i (unicasts_radio m) \<and>
    unicasts_waiters m' = unicasts_waiters m"
proof -
  obtain f where f: "ur_frame r = Some f"
    using unicasts_invD(2) [OF inv r(1)] r(2) by (auto simp: unicast_ok_def)
  let ?g = "\<lambda>r. r\<lparr>ur_stage := Transmitting False, ur_frame := None\<rparr>"
  have "unicasts_inv (fm_get_mut m i ?g)" using inv by (intro unicasts_inv_get_mut) (auto simp: unicast_ok_def)
  moreover have "unicasts_radio (fm_get_mut m i ?g) = insert i (unicasts_radio m)"
    by (subst unicasts_radio_get_mut [OF inv r(1)]) simp
  moreover have "unicasts_waiters (fm_get_mut m i ?g) = unicasts_waiters m"
    by (rule live_waiters_get_mut [OF unicasts_invD(1) [OF inv] r(1)]) simp
  ultimately show ?thesis
    using r f unicasts_invD(1) [OF inv] by (auto simp: unicasts_dequeue_def Let_def)
qed

lemma unicasts_get_mut_step:
  assumes inv: "unicasts_inv m" and r: "fm_get m i = Some r"
    and f: "unicast_ok (f r)" "ur_waiter (f r) = ur_waiter r"
    and as: "settled_waiters as = {#}"
    and R: "R = (if is_transmitting_stage (ur_stage (f r)) then insert i (unicasts_radio m) else unicasts_radio m - {i})"
  shows "unicasts_step R m (Ret (as, fm_get_mut m i f))"
proof (rule table_stepI [OF refl])
  show "unicasts_inv (fm_get_mut m i f)" using inv r f by (intro unicasts_inv_get_mut) auto
  show "unicasts_radio (fm_get_mut m i f) = R" unfolding R by (rule unicasts_radio_get_mut [OF inv r])
  show "unicasts_waiters m = unicasts_waiters (fm_get_mut m i f) + settled_waiters as"
    using live_waiters_get_mut [where w = ur_waiter and f = f, OF unicasts_invD(1) [OF inv] r f(2)] as by simp
qed (use unicasts_invD(1) [OF inv] in simp)

text \<open>The report of the sender: the frame comes back and the send leaves the radio.\<close>

lemma unicasts_settle_mut_step:
  assumes inv: "unicasts_inv m" and r: "fm_get m i = Some r"
    and f: "ur_frame (f r) \<noteq> None" "ur_waiter (f r) = ur_waiter r"
  shows "unicasts_step (unicasts_radio m - {i}) m (unicasts_settle (i, v) (fm_get_mut m i f))"
proof -
  note fm = unicasts_invD(1) [OF inv]
  have "fm_get (fm_get_mut m i f) i = Some (f r)" using fm r by (simp add: tbl)
  note s = unicasts.settle_one [OF fm.inv_get_mut [OF fm] this f(1), of v]
  show ?thesis
  proof (rule table_stepI [OF s(1)])
    show "unicasts_waiters m = unicasts_waiters (snd (fm_remove (fm_get_mut m i f) i)) + settled_waiters (unicast_report (f r) v)"
      using s(2) live_waiters_get_mut [where w = ur_waiter and f = f, OF fm r f(2)] by simp
  qed (use inv fm in \<open>auto simp: remove_get_mut unicasts_inv_remove unicasts_radio_remove\<close>)
qed

lemma unicasts_handed_off_step:
  assumes inv: "unicasts_inv m" and r: "fm_get m i = Some r"
  shows "unicasts_step (unicasts_radio m - {i}) m
    (unicasts_handed_off (fm_get_mut m i (\<lambda>r. r\<lparr>ur_frame := Some f\<rparr>)) i now acked)"
proof -
  note fm = unicasts_invD(1) [OF inv]
  have get: "fm_get (fm_get_mut m i (\<lambda>r. r\<lparr>ur_frame := Some f\<rparr>)) i = Some (r\<lparr>ur_frame := Some f\<rparr>)"
    using fm r by (simp add: tbl)
  have settle: "unicasts_step (unicasts_radio m - {i}) m (unicasts_settle (i, Inr (), None) (fm_get_mut m i (\<lambda>r. r\<lparr>ur_frame := Some f\<rparr>)))"
    by (rule unicasts_settle_mut_step [OF inv r]) simp_all
  have wait: "unicasts_step (unicasts_radio m - {i}) m (Ret ([HandedOff (ur_waiter r)],
      fm_get_mut (fm_get_mut m i (\<lambda>r. r\<lparr>ur_frame := Some f\<rparr>)) i (\<lambda>r. r\<lparr>ur_stage := AwaitingApsAck, ur_deadline := d\<rparr>)))" for d
    unfolding get_mut_twice [OF fm] by (rule unicasts_get_mut_step [OF inv r]) (simp_all add: unicast_ok_def)
  show ?thesis
    unfolding unicasts_handed_off_def get using settle wait by (auto split: Confirm.split)
qed

lemma unicasts_transmitted_step:
  fixes result :: "'e verdict"
  assumes inv: "unicasts_inv m" and i: "i \<in> unicasts_radio m"
  shows "unicasts_step (unicasts_radio m - {i}) m (unicasts_transmitted m i f result now retry_delay)"
proof -
  obtain r acked where r: "fm_get m i = Some r" "ur_stage r = Transmitting acked"
    using i by (auto simp: unicasts_radio_def is_transmitting_stage_iff)
  let ?m1 = "fm_get_mut m i (\<lambda>r. r\<lparr>ur_frame := Some f\<rparr>)"
  note fm = unicasts_invD(1) [OF inv]
  have settle: "unicasts_step (unicasts_radio m - {i}) m (unicasts_settle (i, v) ?m1)" for v :: "'e verdict \<times> Nwk option"
    by (rule unicasts_settle_mut_step [OF inv r(1)]) simp_all
  have stays: "unicasts_step (unicasts_radio m - {i}) m (Ret ([] :: (_, _, 'e) Actions, fm_get_mut ?m1 i g))"
    if "\<And>r. \<not> is_transmitting_stage (ur_stage (g r)) \<and> ur_frame (g r) = ur_frame r \<and> ur_waiter (g r) = ur_waiter r" for g
    unfolding get_mut_twice [OF fm] using that
    by (intro unicasts_get_mut_step [OF inv r(1)]) (simp_all add: unicast_ok_def)
  note handed_off = unicasts_handed_off_step [OF inv r(1)]
  show ?thesis
  proof (cases "result = Inr () \<or> acked")
    case True
    have "unicasts_transmitted m i f result now retry_delay = unicasts_handed_off ?m1 i now acked"
    proof (cases result)
      case (Inl err)
      with True r show ?thesis by (simp add: unicasts_transmitted_def Let_def)
    qed (use r in \<open>simp add: unicasts_transmitted_def Let_def\<close>)
    then show ?thesis using handed_off by simp
  next
    case False
    then obtain err where err: "result = Inl err" "\<not> acked" by (cases result) auto
    let ?res = "unicasts_transmitted m i f result now retry_delay"
    show ?thesis
    proof (cases "ur_poll_address r")
      case None
      then have "?res = (if attempts_remaining r = 0 then unicasts_settle (i, Inl err, Some (ur_next_hop r)) ?m1
          else Ret ([], fm_get_mut ?m1 i (\<lambda>r. r\<lparr>attempts_remaining := attempts_remaining r - 1,
            ur_stage := Retrying (instant_add now retry_delay)\<rparr>)))"
        using r err by (simp add: unicasts_transmitted_def Let_def)
      then show ?thesis by (simp add: settle stays)
    next
      case (Some a)
      then have "?res = (if now < ur_deadline r then Ret ([], fm_get_mut ?m1 i (\<lambda>r. r\<lparr>ur_stage := AwaitingPoll\<rparr>))
          else unicasts_settle (i, Inl err, None) ?m1)"
        using r err by (simp add: unicasts_transmitted_def Let_def)
      then show ?thesis by (simp add: settle stays)
    qed
  qed
qed

lemma unicasts_poll_step:
  assumes inv: "unicasts_inv m"
  shows "\<exists>b m'. unicasts_poll m eui64 nwk now = Ret (b, m') \<and> unicasts_inv m' \<and> record_ids m' = record_ids m \<and>
    unicasts_radio m' = unicasts_radio m \<and> unicasts_waiters m' = unicasts_waiters m"
proof -
  note fm = unicasts_invD(1) [OF inv]
  let ?g = "\<lambda>r. r\<lparr>ur_priority := StackCritical, ur_stage := Queued\<rparr>"
  have step: "unicasts_inv (fm_get_mut m i ?g) \<and> unicasts_radio (fm_get_mut m i ?g) = unicasts_radio m \<and>
      unicasts_waiters (fm_get_mut m i ?g) = unicasts_waiters m"
    if r: "fm_get m i = Some r" "ur_stage r = AwaitingPoll" for i r
  proof -
    have "unicast_ok (?g r)" using unicasts_invD(2) [OF inv r(1)] r(2) by (simp add: unicast_ok_def)
    moreover have "i \<notin> unicasts_radio m" using r by (auto simp: unicasts_radio_def)
    ultimately have "unicasts_step (unicasts_radio m) m (Ret ([], fm_get_mut m i ?g) :: (('a, 'b, unit) Actions \<times> _) run)"
      by (intro unicasts_get_mut_step [OF inv r(1)]) auto
    then show ?thesis by (auto elim!: table_stepE)
  qed
  let ?matches = "\<lambda>a. case a of Eui64Addr e \<Rightarrow> eui64 = Some e | NwkAddr n \<Rightarrow> nwk = Some n"
  let ?f = "\<lambda>(i, r). case ur_poll_address r of
      Some a \<Rightarrow> if ur_stage r = AwaitingPoll \<and> ?matches a \<and> now < ur_deadline r then Some i else None | None \<Rightarrow> None"
  show ?thesis
  proof (cases "find_map ?f m")
    case None
    then show ?thesis using inv by (auto simp: unicasts_poll_def)
  next
    case (Some i)
    then obtain r where "(i, r) \<in> set m" "ur_stage r = AwaitingPoll"
      by (auto dest!: find_map_SomeD split: option.splits if_splits)
    then have r: "fm_get m i = Some r" "ur_stage r = AwaitingPoll" using fm by (simp_all add: fm.iter_iff_get)
    have "unicasts_poll m eui64 nwk now = Ret (True, fm_get_mut m i ?g)"
      using Some r(1) by (simp add: unicasts_poll_def)
    then show ?thesis using step [OF r] fm by auto
  qed
qed

lemma unicasts_ack_received_step:
  assumes inv: "unicasts_inv m"
  shows "unicasts_step (unicasts_radio m) m (unicasts_ack_received m ack)" (is "unicasts_step _ _ ?res")
proof -
  let ?f = "\<lambda>(i, r). case ur_confirm r of ApsAck expected _ \<Rightarrow> if expected = ack then Some i else None | OnHandoff \<Rightarrow> None"
  show ?thesis
  proof (cases "find_map ?f m")
    case None
    then show ?thesis using inv by (auto simp: unicasts_ack_received_def intro!: table_stepI)
  next
    case (Some i)
    then obtain r where "(i, r) \<in> set m"
      by (auto dest!: find_map_SomeD split: Confirm.splits if_splits)
    then have r: "fm_get m i = Some r" using unicasts_invD(1) [OF inv] by (simp add: fm.iter_iff_get)
    show ?thesis
    proof (cases "is_transmitting_stage (ur_stage r)")
      case True
      have "?res = Ret ([], fm_get_mut m i (\<lambda>r. r\<lparr>ur_stage := Transmitting True\<rparr>))"
        using True Some r by (simp add: unicasts_ack_received_def)
      moreover have "insert i (unicasts_radio m) = unicasts_radio m" using True r by (auto simp: unicasts_radio_def)
      moreover have "ur_frame r = None" using True unicasts_invD(2) [OF inv r] by (simp add: unicast_ok_def)
      ultimately show ?thesis
        by (simp add: unicasts_get_mut_step [OF inv r] unicast_ok_def)
    next
      case False
      have "?res = unicasts_settle (i, Inr (), None) m"
        using False Some r by (simp add: unicasts_ack_received_def)
      then show ?thesis using unicasts_settle_step [OF inv r False] by simp
    qed
  qed
qed

lemma unicasts_drop_indirect_step:
  assumes inv: "unicasts_inv m"
  shows "unicasts_step (unicasts_radio m) m (unicasts_drop_indirect into m eui64 nwk)"
  unfolding unicasts_drop_indirect_def
  by (rule unicasts_settle_verdicts_step(1) [OF inv]) (auto simp: indirect_match_def split: option.splits if_splits)

lemma unicasts_cancel_step:
  assumes inv: "unicasts_inv m"
  shows "unicasts_cancel into m i = Ret None \<and> (fm_get m i = None \<or> i \<in> unicasts_radio m) \<or>
    (\<exists>as m'. unicasts_cancel into m i = Ret (Some (as, m')) \<and>
       unicasts_step (unicasts_radio m) m (Ret (as, m')) \<and> i \<in> record_ids m \<and> record_ids m' = record_ids m - {i})"
proof (cases "fm_get m i")
  case None
  then show ?thesis by (simp add: unicasts_cancel_def)
next
  case (Some r)
  show ?thesis
  proof (cases "is_transmitting_stage (ur_stage r)")
    case True
    then show ?thesis using Some by (auto simp: unicasts_cancel_def unicasts_radio_def)
  next
    case False
    then have "ur_frame r \<noteq> None" using unicasts_invD(2) [OF inv Some] by (simp add: unicast_ok_def)
    note s = unicasts.settle_one(1) [OF unicasts_invD(1) [OF inv] Some this, of "(Inl (into Cancelled), None)"]
    show ?thesis
      using Some False s unicasts_settle_step [OF inv Some False, of "(Inl (into Cancelled), None)"]
        unicasts_invD(1) [OF inv]
      by (auto simp: unicasts_cancel_def record_ids_def tbl)
  qed
qed

section \<open>The timer pass\<close>

lemma unicast_requeue_simps [simp]:
  "ur_waiter (unicast_requeue now r) = ur_waiter r"
  "ur_frame (unicast_requeue now r) = ur_frame r"
  "ur_deadline (unicast_requeue now r) = ur_deadline r"
  "is_transmitting_stage (ur_stage (unicast_requeue now r)) = is_transmitting_stage (ur_stage r)"
  by (auto simp: unicast_requeue_def split: Stage.split)

lemma unicast_lapsed_iff:
  "unicast_lapsed now r \<noteq> None \<longleftrightarrow> ur_deadline r \<le> now \<and> \<not> is_transmitting_stage (ur_stage r)"
  by (auto simp: unicast_lapsed_def deadline_failure_def is_transmitting_stage_iff split: Stage.splits option.splits)

lemma unicasts_inv_requeue:
  assumes inv: "unicasts_inv m"
  shows "unicasts_inv (fm_values_mut (unicast_requeue now) m)"
    and "unicasts_radio (fm_values_mut (unicast_requeue now) m) = unicasts_radio m"
  using inv by (auto simp: unicasts_inv_def unicasts_radio_def unicast_ok_def tbl)

lemma unicasts_tick_facts:
  assumes inv: "unicasts_inv m"
  shows "unicasts_step (unicasts_radio m) m (unicasts_tick into m now)"
    and "\<exists>as m'. unicasts_tick into m now = Ret (as, m') \<and>
      (\<forall>i. fm_get m' i = (case fm_get m i of
         Some r \<Rightarrow> if ur_deadline r \<le> now \<and> \<not> is_transmitting_stage (ur_stage r) then None else Some (unicast_requeue now r)
       | None \<Rightarrow> None))"
proof -
  let ?m1 = "fm_values_mut (unicast_requeue now) m"
  let ?g = "unicast_lapsed_verdict into now"
  note fm = unicasts_invD(1) [OF inv]
  have inv1: "unicasts_inv ?m1" and radio: "unicasts_radio ?m1 = unicasts_radio m"
    using unicasts_inv_requeue [OF inv] by blast+
  have g: "\<forall>r. ?g r \<noteq> None \<longrightarrow> \<not> is_transmitting_stage (ur_stage r)"
    using unicast_lapsed_iff [of now] by (auto simp: unicast_lapsed_verdict_def)
  note s = unicasts_settle_verdicts_step [where g = ?g, OF inv1 g]
  have tick: "unicasts_tick into m now = settle_each unicasts_settle (verdict_list ?g ?m1) ?m1"
    by (simp add: unicasts_tick_def Let_def)
  show "unicasts_step (unicasts_radio m) m (unicasts_tick into m now)"
    unfolding tick using s(1) fm by (auto simp: radio table_step_def)
  obtain as m' where m': "settle_each unicasts_settle (verdict_list ?g ?m1) ?m1 = Ret (as, m')"
      "\<And>i. fm_get m' i = (case fm_get ?m1 i of Some r \<Rightarrow> if ?g r = None then Some r else None | None \<Rightarrow> None)"
    using s(2) by blast
  have "fm_get m' i = (case fm_get m i of
         Some r \<Rightarrow> if ur_deadline r \<le> now \<and> \<not> is_transmitting_stage (ur_stage r) then None else Some (unicast_requeue now r)
       | None \<Rightarrow> None)" for i
    unfolding m'(2) fm_get_values_mut [OF fm]
    using unicast_lapsed_iff [of now "unicast_requeue now (the (fm_get m i))"]
    by (auto simp: unicast_lapsed_verdict_def split: option.splits)
  with m'(1) show "\<exists>as m'. unicasts_tick into m now = Ret (as, m') \<and>
      (\<forall>i. fm_get m' i = (case fm_get m i of
         Some r \<Rightarrow> if ur_deadline r \<le> now \<and> \<not> is_transmitting_stage (ur_stage r) then None else Some (unicast_requeue now r)
       | None \<Rightarrow> None))"
    unfolding tick by blast
qed

end
