(* ===== verification/Unrouted.thy ===== *)
theory Unrouted
  imports Sends_Base
begin

text \<open>
  Unicasts with no route yet (\<^verbatim>\<open>ziggurat-zigbee/src/sends/unrouted.rs\<close>): held until the discovery of their
  destination ends. Discovery runs once per destination; the table counts the restarts left.
\<close>

section \<open>Model\<close>

record ('f, 'w) UnroutedUnicast =
  us_frame :: 'f
  us_priority :: TxPriority
  us_waiter :: 'w
  us_confirm :: Confirm
  us_destination :: Nwk

record ('f, 'w) UnroutedRecord =
  un_frame :: 'f
  un_priority :: TxPriority
  un_waiter :: 'w
  un_confirm :: Confirm
  un_destination :: Nwk
  un_deadline :: instant

record ('f, 'w) UnroutedUnicasts =
  un_records :: "(SendId, ('f, 'w) UnroutedRecord) flat_map"
  un_retries :: "(Nwk, u8) flat_map"

definition unrouted_default :: "('f, 'w) UnroutedUnicasts" where
  "unrouted_default = \<lparr>un_records = fm_new, un_retries = fm_new\<rparr>"

definition unrouted_contains :: "('f, 'w) UnroutedUnicasts \<Rightarrow> SendId \<Rightarrow> bool" where
  "unrouted_contains t i = fm_contains_key (un_records t) i"

definition has_unrouted :: "('f, 'w) UnroutedUnicasts \<Rightarrow> Nwk \<Rightarrow> bool" where
  "has_unrouted t d = fm_contains_key (un_retries t) d"

definition unrouted_enqueue ::
  "('f, 'w) UnroutedUnicasts \<Rightarrow> SendId \<Rightarrow> ('f, 'w) UnroutedUnicast \<Rightarrow> instant \<Rightarrow> Tunables \<Rightarrow> ('f, 'w) UnroutedUnicasts" where
  "unrouted_enqueue t i u now tunables =
     \<lparr>un_records = snd (fm_insert (un_records t) i
        \<lparr>un_frame = us_frame u, un_priority = us_priority u, un_waiter = us_waiter u, un_confirm = us_confirm u,
         un_destination = us_destination u, un_deadline = instant_add now (handoff_timeout tunables)\<rparr>),
      un_retries =
        (if \<not> fm_contains_key (un_retries t) (us_destination u)
         then snd (fm_insert (un_retries t) (us_destination u) (sat_sub (pending_route_discovery_attempts tunables) 1))
         else un_retries t)\<rparr>"

definition unrouted_destinations :: "('f, 'w) UnroutedUnicasts \<Rightarrow> Nwk list" where
  "unrouted_destinations t = fm_keys (un_retries t)"

text \<open>The loop of \<^verbatim>\<open>take\<close>: remove each of the collected identifiers and return it with its record.\<close>

definition take_record ::
  "SendId \<times> unit \<Rightarrow> (SendId, 'r) flat_map \<Rightarrow> ((SendId \<times> 'r) list \<times> (SendId, 'r) flat_map) run" where
  "take_record v m = (case fm_remove m (fst v) of (r, m') \<Rightarrow> run_bind (unwrap r) (\<lambda>r. Ret ([(fst v, r)], m')))"

definition unrouted_take ::
  "('f, 'w) UnroutedUnicasts \<Rightarrow> Nwk \<Rightarrow> ((SendId \<times> ('f, 'w) UnroutedRecord) list \<times> ('f, 'w) UnroutedUnicasts) run" where
  "unrouted_take t d =
     run_bind (settle_each take_record (verdict_list (\<lambda>r. if un_destination r = d then Some () else None) (un_records t))
         (un_records t))
       (\<lambda>(taken, m). Ret (taken, t\<lparr>un_records := m\<rparr>))"

definition unrouted_route ::
  "('f, 'w) UnroutedUnicasts \<Rightarrow> Nwk \<Rightarrow> ((SendId \<times> ('f, 'w) UnroutedRecord) list \<times> ('f, 'w) UnroutedUnicasts) run" where
  "unrouted_route t d = unrouted_take (t\<lparr>un_retries := snd (fm_remove (un_retries t) d)\<rparr>) d"

definition unrouted_settled :: "(SendFailure \<Rightarrow> 'e) \<Rightarrow> ('f, 'w) UnroutedRecord \<Rightarrow> SendFailure \<Rightarrow> ('f, 'w, 'e) Action" where
  "unrouted_settled into r failure = Settled (un_waiter r) (Inl (into failure)) (un_frame r) None"

definition retry_discovery :: "('f, 'w) UnroutedUnicasts \<Rightarrow> Nwk \<Rightarrow> (bool \<times> ('f, 'w) UnroutedUnicasts) run" where
  "retry_discovery t d =
     (let waiting = list_ex (\<lambda>r. un_destination r = d) (fm_values (un_records t)) in
      run_bind (unwrap (fm_get (un_retries t) d)) (\<lambda>retries.
        if retries = 0 \<or> \<not> waiting then Ret (False, t)
        else Ret (True, t\<lparr>un_retries := fm_get_mut (un_retries t) d (\<lambda>n. n - 1)\<rparr>)))"

definition unrouted_fail ::
  "(SendFailure \<Rightarrow> 'e) \<Rightarrow> ('f, 'w) UnroutedUnicasts \<Rightarrow> Nwk \<Rightarrow> (('f, 'w, 'e) Actions \<times> ('f, 'w) UnroutedUnicasts) run" where
  "unrouted_fail into t d =
     run_bind (unrouted_take (t\<lparr>un_retries := snd (fm_remove (un_retries t) d)\<rparr>) d)
       (\<lambda>(taken, t'). Ret (map (\<lambda>(_, r). unrouted_settled into r RouteDiscoveryTimeout) taken, t'))"

definition unrouted_abandon :: "('f, 'w) UnroutedUnicasts \<Rightarrow> 'w list" where
  "unrouted_abandon t = map (\<lambda>(_, r). un_waiter r) (un_records t)"

definition unrouted_settle ::
  "(SendFailure \<Rightarrow> 'e) \<Rightarrow> SendId \<times> SendFailure \<Rightarrow> (SendId, ('f, 'w) UnroutedRecord) flat_map \<Rightarrow>
   (('f, 'w, 'e) Actions \<times> (SendId, ('f, 'w) UnroutedRecord) flat_map) run" where
  "unrouted_settle into v m =
     (case fm_remove m (fst v) of (r, m') \<Rightarrow> run_bind (unwrap r) (\<lambda>r. Ret ([unrouted_settled into r (snd v)], m')))"

definition unrouted_cancel ::
  "(SendFailure \<Rightarrow> 'e) \<Rightarrow> ('f, 'w) UnroutedUnicasts \<Rightarrow> SendId \<Rightarrow> (('f, 'w, 'e) Actions \<times> ('f, 'w) UnroutedUnicasts) run" where
  "unrouted_cancel into t i =
     run_bind (unrouted_settle into (i, Cancelled) (un_records t)) (\<lambda>(as, m). Ret (as, t\<lparr>un_records := m\<rparr>))"

definition unrouted_tick ::
  "(SendFailure \<Rightarrow> 'e) \<Rightarrow> ('f, 'w) UnroutedUnicasts \<Rightarrow> instant \<Rightarrow> (('f, 'w, 'e) Actions \<times> ('f, 'w) UnroutedUnicasts) run" where
  "unrouted_tick into t now =
     run_bind (settle_each (unrouted_settle into)
         (verdict_list (\<lambda>r. if un_deadline r \<le> now then Some HandoffTimeout else None) (un_records t)) (un_records t))
       (\<lambda>(as, m). Ret (as, t\<lparr>un_records := m\<rparr>))"

definition unrouted_next_wake :: "('f, 'w) UnroutedUnicasts \<Rightarrow> instant option" where
  "unrouted_next_wake t = min_list_opt (map un_deadline (fm_values (un_records t)))"

section \<open>Invariant\<close>

text \<open>The destination of a held send is awaited, so the driver ends its discovery.\<close>

definition unrouted_inv :: "('f, 'w) UnroutedUnicasts \<Rightarrow> bool" where
  "unrouted_inv t \<longleftrightarrow> fm_inv (un_records t) \<and> fm_inv (un_retries t) \<and>
     (\<forall>i r. fm_get (un_records t) i = Some r \<longrightarrow> has_unrouted t (un_destination r))"

definition unrouted_ids :: "('f, 'w) UnroutedUnicasts \<Rightarrow> SendId set" where
  "unrouted_ids t = record_ids (un_records t)"

definition unrouted_waiters :: "('f, 'w) UnroutedUnicasts \<Rightarrow> 'w multiset" where
  "unrouted_waiters t = live_waiters un_waiter (un_records t)"

abbreviation "unrouted_step t res \<equiv> table_step unrouted_inv unrouted_ids (\<lambda>_. {} :: SendId set) unrouted_waiters {} t res"

lemma unrouted_invD:
  assumes "unrouted_inv t"
  shows "fm_inv (un_records t)" "fm_inv (un_retries t)"
    "fm_get (un_records t) i = Some r \<Longrightarrow> has_unrouted t (un_destination r)"
  using assms by (auto simp: unrouted_inv_def)

lemma unrouted_inv_records:
  assumes "unrouted_inv t" "fm_inv m" "\<And>i r. fm_get m i = Some r \<Longrightarrow> fm_get (un_records t) i = Some r"
  shows "unrouted_inv (t\<lparr>un_records := m\<rparr>)"
  using assms by (auto simp: unrouted_inv_def has_unrouted_def)

interpretation unrouted: settling "unrouted_settle into" un_waiter "\<lambda>r failure. [unrouted_settled into r failure]" "\<lambda>_. True"
  by unfold_locales (auto simp: unrouted_settle_def unrouted_settled_def split_beta tbl)

text \<open>\<^verbatim>\<open>take\<close> reports no verdict; its records go on to the unicasts or to the failed sends.\<close>

lemma unrouted_default_facts:
  "unrouted_inv unrouted_default" "unrouted_ids unrouted_default = {}" "unrouted_waiters unrouted_default = {#}"
  by (simp_all add: unrouted_inv_def unrouted_default_def unrouted_ids_def unrouted_waiters_def tbl)

lemma unrouted_enqueue_facts:
  assumes inv: "unrouted_inv t" and fresh: "i \<notin> unrouted_ids t"
  shows "unrouted_inv (unrouted_enqueue t i u now tunables)"
    and "unrouted_ids (unrouted_enqueue t i u now tunables) = insert i (unrouted_ids t)"
    and "unrouted_waiters (unrouted_enqueue t i u now tunables) = add_mset (us_waiter u) (unrouted_waiters t)"
  using unrouted_invD [OF inv] fresh
  by (auto simp: unrouted_inv_def unrouted_enqueue_def unrouted_ids_def unrouted_waiters_def has_unrouted_def
      fm_contains_key_iff record_ids_def live_waiters_insert tbl split: if_splits)

lemma unrouted_verdicts_step:
  assumes inv: "unrouted_inv t"
  shows "unrouted_step t (run_bind (settle_each (unrouted_settle into) (verdict_list g (un_records t)) (un_records t))
       (\<lambda>(as, m). Ret (as, t\<lparr>un_records := m\<rparr>)))"
    and "\<exists>as m. settle_each (unrouted_settle into) (verdict_list g (un_records t)) (un_records t) = Ret (as, m) \<and>
      (\<forall>i. fm_get m i = (case fm_get (un_records t) i of Some r \<Rightarrow> if g r = None then Some r else None | None \<Rightarrow> None))"
proof -
  note fm = unrouted_invD(1) [OF inv]
  obtain as m where m: "settle_each (unrouted_settle into) (verdict_list g (un_records t)) (un_records t) = Ret (as, m)"
      "fm_inv m"
      "\<And>i. fm_get m i = (case fm_get (un_records t) i of Some r \<Rightarrow> if g r = None then Some r else None | None \<Rightarrow> None)"
      "live_waiters un_waiter (un_records t) = live_waiters un_waiter m + settled_waiters as"
    using unrouted.settle_verdicts [where m = "un_records t" and g = g] fm by blast
  then show "\<exists>as m. settle_each (unrouted_settle into) (verdict_list g (un_records t)) (un_records t) = Ret (as, m) \<and>
      (\<forall>i. fm_get m i = (case fm_get (un_records t) i of Some r \<Rightarrow> if g r = None then Some r else None | None \<Rightarrow> None))"
    by blast
  have "unrouted_inv (t\<lparr>un_records := m\<rparr>)"
    using m by (intro unrouted_inv_records [OF inv]) (auto split: option.splits if_splits)
  with m show "unrouted_step t (run_bind (settle_each (unrouted_settle into) (verdict_list g (un_records t)) (un_records t))
       (\<lambda>(as, m). Ret (as, t\<lparr>un_records := m\<rparr>)))"
    by (intro table_stepI [of _ as "t\<lparr>un_records := m\<rparr>"])
      (auto simp: unrouted_ids_def record_ids_def unrouted_waiters_def split: option.splits)
qed

section \<open>Each operation is a step\<close>

lemma unrouted_tick_facts:
  assumes inv: "unrouted_inv t"
  shows "unrouted_step t (unrouted_tick into t now)"
    and "\<exists>as t'. unrouted_tick into t now = Ret (as, t') \<and> un_retries t' = un_retries t \<and>
      (\<forall>i. fm_get (un_records t') i = (case fm_get (un_records t) i of
         Some r \<Rightarrow> if un_deadline r \<le> now then None else Some r | None \<Rightarrow> None))"
proof -
  note s = unrouted_verdicts_step [OF inv, where into = into and g = "\<lambda>r. if un_deadline r \<le> now then Some HandoffTimeout else None"]
  show "unrouted_step t (unrouted_tick into t now)" unfolding unrouted_tick_def by (rule s(1))
  show "\<exists>as t'. unrouted_tick into t now = Ret (as, t') \<and> un_retries t' = un_retries t \<and>
      (\<forall>i. fm_get (un_records t') i = (case fm_get (un_records t) i of
         Some r \<Rightarrow> if un_deadline r \<le> now then None else Some r | None \<Rightarrow> None))"
    using s(2) unfolding unrouted_tick_def by (force split: option.split)
qed

lemma unrouted_cancel_step:
  assumes inv: "unrouted_inv t" and i: "i \<in> unrouted_ids t"
  shows "unrouted_step t (unrouted_cancel into t i)"
    and "\<exists>as t'. unrouted_cancel into t i = Ret (as, t') \<and> unrouted_ids t' = unrouted_ids t - {i}"
proof -
  note fm = unrouted_invD(1) [OF inv]
  obtain r where r: "fm_get (un_records t) i = Some r" using i by (auto simp: unrouted_ids_def record_ids_def)
  note s = unrouted.settle_one [OF fm r TrueI, of into Cancelled]
  have inv': "unrouted_inv (t\<lparr>un_records := snd (fm_remove (un_records t) i)\<rparr>)"
    using fm by (intro unrouted_inv_records [OF inv]) (auto simp: tbl split: if_splits)
  have res: "unrouted_cancel into t i = Ret ([unrouted_settled into r Cancelled], t\<lparr>un_records := snd (fm_remove (un_records t) i)\<rparr>)"
    using s(1) by (simp add: unrouted_cancel_def)
  show "unrouted_step t (unrouted_cancel into t i)"
    using inv' fm s(2) by (intro table_stepI [OF res]) (auto simp: unrouted_ids_def unrouted_waiters_def)
  show "\<exists>as t'. unrouted_cancel into t i = Ret (as, t') \<and> unrouted_ids t' = unrouted_ids t - {i}"
    using res fm by (simp add: unrouted_ids_def)
qed

lemma settle_each_take:
  assumes "fm_inv m" "distinct (map fst xs)" "set xs \<subseteq> set m"
  shows "\<exists>m'. settle_each take_record (map (\<lambda>(i, _). (i, ())) xs) m = Ret (xs, m') \<and> fm_inv m' \<and>
    (\<forall>i. fm_get m' i = (if i \<in> fst ` set xs then None else fm_get m i)) \<and>
    live_waiters w m = live_waiters w m' + live_waiters w xs"
  using assms
proof (induction xs arbitrary: m)
  case (Cons x xs)
  obtain i r where x: "x = (i, r)" by (cases x)
  have get: "fm_get m i = Some r" using Cons.prems(1,3) by (simp add: x fm.iter_iff_get)
  let ?m = "snd (fm_remove m i)"
  have "set xs \<subseteq> set ?m"
  proof
    fix y assume y: "y \<in> set xs"
    then have "fst y \<noteq> i" using Cons.prems(2) by (auto simp: x)
    then show "y \<in> set ?m" using y Cons.prems(1,3) by (cases y) (auto simp: fm.iter_iff_get tbl)
  qed
  then obtain m' where m': "settle_each take_record (map (\<lambda>(i, _). (i, ())) xs) ?m = Ret (xs, m')" "fm_inv m'"
      "\<forall>j. fm_get m' j = (if j \<in> fst ` set xs then None else fm_get ?m j)"
      "live_waiters w ?m = live_waiters w m' + live_waiters w xs"
    using Cons.IH [of ?m] Cons.prems(1,2) by (auto simp: tbl)
  have "take_record (i, ()) m = Ret ([x], ?m)" using get Cons.prems(1) by (simp add: take_record_def split_beta x tbl)
  with m' live_waiters_remove [OF Cons.prems(1) get, of w] Cons.prems(1) show ?case
    by (auto simp: x live_waiters_def tbl)
qed simp

lemma unrouted_take_facts:
  assumes inv: "unrouted_inv t" and d: "t' = t\<lparr>un_retries := snd (fm_remove (un_retries t) d)\<rparr>"
  shows "\<exists>t''. unrouted_take t' d = Ret (filter (\<lambda>(_, r). un_destination r = d) (un_records t), t'') \<and>
    unrouted_inv t'' \<and> unrouted_ids t'' \<subseteq> unrouted_ids t \<and> \<not> has_unrouted t'' d \<and>
    (\<forall>i r. fm_get (un_records t'') i = Some r \<longleftrightarrow> fm_get (un_records t) i = Some r \<and> un_destination r \<noteq> d) \<and>
    unrouted_waiters t = unrouted_waiters t'' + live_waiters un_waiter (filter (\<lambda>(_, r). un_destination r = d) (un_records t))"
proof -
  let ?xs = "filter (\<lambda>(_, r). un_destination r = d) (un_records t)"
  note fm = unrouted_invD [OF inv]
  have ids: "verdict_list (\<lambda>r. if un_destination r = d then Some () else None) m =
      map (\<lambda>(i, _). (i, ())) (filter (\<lambda>(_, r). un_destination r = d) m)" for m :: "(SendId, ('a, 'b) UnroutedRecord) flat_map"
    by (induction m) auto
  have "distinct (map fst ?xs)" using fm_inv_distinct [OF fm(1)] by (simp add: distinct_map_filter)
  then obtain m where m: "settle_each take_record (map (\<lambda>(i, _). (i, ())) ?xs) (un_records t) = Ret (?xs, m)"
      "fm_inv m" "\<And>i. fm_get m i = (if i \<in> fst ` set ?xs then None else fm_get (un_records t) i)"
      "live_waiters un_waiter (un_records t) = live_waiters un_waiter m + live_waiters un_waiter ?xs"
    using settle_each_take [OF fm(1), of ?xs un_waiter] by auto
  have mem: "i \<in> fst ` set ?xs \<longleftrightarrow> (\<exists>r. fm_get (un_records t) i = Some r \<and> un_destination r = d)" for i
    by (force simp: fm.iter_iff_get [OF fm(1), symmetric] image_iff)
  have get: "fm_get m i = Some r \<longleftrightarrow> fm_get (un_records t) i = Some r \<and> un_destination r \<noteq> d" for i r
    unfolding m(3) mem by auto
  let ?t = "\<lparr>un_records = m, un_retries = snd (fm_remove (un_retries t) d)\<rparr>"
  have "unrouted_take t' d = Ret (?xs, ?t)"
    using m(1) by (cases t) (simp add: unrouted_take_def d ids)
  moreover have "unrouted_inv ?t"
    using fm(2,3) m(2) by (auto simp: unrouted_inv_def get has_unrouted_def fm_contains_key_iff tbl)
  moreover have "\<not> has_unrouted ?t d" using fm(2) by (simp add: has_unrouted_def fm_contains_key_iff tbl)
  ultimately show ?thesis
    using m(4) get by (auto simp: unrouted_ids_def record_ids_def unrouted_waiters_def)
qed

lemma unrouted_fail_step:
  assumes inv: "unrouted_inv t"
  shows "unrouted_step t (unrouted_fail into t d)"
proof -
  obtain t'' where t'': "unrouted_take (t\<lparr>un_retries := snd (fm_remove (un_retries t) d)\<rparr>) d =
        Ret (filter (\<lambda>(_, r). un_destination r = d) (un_records t), t'')" "unrouted_inv t''"
      "unrouted_ids t'' \<subseteq> unrouted_ids t"
      "unrouted_waiters t = unrouted_waiters t'' + live_waiters un_waiter (filter (\<lambda>(_, r). un_destination r = d) (un_records t))"
    using unrouted_take_facts [OF inv refl, of d] by blast
  have "settled_waiters (map (\<lambda>(_, r). unrouted_settled into r RouteDiscoveryTimeout) xs) = live_waiters un_waiter xs"
    for xs :: "(SendId, ('a, 'b) UnroutedRecord) flat_map"
    by (induction xs) (auto simp: unrouted_settled_def live_waiters_def)
  with t'' show ?thesis by (auto simp: unrouted_fail_def intro!: table_stepI)
qed

lemma retry_discovery_facts:
  assumes inv: "unrouted_inv t" and d: "has_unrouted t d"
  shows "\<exists>b t'. retry_discovery t d = Ret (b, t') \<and> unrouted_inv t' \<and> un_records t' = un_records t"
proof -
  obtain n where n: "fm_get (un_retries t) d = Some n" using d by (auto simp: has_unrouted_def fm_contains_key_iff)
  have "unrouted_inv (t\<lparr>un_retries := fm_get_mut (un_retries t) d (\<lambda>n. n - 1)\<rparr>)"
    using inv by (auto simp: unrouted_inv_def has_unrouted_def fm_contains_key_iff tbl)
  with inv n show ?thesis by (auto simp: retry_discovery_def Let_def)
qed

end
