(* ===== verification/Send_Broadcasts.thy ===== *)
theory Send_Broadcasts
  imports Sends_Base
begin

text \<open>
  Broadcasts we send (\<^verbatim>\<open>ziggurat-zigbee/src/sends/broadcasts.rs\<close>): a frame sent once, or again on a schedule.
  The record's frame is the only copy; every copy is queued by the timer pass its schedule makes it due on.
\<close>

section \<open>Model\<close>

datatype Schedule =
    Once
  | PassiveAck "Nwk \<times> u8" u8 instant
  | FixedInterval duration u8 instant

record ('f, 'w) Broadcast =
  b_frame :: 'f
  b_priority :: TxPriority
  b_waiter :: 'w
  b_schedule :: Schedule

datatype Due = DueCopy | DueOver

datatype CopyState = CopyIdle | CopyQueued | CopyTransmitting

record ('f, 'w, 'e) BroadcastRecord =
  br_frame :: "'f option"
  br_priority :: TxPriority
  br_waiter :: 'w
  br_schedule :: Schedule
  br_copy :: CopyState
  br_handed_off :: bool
  quorum_heard :: bool
  last_error :: "'e option"
  br_deadline :: instant

type_synonym ('f, 'w, 'e) SendBroadcasts = "(SendId, ('f, 'w, 'e) BroadcastRecord) flat_map"

definition br_next_attempt :: "('f, 'w, 'e) BroadcastRecord \<Rightarrow> instant option" where
  "br_next_attempt r =
     (case br_schedule r of Once \<Rightarrow> None | PassiveAck _ _ t \<Rightarrow> Some t | FixedInterval _ _ t \<Rightarrow> Some t)"

definition broadcast_next_wake :: "('f, 'w, 'e) BroadcastRecord \<Rightarrow> instant option" where
  "broadcast_next_wake r =
     (case br_copy r of
        CopyTransmitting \<Rightarrow> None
      | CopyQueued \<Rightarrow> Some (br_deadline r)
      | CopyIdle \<Rightarrow> Some (min (case br_next_attempt r of Some t \<Rightarrow> t | None \<Rightarrow> br_deadline r) (br_deadline r)))"

definition broadcasts_enqueue ::
  "('f, 'w, 'e) SendBroadcasts \<Rightarrow> SendId \<Rightarrow> ('f, 'w) Broadcast \<Rightarrow> instant \<Rightarrow> Tunables \<Rightarrow> ('f, 'w, 'e) SendBroadcasts" where
  "broadcasts_enqueue m i b now tunables =
     snd (fm_insert m i
       \<lparr>br_frame = Some (b_frame b), br_priority = b_priority b, br_waiter = b_waiter b, br_schedule = b_schedule b,
        br_copy = (if b_schedule b = Once then CopyQueued else CopyIdle), br_handed_off = False,
        quorum_heard = False, last_error = None, br_deadline = instant_add now (handoff_timeout tunables)\<rparr>)"

definition broadcasts_best_queued :: "('f, 'w, 'e) SendBroadcasts \<Rightarrow> instant \<Rightarrow> (SendId \<times> TxPriority) option" where
  "broadcasts_best_queued m now =
     map_option (\<lambda>(i, r). (i, br_priority r))
       (max_by_key (\<lambda>(i, r). queue_key (br_priority r) i)
         (filter (\<lambda>(_, r). br_copy r = CopyQueued \<and> now < br_deadline r) m))"

definition broadcasts_dequeue :: "('f, 'w, 'e) SendBroadcasts \<Rightarrow> SendId \<Rightarrow> ('f InFlight \<times> ('f, 'w, 'e) SendBroadcasts) run" where
  "broadcasts_dequeue m i =
     run_bind (unwrap (fm_get m i)) (\<lambda>r.
       run_bind (unwrap (br_frame r)) (\<lambda>f.
         Ret (\<lparr>fl_id = i, fl_frame = f, fl_transmit = TxBroadcast\<rparr>,
              fm_get_mut m i (\<lambda>r. r\<lparr>br_copy := CopyTransmitting, br_frame := None\<rparr>))))"

definition broadcasts_settle ::
  "SendId \<times> 'e verdict \<Rightarrow> ('f, 'w, 'e) SendBroadcasts \<Rightarrow> (('f, 'w, 'e) Actions \<times> ('f, 'w, 'e) SendBroadcasts) run" where
  "broadcasts_settle v m =
     (case fm_remove m (fst v) of (removed, m') \<Rightarrow>
        run_bind (unwrap removed) (\<lambda>r.
          run_bind (unwrap (br_frame r)) (\<lambda>f.
            Ret ((if br_handed_off r then [HandedOff (br_waiter r)] else []) @
                 [Settled (br_waiter r) (snd v) f None], m'))))"

definition rearm :: "instant \<Rightarrow> duration \<Rightarrow> Schedule \<Rightarrow> Schedule" where
  "rearm now passive_ack_interval s =
     (case s of
        Once \<Rightarrow> Once
      | PassiveAck key n _ \<Rightarrow> PassiveAck key n (instant_add now passive_ack_interval)
      | FixedInterval interval n _ \<Rightarrow> FixedInterval interval n (instant_add now interval))"

definition note_result :: "'e verdict \<Rightarrow> ('f, 'w, 'e) BroadcastRecord \<Rightarrow> ('f, 'w, 'e) BroadcastRecord" where
  "note_result result r =
     (case result of Inr _ \<Rightarrow> r\<lparr>br_handed_off := True\<rparr> | Inl err \<Rightarrow> r\<lparr>last_error := Some err\<rparr>)"

definition broadcasts_transmitted ::
  "('f, 'w, 'e) SendBroadcasts \<Rightarrow> SendId \<Rightarrow> 'f \<Rightarrow> 'e verdict \<Rightarrow> instant \<Rightarrow> duration \<Rightarrow>
   (('f, 'w, 'e) Actions \<times> ('f, 'w, 'e) SendBroadcasts) run" where
  "broadcasts_transmitted m i f result now passive_ack_interval =
     run_bind (unwrap (fm_get m i)) (\<lambda>r.
       let r1 = r\<lparr>br_copy := CopyIdle, br_frame := Some f\<rparr> in
       if br_schedule r1 = Once then broadcasts_settle (i, result) (fm_get_mut m i (\<lambda>_. r1))
       else
         (let r2 = r1\<lparr>br_schedule := rearm now passive_ack_interval (br_schedule r1)\<rparr>;
              first_handoff = (\<not> isl result \<and> \<not> br_handed_off r2);
              r3 = note_result result r2;
              m3 = fm_get_mut m i (\<lambda>_. r3)
          in if quorum_heard r3 \<and> br_handed_off r3 then broadcasts_settle (i, Inr ()) m3
             else Ret (if first_handoff then [HandedOff (br_waiter r3)] else [], m3)))"

definition awaiting_quorum :: "('f, 'w, 'e) SendBroadcasts \<Rightarrow> (Nwk \<times> u8) list" where
  "awaiting_quorum m =
     List.map_filter (\<lambda>r. case br_schedule r of PassiveAck key _ _ \<Rightarrow> if \<not> quorum_heard r then Some key else None
                                  | _ \<Rightarrow> None) (fm_values m)"

definition schedule_key :: "Schedule \<Rightarrow> (Nwk \<times> u8) option" where
  "schedule_key s = (case s of PassiveAck key _ _ \<Rightarrow> Some key | _ \<Rightarrow> None)"

definition broadcasts_delivered ::
  "('f, 'w, 'e) SendBroadcasts \<Rightarrow> Nwk \<times> u8 \<Rightarrow> (('f, 'w, 'e) Actions \<times> ('f, 'w, 'e) SendBroadcasts) run" where
  "broadcasts_delivered m key =
     (case find_map (\<lambda>(i, r). if schedule_key (br_schedule r) = Some key then Some i else None) m of
        None \<Rightarrow> Ret ([], m)
      | Some i \<Rightarrow>
          run_bind (unwrap (fm_get m i)) (\<lambda>r.
            if br_copy r = CopyTransmitting \<or> \<not> br_handed_off r
            then Ret ([], fm_get_mut m i (\<lambda>r. r\<lparr>quorum_heard := True\<rparr>))
            else broadcasts_settle (i, Inr ()) m))"

definition broadcasts_abandon :: "('f, 'w, 'e) SendBroadcasts \<Rightarrow> 'w list" where
  "broadcasts_abandon m = map (\<lambda>(_, r). br_waiter r) m"

definition broadcasts_cancel ::
  "(SendFailure \<Rightarrow> 'e) \<Rightarrow> ('f, 'w, 'e) SendBroadcasts \<Rightarrow> SendId \<Rightarrow> (('f, 'w, 'e) Actions \<times> ('f, 'w, 'e) SendBroadcasts) option run" where
  "broadcasts_cancel into m i =
     (case fm_get m i of
        None \<Rightarrow> Ret None
      | Some r \<Rightarrow>
          if br_copy r = CopyTransmitting then Ret None
          else run_bind (broadcasts_settle (i, Inl (into Cancelled)) m) (Ret \<circ> Some))"

definition schedule_due :: "Schedule \<Rightarrow> instant \<Rightarrow> Due option \<times> Schedule" where
  "schedule_due s now =
     (case s of
        Once \<Rightarrow> (None, s)
      | PassiveAck key n t \<Rightarrow>
          if t > now then (None, s) else if n = 0 then (Some DueOver, s) else (Some DueCopy, PassiveAck key (n - 1) t)
      | FixedInterval interval n t \<Rightarrow>
          if t > now then (None, s) else if n = 0 then (Some DueOver, s)
          else (Some DueCopy, FixedInterval interval (n - 1) t))"

definition handed_off_verdict :: "(SendFailure \<Rightarrow> 'e) \<Rightarrow> Schedule \<Rightarrow> 'e verdict run" where
  "handed_off_verdict into s =
     (case s of
        PassiveAck _ _ _ \<Rightarrow> Ret (Inl (into BroadcastQuorumNotReached))
      | FixedInterval _ _ _ \<Rightarrow> Ret (Inr ())
      | Once \<Rightarrow> Panic)"

text \<open>One iteration of the timer pass: the record afterwards and the verdict to settle it with, if any.\<close>

definition broadcast_deadline_check ::
  "(SendFailure \<Rightarrow> 'e) \<Rightarrow> instant \<Rightarrow> ('f, 'w, 'e) BroadcastRecord \<Rightarrow> (('f, 'w, 'e) BroadcastRecord \<times> 'e verdict option) run" where
  "broadcast_deadline_check into now r =
     (if br_deadline r \<le> now then
        run_bind (if br_handed_off r then handed_off_verdict into (br_schedule r) else Ret (Inl (into HandoffTimeout)))
          (\<lambda>v. Ret (r, Some v))
      else Ret (r, None))"

definition broadcast_tick_record ::
  "(SendFailure \<Rightarrow> 'e) \<Rightarrow> instant \<Rightarrow> ('f, 'w, 'e) BroadcastRecord \<Rightarrow> (('f, 'w, 'e) BroadcastRecord \<times> 'e verdict option) run" where
  "broadcast_tick_record into now r =
     (case br_copy r of
        CopyTransmitting \<Rightarrow> Ret (r, None)
      | CopyQueued \<Rightarrow> broadcast_deadline_check into now r
      | CopyIdle \<Rightarrow>
          (case schedule_due (br_schedule r) now of
             (None, s) \<Rightarrow> broadcast_deadline_check into now r
           | (Some DueCopy, s) \<Rightarrow> broadcast_deadline_check into now (r\<lparr>br_schedule := s, br_copy := CopyQueued\<rparr>)
           | (Some DueOver, s) \<Rightarrow>
               run_bind (if br_handed_off r then handed_off_verdict into (br_schedule r)
                         else run_bind (unwrap (last_error r)) (Ret \<circ> Inl))
                 (\<lambda>v. Ret (r, Some v))))"

fun broadcasts_tick_pass ::
  "(SendFailure \<Rightarrow> 'e) \<Rightarrow> instant \<Rightarrow> ('f, 'w, 'e) SendBroadcasts \<Rightarrow>
   (('f, 'w, 'e) SendBroadcasts \<times> (SendId \<times> 'e verdict) list) run" where
  "broadcasts_tick_pass into now [] = Ret ([], [])"
| "broadcasts_tick_pass into now ((i, r) # m) =
     run_bind (broadcast_tick_record into now r) (\<lambda>(r', v).
       run_bind (broadcasts_tick_pass into now m) (\<lambda>(m', vs).
         Ret ((i, r') # m', (case v of Some x \<Rightarrow> (i, x) # vs | None \<Rightarrow> vs))))"

definition broadcasts_tick ::
  "(SendFailure \<Rightarrow> 'e) \<Rightarrow> ('f, 'w, 'e) SendBroadcasts \<Rightarrow> instant \<Rightarrow> (('f, 'w, 'e) Actions \<times> ('f, 'w, 'e) SendBroadcasts) run" where
  "broadcasts_tick into m now =
     run_bind (broadcasts_tick_pass into now m) (\<lambda>(m1, vs). settle_each broadcasts_settle vs m1)"

definition broadcasts_next_wake :: "('f, 'w, 'e) SendBroadcasts \<Rightarrow> instant option" where
  "broadcasts_next_wake m = min_list_opt (List.map_filter broadcast_next_wake (fm_values m))"

section \<open>Invariant\<close>

definition copies_remaining :: "Schedule \<Rightarrow> nat" where
  "copies_remaining s = (case s of Once \<Rightarrow> 0 | PassiveAck _ n _ \<Rightarrow> unat n | FixedInterval _ n _ \<Rightarrow> unat n)"

text \<open>
  The frame is missing exactly while a copy is on loan to the radio; a single copy is never idle and never marked
  as handed off; an idle schedule of which no copy was reported on has a copy left to send.
\<close>

definition broadcast_ok :: "('f, 'w, 'e) BroadcastRecord \<Rightarrow> bool" where
  "broadcast_ok r \<longleftrightarrow>
     (br_frame r = None) = (br_copy r = CopyTransmitting) \<and>
     (br_schedule r = Once \<longrightarrow> br_copy r \<noteq> CopyIdle \<and> \<not> br_handed_off r) \<and>
     (br_schedule r \<noteq> Once \<and> br_copy r = CopyIdle \<and> \<not> br_handed_off r \<and> last_error r = None \<longrightarrow>
        copies_remaining (br_schedule r) > 0)"

definition broadcasts_inv :: "('f, 'w, 'e) SendBroadcasts \<Rightarrow> bool" where
  "broadcasts_inv m \<longleftrightarrow> fm_inv m \<and> (\<forall>i r. fm_get m i = Some r \<longrightarrow> broadcast_ok r)"

definition broadcasts_radio :: "('f, 'w, 'e) SendBroadcasts \<Rightarrow> SendId set" where
  "broadcasts_radio m = {i. \<exists>r. fm_get m i = Some r \<and> br_copy r = CopyTransmitting}"

abbreviation "broadcasts_waiters \<equiv> live_waiters br_waiter"
abbreviation "broadcasts_step R m res \<equiv> table_step broadcasts_inv record_ids broadcasts_radio broadcasts_waiters R m res"

lemma broadcasts_invD:
  assumes "broadcasts_inv m"
  shows "fm_inv m" "fm_get m i = Some r \<Longrightarrow> broadcast_ok r"
  using assms by (auto simp: broadcasts_inv_def)

lemma broadcasts_inv_insert: "broadcasts_inv m \<Longrightarrow> broadcast_ok r \<Longrightarrow> broadcasts_inv (snd (fm_insert m i r))"
  by (auto simp: broadcasts_inv_def tbl split: if_splits)

lemma broadcasts_inv_remove: "broadcasts_inv m \<Longrightarrow> broadcasts_inv (snd (fm_remove m i))"
  by (auto simp: broadcasts_inv_def tbl split: if_splits)

lemma broadcasts_inv_get_mut:
  "broadcasts_inv m \<Longrightarrow> fm_get m i = Some r \<Longrightarrow> broadcast_ok (f r) \<Longrightarrow> broadcasts_inv (fm_get_mut m i f)"
  by (auto simp: broadcasts_inv_def tbl split: if_splits)

lemma broadcasts_radio_remove: "broadcasts_inv m \<Longrightarrow> broadcasts_radio (snd (fm_remove m i)) = broadcasts_radio m - {i}"
  by (auto simp: broadcasts_radio_def broadcasts_inv_def tbl split: if_splits)

lemma broadcasts_radio_get_mut:
  "broadcasts_inv m \<Longrightarrow> fm_get m i = Some r \<Longrightarrow>
   broadcasts_radio (fm_get_mut m i f) =
     (if br_copy (f r) = CopyTransmitting then insert i (broadcasts_radio m) else broadcasts_radio m - {i})"
  by (auto simp: broadcasts_radio_def broadcasts_inv_def tbl split: if_splits)

section \<open>Settling\<close>

definition broadcast_report :: "('f, 'w, 'e) BroadcastRecord \<Rightarrow> 'e verdict \<Rightarrow> ('f, 'w, 'e) Actions" where
  "broadcast_report r v =
     (if br_handed_off r then [HandedOff (br_waiter r)] else []) @ [Settled (br_waiter r) v (the (br_frame r)) None]"

interpretation broadcasts: settling broadcasts_settle br_waiter broadcast_report "\<lambda>r. br_frame r \<noteq> None"
  by unfold_locales (auto simp: broadcasts_settle_def broadcast_report_def split_beta tbl)

lemma broadcasts_settle_step:
  assumes inv: "broadcasts_inv m" and r: "fm_get m i = Some r" "br_copy r \<noteq> CopyTransmitting"
  shows "broadcasts_step (broadcasts_radio m) m (broadcasts_settle (i, v) m)"
proof -
  have "br_frame r \<noteq> None" using broadcasts_invD(2) [OF inv r(1)] r(2) by (simp add: broadcast_ok_def)
  note s = broadcasts.settle_one [OF broadcasts_invD(1) [OF inv] r(1) this, of v]
  have "broadcasts_radio (snd (fm_remove m i)) = broadcasts_radio m"
    using r unfolding broadcasts_radio_remove [OF inv] by (auto simp: broadcasts_radio_def)
  with s inv broadcasts_invD(1) [OF inv] show ?thesis by (intro table_stepI) (auto simp: broadcasts_inv_remove)
qed

lemma broadcasts_settle_mut_step:
  assumes inv: "broadcasts_inv m" and r: "fm_get m i = Some r"
    and f: "br_frame (f r) \<noteq> None" "br_waiter (f r) = br_waiter r"
  shows "broadcasts_step (broadcasts_radio m - {i}) m (broadcasts_settle (i, v) (fm_get_mut m i f))"
proof -
  note fm = broadcasts_invD(1) [OF inv]
  have "fm_get (fm_get_mut m i f) i = Some (f r)" using fm r by (simp add: tbl)
  note s = broadcasts.settle_one [OF fm.inv_get_mut [OF fm] this f(1), of v]
  show ?thesis
  proof (rule table_stepI [OF s(1)])
    show "broadcasts_waiters m = broadcasts_waiters (snd (fm_remove (fm_get_mut m i f) i)) + settled_waiters (broadcast_report (f r) v)"
      using s(2) live_waiters_get_mut [where w = br_waiter and f = f, OF fm r f(2)] by simp
  qed (use inv fm in \<open>auto simp: remove_get_mut broadcasts_inv_remove broadcasts_radio_remove\<close>)
qed

lemma broadcasts_get_mut_step:
  assumes inv: "broadcasts_inv m" and r: "fm_get m i = Some r"
    and f: "broadcast_ok (f r)" "br_waiter (f r) = br_waiter r"
    and as: "settled_waiters as = {#}"
    and R: "R = (if br_copy (f r) = CopyTransmitting then insert i (broadcasts_radio m) else broadcasts_radio m - {i})"
  shows "broadcasts_step R m (Ret (as, fm_get_mut m i f))"
proof (rule table_stepI [OF refl])
  show "broadcasts_inv (fm_get_mut m i f)" by (rule broadcasts_inv_get_mut [where f = f, OF inv r f(1)])
  show "broadcasts_radio (fm_get_mut m i f) = R" unfolding R by (rule broadcasts_radio_get_mut [OF inv r])
  show "broadcasts_waiters m = broadcasts_waiters (fm_get_mut m i f) + settled_waiters as"
    using live_waiters_get_mut [where w = br_waiter and f = f, OF broadcasts_invD(1) [OF inv] r f(2)] as by simp
qed (use broadcasts_invD(1) [OF inv] in simp)

section \<open>Each operation is a step\<close>

lemma broadcasts_enqueue_facts:
  assumes inv: "broadcasts_inv m" and fresh: "fm_get m i = None"
    and copies: "b_schedule b \<noteq> Once \<Longrightarrow> copies_remaining (b_schedule b) > 0"
  shows "broadcasts_inv (broadcasts_enqueue m i b now tunables)"
    and "record_ids (broadcasts_enqueue m i b now tunables) = insert i (record_ids m)"
    and "broadcasts_radio (broadcasts_enqueue m i b now tunables) = broadcasts_radio m"
    and "broadcasts_waiters (broadcasts_enqueue m i b now tunables) = add_mset (b_waiter b) (broadcasts_waiters m)"
proof -
  note fm = broadcasts_invD(1) [OF inv]
  show "broadcasts_inv (broadcasts_enqueue m i b now tunables)"
    unfolding broadcasts_enqueue_def using copies
    by (intro broadcasts_inv_insert [OF inv]) (simp add: broadcast_ok_def)
  show "record_ids (broadcasts_enqueue m i b now tunables) = insert i (record_ids m)"
    using fm by (simp add: broadcasts_enqueue_def)
  show "broadcasts_radio (broadcasts_enqueue m i b now tunables) = broadcasts_radio m"
    using fm fresh by (auto simp: broadcasts_enqueue_def broadcasts_radio_def tbl split: if_splits)
  show "broadcasts_waiters (broadcasts_enqueue m i b now tunables) = add_mset (b_waiter b) (broadcasts_waiters m)"
    using fm fresh by (simp add: broadcasts_enqueue_def live_waiters_insert)
qed

lemma broadcasts_best_queued_Some:
  assumes "fm_inv m" "broadcasts_best_queued m now = Some (i, p)"
  shows "\<exists>r. fm_get m i = Some r \<and> br_copy r = CopyQueued \<and> now < br_deadline r \<and> br_priority r = p \<and>
    (\<forall>j r'. fm_get m j = Some r' \<and> br_copy r' = CopyQueued \<and> now < br_deadline r' \<longrightarrow>
       br_priority r' < p \<or> br_priority r' = p \<and> i \<le> j)"
proof -
  obtain r where r: "max_by_key (\<lambda>(i, r). queue_key (br_priority r) i)
         (filter (\<lambda>(_, r). br_copy r = CopyQueued \<and> now < br_deadline r) m) = Some (i, r)" "br_priority r = p"
    using assms(2) by (auto simp: broadcasts_best_queued_def)
  from max_by_key_SomeD [OF r(1)] r(2) show ?thesis
    by (intro exI [of _ r]) (force simp: queue_key_le fm.iter_iff_get [OF assms(1)])
qed

lemma broadcasts_best_queued_None:
  "fm_inv m \<Longrightarrow> broadcasts_best_queued m now = None \<longleftrightarrow>
   (\<forall>i r. fm_get m i = Some r \<longrightarrow> \<not> (br_copy r = CopyQueued \<and> now < br_deadline r))"
  by (force simp: broadcasts_best_queued_def filter_empty_conv fm.iter_iff_get [symmetric])

lemma broadcasts_dequeue_facts:
  assumes inv: "broadcasts_inv m" and r: "fm_get m i = Some r" "br_copy r = CopyQueued"
  shows "\<exists>fl m'. broadcasts_dequeue m i = Ret (fl, m') \<and> fl_id fl = i \<and> Some (fl_frame fl) = br_frame r \<and>
    fl_transmit fl = TxBroadcast \<and>
    broadcasts_inv m' \<and> record_ids m' = record_ids m \<and> broadcasts_radio m' = insert i (broadcasts_radio m) \<and>
    broadcasts_waiters m' = broadcasts_waiters m"
proof -
  note ok = broadcasts_invD(2) [OF inv r(1)]
  obtain f where f: "br_frame r = Some f" using ok r(2) by (auto simp: broadcast_ok_def)
  let ?g = "\<lambda>r. r\<lparr>br_copy := CopyTransmitting, br_frame := None\<rparr>"
  have "broadcasts_inv (fm_get_mut m i ?g)"
    using ok by (intro broadcasts_inv_get_mut [OF inv r(1)]) (auto simp: broadcast_ok_def)
  moreover have "broadcasts_radio (fm_get_mut m i ?g) = insert i (broadcasts_radio m)"
    by (subst broadcasts_radio_get_mut [OF inv r(1)]) simp
  moreover have "broadcasts_waiters (fm_get_mut m i ?g) = broadcasts_waiters m"
    by (rule live_waiters_get_mut [OF broadcasts_invD(1) [OF inv] r(1)]) simp
  ultimately show ?thesis
    using r f broadcasts_invD(1) [OF inv] by (auto simp: broadcasts_dequeue_def)
qed

lemma rearm_simps [simp]: "rearm now d s = Once \<longleftrightarrow> s = Once"
  by (auto simp: rearm_def split: Schedule.split)

lemma broadcasts_transmitted_step:
  assumes inv: "broadcasts_inv m" and i: "i \<in> broadcasts_radio m"
  shows "broadcasts_step (broadcasts_radio m - {i}) m (broadcasts_transmitted m i f result now d)"
proof -
  obtain r where r: "fm_get m i = Some r" "br_copy r = CopyTransmitting" using i by (auto simp: broadcasts_radio_def)
  let ?r1 = "r\<lparr>br_copy := CopyIdle, br_frame := Some f\<rparr>"
  let ?r3 = "note_result result (?r1\<lparr>br_schedule := rearm now d (br_schedule r)\<rparr>)"
  have r3: "br_waiter ?r3 = br_waiter r" "br_frame ?r3 = Some f" "br_copy ?r3 = CopyIdle"
      "br_schedule ?r3 = rearm now d (br_schedule r)" "br_handed_off ?r3 \<or> last_error ?r3 \<noteq> None"
    by (auto simp: note_result_def split: sum.split)
  show ?thesis
  proof (cases "br_schedule r = Once")
    case True
    have "broadcasts_transmitted m i f result now d = broadcasts_settle (i, result) (fm_get_mut m i (\<lambda>_. ?r1))"
      using r True by (simp add: broadcasts_transmitted_def Let_def)
    then show ?thesis using broadcasts_settle_mut_step [OF inv r(1), of "\<lambda>_. ?r1"] by simp
  next
    case False
    have res: "broadcasts_transmitted m i f result now d =
        (if quorum_heard ?r3 \<and> br_handed_off ?r3 then broadcasts_settle (i, Inr ()) (fm_get_mut m i (\<lambda>_. ?r3))
         else Ret (if \<not> isl result \<and> \<not> br_handed_off r then [HandedOff (br_waiter ?r3)] else [], fm_get_mut m i (\<lambda>_. ?r3)))"
      using r False by (simp add: broadcasts_transmitted_def Let_def)
    have ok: "broadcast_ok ?r3" using False r3 by (auto simp: broadcast_ok_def)
    have settle: "broadcasts_step (broadcasts_radio m - {i}) m (broadcasts_settle (i, v) (fm_get_mut m i (\<lambda>_. ?r3)))" for v
      by (rule broadcasts_settle_mut_step [OF inv r(1)]) (simp_all add: r3)
    have stays: "broadcasts_step (broadcasts_radio m - {i}) m (Ret (as, fm_get_mut m i (\<lambda>_. ?r3)))"
      if "settled_waiters as = {#}" for as :: "('a, 'b, 'c) Actions"
      by (rule broadcasts_get_mut_step [OF inv r(1)]) (use that ok r3 in simp_all)
    show ?thesis unfolding res by (simp add: settle stays)
  qed
qed

lemma broadcasts_delivered_step:
  assumes inv: "broadcasts_inv m"
  shows "broadcasts_step (broadcasts_radio m) m (broadcasts_delivered m key)" (is "broadcasts_step _ _ ?res")
proof (cases "find_map (\<lambda>(i, r). if schedule_key (br_schedule r) = Some key then Some i else None) m")
  case None
  then show ?thesis using inv by (auto simp: broadcasts_delivered_def intro!: table_stepI)
next
  case (Some i)
  then obtain r where "(i, r) \<in> set m" by (auto dest!: find_map_SomeD split: if_splits)
  then have r: "fm_get m i = Some r" using broadcasts_invD(1) [OF inv] by (simp add: fm.iter_iff_get)
  show ?thesis
  proof (cases "br_copy r = CopyTransmitting \<or> \<not> br_handed_off r")
    case True
    have "?res = Ret ([], fm_get_mut m i (\<lambda>r. r\<lparr>quorum_heard := True\<rparr>))"
      using True Some r by (simp add: broadcasts_delivered_def)
    moreover have "broadcast_ok (r\<lparr>quorum_heard := True\<rparr>)"
      using broadcasts_invD(2) [OF inv r] by (simp add: broadcast_ok_def)
    moreover have "broadcasts_radio m = (if br_copy r = CopyTransmitting then insert i (broadcasts_radio m) else broadcasts_radio m - {i})"
      using r by (auto simp: broadcasts_radio_def)
    ultimately show ?thesis by (simp add: broadcasts_get_mut_step [OF inv r])
  next
    case False
    have "?res = broadcasts_settle (i, Inr ()) m" using False Some r by (simp add: broadcasts_delivered_def)
    then show ?thesis using broadcasts_settle_step [OF inv r] False by simp
  qed
qed

lemma broadcasts_cancel_step:
  assumes inv: "broadcasts_inv m"
  shows "broadcasts_cancel into m i = Ret None \<and> (fm_get m i = None \<or> i \<in> broadcasts_radio m) \<or>
    (\<exists>as m'. broadcasts_cancel into m i = Ret (Some (as, m')) \<and>
       broadcasts_step (broadcasts_radio m) m (Ret (as, m')) \<and> i \<in> record_ids m \<and> record_ids m' = record_ids m - {i})"
proof (cases "fm_get m i")
  case None
  then show ?thesis by (simp add: broadcasts_cancel_def)
next
  case (Some r)
  show ?thesis
  proof (cases "br_copy r = CopyTransmitting")
    case True
    then show ?thesis using Some by (auto simp: broadcasts_cancel_def broadcasts_radio_def)
  next
    case False
    then have "br_frame r \<noteq> None" using broadcasts_invD(2) [OF inv Some] by (simp add: broadcast_ok_def)
    note s = broadcasts.settle_one(1) [OF broadcasts_invD(1) [OF inv] Some this, of "Inl (into Cancelled)"]
    show ?thesis
      using Some False s broadcasts_settle_step [OF inv Some False, of "Inl (into Cancelled)"] broadcasts_invD(1) [OF inv]
      by (auto simp: broadcasts_cancel_def record_ids_def tbl)
  qed
qed

section \<open>The timer pass\<close>

text \<open>The record and the verdict after one iteration, for a record that satisfies the invariant.\<close>

definition ticked :: "(SendFailure \<Rightarrow> 'e) \<Rightarrow> instant \<Rightarrow> ('f, 'w, 'e) BroadcastRecord \<Rightarrow> ('f, 'w, 'e) BroadcastRecord" where
  "ticked into now r = fst (ret_val (broadcast_tick_record into now r))"

definition tick_verdict :: "(SendFailure \<Rightarrow> 'e) \<Rightarrow> instant \<Rightarrow> ('f, 'w, 'e) BroadcastRecord \<Rightarrow> 'e verdict option" where
  "tick_verdict into now r = snd (ret_val (broadcast_tick_record into now r))"

lemma deadline_check_cases:
  assumes "br_schedule r = Once \<Longrightarrow> \<not> br_handed_off r"
  shows "\<exists>v. broadcast_deadline_check into now r = Ret (r, v) \<and> (v = None \<longleftrightarrow> now < br_deadline r)"
  using assms by (auto simp: broadcast_deadline_check_def handed_off_verdict_def split: Schedule.split)

lemma schedule_due_cases:
  assumes "schedule_due s now = (due, s')"
  shows "(s' = Once) = (s = Once)"
    and "due = None \<Longrightarrow> s' = s"
    and "due = Some DueOver \<Longrightarrow> s \<noteq> Once \<and> copies_remaining s = 0"
    and "due = Some DueCopy \<Longrightarrow> s \<noteq> Once"
    and "due = None \<Longrightarrow> s \<noteq> Once \<Longrightarrow> (case s of Once \<Rightarrow> True | PassiveAck _ _ t \<Rightarrow> now < t | FixedInterval _ _ t \<Rightarrow> now < t)"
  using assms by (auto simp: schedule_due_def copies_remaining_def split: Schedule.splits if_splits)

lemma tick_record_ok:
  assumes ok: "broadcast_ok r"
  shows "\<exists>r' v. broadcast_tick_record into now r = Ret (r', v) \<and> br_waiter r' = br_waiter r \<and> br_frame r' = br_frame r \<and>
    (br_copy r' = CopyTransmitting) = (br_copy r = CopyTransmitting) \<and> broadcast_ok r' \<and>
    (br_copy r = CopyTransmitting \<longrightarrow> v = None) \<and>
    (v = None \<longrightarrow> (\<forall>t. broadcast_next_wake r' = Some t \<longrightarrow> now < t))"
proof (cases "br_copy r")
  case CopyTransmitting
  then show ?thesis using ok by (simp add: broadcast_tick_record_def broadcast_next_wake_def)
next
  case CopyQueued
  have "br_schedule r = Once \<Longrightarrow> \<not> br_handed_off r" using ok by (simp add: broadcast_ok_def)
  with CopyQueued ok deadline_check_cases [of r into now] show ?thesis
    by (auto simp: broadcast_tick_record_def broadcast_next_wake_def)
next
  case CopyIdle
  obtain due s where due: "schedule_due (br_schedule r) now = (due, s)" by (cases "schedule_due (br_schedule r) now")
  note d = schedule_due_cases [OF due]
  have sched: "br_schedule r \<noteq> Once" using ok CopyIdle by (auto simp: broadcast_ok_def)
  show ?thesis
  proof (cases due)
    case None
    have "now < t" if "br_next_attempt r = Some t" for t
      using d(5) None sched that by (auto simp: br_next_attempt_def split: Schedule.splits)
    then have wake: "now < t" if "broadcast_next_wake r = Some t" "now < br_deadline r" for t
      using that CopyIdle by (auto simp: broadcast_next_wake_def split: option.splits)
    obtain v where v: "broadcast_deadline_check into now r = Ret (r, v)" "v = None \<longleftrightarrow> now < br_deadline r"
      using deadline_check_cases [of r into now] sched by auto
    then have "broadcast_tick_record into now r = Ret (r, v)"
      using CopyIdle None due by (simp add: broadcast_tick_record_def)
    then show ?thesis using v(2) wake ok CopyIdle by auto
  next
    case (Some x)
    show ?thesis
    proof (cases x)
      case DueCopy
      let ?r = "r\<lparr>br_schedule := s, br_copy := CopyQueued\<rparr>"
      have "broadcast_ok ?r" using ok d(1) sched CopyIdle by (auto simp: broadcast_ok_def)
      moreover obtain v where "broadcast_deadline_check into now ?r = Ret (?r, v)" "v = None \<longleftrightarrow> now < br_deadline ?r"
        using deadline_check_cases [of ?r into now] d(1) sched by auto
      ultimately show ?thesis
        using CopyIdle Some DueCopy due by (auto simp: broadcast_tick_record_def broadcast_next_wake_def)
    next
      case DueOver
      then have "br_handed_off r \<or> last_error r \<noteq> None" using ok CopyIdle Some d(3) by (auto simp: broadcast_ok_def)
      with CopyIdle Some DueOver due ok sched show ?thesis
        by (auto simp: broadcast_tick_record_def handed_off_verdict_def split: Schedule.split)
    qed
  qed
qed

lemma ticked_facts:
  assumes "broadcast_ok r"
  shows "broadcast_tick_record into now r = Ret (ticked into now r, tick_verdict into now r)"
    and "br_waiter (ticked into now r) = br_waiter r" "br_frame (ticked into now r) = br_frame r"
    and "br_copy (ticked into now r) = CopyTransmitting \<longleftrightarrow> br_copy r = CopyTransmitting"
    and "broadcast_ok (ticked into now r)"
    and "br_copy r = CopyTransmitting \<Longrightarrow> tick_verdict into now r = None"
    and "tick_verdict into now r = None \<Longrightarrow> broadcast_next_wake (ticked into now r) = Some t \<Longrightarrow> now < t"
  using tick_record_ok [OF assms, of into now] by (auto simp: ticked_def tick_verdict_def)

lemma tick_pass_ok:
  "(\<And>i r. (i, r) \<in> set m \<Longrightarrow> broadcast_ok r) \<Longrightarrow>
   broadcasts_tick_pass into now m = Ret (fm_values_mut (ticked into now) m, verdict_list (tick_verdict into now) m)"
proof (induction m)
  case (Cons x m)
  obtain i r where x: "x = (i, r)" by (cases x)
  have "broadcast_ok r" using Cons.prems [of i r] by (simp add: x)
  moreover have "broadcasts_tick_pass into now m =
      Ret (fm_values_mut (ticked into now) m, verdict_list (tick_verdict into now) m)"
    using Cons.prems by (intro Cons.IH) auto
  ultimately show ?case
    using ticked_facts(1) [of r into now] by (simp add: x fm_values_mut_def split: option.split)
qed (simp add: fm_values_mut_def)

lemma broadcasts_tick_facts:
  assumes inv: "broadcasts_inv m"
  shows "broadcasts_step (broadcasts_radio m) m (broadcasts_tick into m now)"
    and "\<exists>as m'. broadcasts_tick into m now = Ret (as, m') \<and>
      (\<forall>i. fm_get m' i = (case fm_get m i of
         Some r \<Rightarrow> if tick_verdict into now r = None then Some (ticked into now r) else None | None \<Rightarrow> None))"
proof -
  note fm = broadcasts_invD(1) [OF inv] and ok = broadcasts_invD(2) [OF inv]
  let ?m1 = "fm_values_mut (ticked into now) m" and ?vs = "verdict_list (tick_verdict into now) m"
  have tick: "broadcasts_tick into m now = settle_each broadcasts_settle ?vs ?m1"
    using tick_pass_ok [of m into now] ok fm by (auto simp: broadcasts_tick_def fm.iter_iff_get)
  have get1: "fm_get ?m1 i = map_option (ticked into now) (fm_get m i)" for i using fm by (simp add: tbl)
  have ids: "i \<in> fst ` set ?vs \<longleftrightarrow> (\<exists>r. fm_get m i = Some r \<and> tick_verdict into now r \<noteq> None)" for i
    by (rule verdict_list_id_iff [OF fm])
  have rest: "\<exists>r. fm_get ?m1 i = Some r \<and> br_frame r \<noteq> None" if vs: "i \<in> fst ` set ?vs" for i
  proof -
    obtain r where r: "fm_get m i = Some r" "tick_verdict into now r \<noteq> None" using vs unfolding ids by blast
    then have "br_frame r \<noteq> None" using ok [OF r(1)] ticked_facts(6) [OF ok [OF r(1)]] by (auto simp: broadcast_ok_def)
    then show ?thesis using r ticked_facts(3) [OF ok [OF r(1)]] by (simp add: get1)
  qed
  obtain as m' where m': "settle_each broadcasts_settle ?vs ?m1 = Ret (as, m')" "fm_inv m'"
      "\<And>i. fm_get m' i = (if i \<in> fst ` set ?vs then None else fm_get ?m1 i)"
      "broadcasts_waiters ?m1 = broadcasts_waiters m' + settled_waiters as"
    using broadcasts.settle_each_settles [OF fm_inv_values_mut [OF fm] distinct_verdict_list [OF fm] rest] by blast
  have get: "fm_get m' i = (case fm_get m i of
         Some r \<Rightarrow> if tick_verdict into now r = None then Some (ticked into now r) else None | None \<Rightarrow> None)" for i
    unfolding m'(3) ids get1 by (auto split: option.splits)
  with m'(1) show "\<exists>as m'. broadcasts_tick into m now = Ret (as, m') \<and>
      (\<forall>i. fm_get m' i = (case fm_get m i of
         Some r \<Rightarrow> if tick_verdict into now r = None then Some (ticked into now r) else None | None \<Rightarrow> None))"
    unfolding tick by blast
  have waiters: "broadcasts_waiters ?m1 = broadcasts_waiters m"
  proof -
    have "map (\<lambda>e. br_waiter (snd e)) ?m1 = map (\<lambda>e. br_waiter (snd e)) m"
      using fm by (auto simp: fm_values_mut_def fm.iter_iff_get intro!: ticked_facts(2) dest: ok)
    then show ?thesis by (metis live_waiters_def mset_map)
  qed
  have "i \<in> broadcasts_radio m' \<longleftrightarrow> i \<in> broadcasts_radio m" for i
  proof (cases "fm_get m i")
    case (Some r)
    then show ?thesis
      using ticked_facts(4,6) [OF ok [OF Some], of into now] by (auto simp: broadcasts_radio_def get)
  qed (simp add: broadcasts_radio_def get)
  then have "broadcasts_radio m' = broadcasts_radio m" by blast
  moreover have "broadcasts_inv m'"
    using m'(2) by (auto simp: broadcasts_inv_def get split: option.splits if_splits intro!: ticked_facts(5) dest: ok)
  ultimately show "broadcasts_step (broadcasts_radio m) m (broadcasts_tick into m now)"
    unfolding tick using m'(4) waiters
    by (intro table_stepI [OF m'(1)]) (auto simp: record_ids_def get split: option.splits)
qed

end
