(* ===== verification/Sends.thy ===== *)
theory Sends
  imports Unicasts_Facts Unrouted Send_Broadcasts
begin

text \<open>
  The three send tables behind one identifier space (\<^verbatim>\<open>ziggurat-zigbee/src/sends/mod.rs\<close>). A send is one
  record in exactly one of the tables. Every mutation returns the actions the driver carries out.
\<close>

section \<open>Model\<close>

record ('f, 'w, 'e) Sends =
  next_id :: u32
  unicasts :: "('f, 'w) Unicasts"
  unrouted_unicasts :: "('f, 'w) UnroutedUnicasts"
  broadcasts :: "('f, 'w, 'e) SendBroadcasts"

definition sends_default :: "('f, 'w, 'e) Sends" where
  "sends_default = \<lparr>next_id = 0, unicasts = fm_new, unrouted_unicasts = unrouted_default, broadcasts = fm_new\<rparr>"

definition take_id :: "('f, 'w, 'e) Sends \<Rightarrow> SendId \<times> ('f, 'w, 'e) Sends" where
  "take_id s = (next_id s, s\<lparr>next_id := next_id s + 1\<rparr>)"

definition enqueue_unicast ::
  "('f, 'w, 'e) Sends \<Rightarrow> ('f, 'w) Unicast \<Rightarrow> instant \<Rightarrow> Tunables \<Rightarrow> SendId \<times> ('f, 'w, 'e) Sends" where
  "enqueue_unicast s u now tunables =
     (let (i, s1) = take_id s in (i, s1\<lparr>unicasts := unicasts_enqueue (unicasts s1) i u now None None tunables\<rparr>))"

definition enqueue_broadcast_copy ::
  "('f, 'w, 'e) Sends \<Rightarrow> SendId \<Rightarrow> ('f, 'w) Unicast \<Rightarrow> instant \<Rightarrow> Tunables \<Rightarrow> SendId \<times> ('f, 'w, 'e) Sends" where
  "enqueue_broadcast_copy s broadcast u now tunables =
     (let (i, s1) = take_id s
      in (i, s1\<lparr>unicasts := unicasts_enqueue (unicasts s1) i u now None (Some broadcast) tunables\<rparr>))"

definition enqueue_unrouted_unicast ::
  "('f, 'w, 'e) Sends \<Rightarrow> ('f, 'w) UnroutedUnicast \<Rightarrow> instant \<Rightarrow> Tunables \<Rightarrow> SendId \<times> ('f, 'w, 'e) Sends" where
  "enqueue_unrouted_unicast s u now tunables =
     (let (i, s1) = take_id s
      in (i, s1\<lparr>unrouted_unicasts := unrouted_enqueue (unrouted_unicasts s1) i u now tunables\<rparr>))"

definition enqueue_broadcast ::
  "('f, 'w, 'e) Sends \<Rightarrow> ('f, 'w) Broadcast \<Rightarrow> instant \<Rightarrow> Tunables \<Rightarrow> SendId \<times> ('f, 'w, 'e) Sends" where
  "enqueue_broadcast s b now tunables =
     (let (i, s1) = take_id s in (i, s1\<lparr>broadcasts := broadcasts_enqueue (broadcasts s1) i b now tunables\<rparr>))"

definition sends_dequeue :: "('f, 'w, 'e) Sends \<Rightarrow> instant \<Rightarrow> ('f InFlight option \<times> ('f, 'w, 'e) Sends) run" where
  "sends_dequeue s now =
     (let unicast = map_option (\<lambda>(i, p). (i, p, True)) (unicasts_best_queued (unicasts s) now);
          broadcast = map_option (\<lambda>(i, p). (i, p, False)) (broadcasts_best_queued (broadcasts s) now)
      in case max_by_key (\<lambda>(i, p, _). queue_key p i) (List.map_filter id [unicast, broadcast]) of
           None \<Rightarrow> Ret (None, s)
         | Some (i, _, from_unicasts) \<Rightarrow>
             if from_unicasts
             then run_bind (unicasts_dequeue (unicasts s) i) (\<lambda>(fl, m). Ret (Some fl, s\<lparr>unicasts := m\<rparr>))
             else run_bind (broadcasts_dequeue (broadcasts s) i) (\<lambda>(fl, m). Ret (Some fl, s\<lparr>broadcasts := m\<rparr>)))"

text \<open>Lift an operation of one table to the whole.\<close>

definition on_unicasts ::
  "('f, 'w, 'e) Sends \<Rightarrow> ('a \<times> ('f, 'w) Unicasts) run \<Rightarrow> ('a \<times> ('f, 'w, 'e) Sends) run" where
  "on_unicasts s res = run_bind res (\<lambda>(a, m). Ret (a, s\<lparr>unicasts := m\<rparr>))"

definition on_unrouted ::
  "('f, 'w, 'e) Sends \<Rightarrow> ('a \<times> ('f, 'w) UnroutedUnicasts) run \<Rightarrow> ('a \<times> ('f, 'w, 'e) Sends) run" where
  "on_unrouted s res = run_bind res (\<lambda>(a, m). Ret (a, s\<lparr>unrouted_unicasts := m\<rparr>))"

definition on_broadcasts ::
  "('f, 'w, 'e) Sends \<Rightarrow> ('a \<times> ('f, 'w, 'e) SendBroadcasts) run \<Rightarrow> ('a \<times> ('f, 'w, 'e) Sends) run" where
  "on_broadcasts s res = run_bind res (\<lambda>(a, m). Ret (a, s\<lparr>broadcasts := m\<rparr>))"

definition sends_transmitted ::
  "('f, 'w, 'e) Sends \<Rightarrow> 'f InFlight \<Rightarrow> 'e verdict \<Rightarrow> instant \<Rightarrow> duration \<Rightarrow> duration \<Rightarrow>
   (('f, 'w, 'e) Actions \<times> ('f, 'w, 'e) Sends) run" where
  "sends_transmitted s fl result now retry_delay passive_ack_interval =
     (case fl_transmit fl of
        TxUnicast _ _ \<Rightarrow> on_unicasts s (unicasts_transmitted (unicasts s) (fl_id fl) (fl_frame fl) result now retry_delay)
      | TxBroadcast \<Rightarrow>
          on_broadcasts s (broadcasts_transmitted (broadcasts s) (fl_id fl) (fl_frame fl) result now passive_ack_interval))"

definition sends_poll ::
  "('f, 'w, 'e) Sends \<Rightarrow> Eui64 option \<Rightarrow> Nwk option \<Rightarrow> instant \<Rightarrow> (bool \<times> ('f, 'w, 'e) Sends) run" where
  "sends_poll s eui64 nwk now = on_unicasts s (unicasts_poll (unicasts s) eui64 nwk now)"

definition aps_ack_received :: "('f, 'w, 'e) Sends \<Rightarrow> ApsAckData \<Rightarrow> (('f, 'w, 'e) Actions \<times> ('f, 'w, 'e) Sends) run" where
  "aps_ack_received s ack = on_unicasts s (unicasts_ack_received (unicasts s) ack)"

definition sends_retry_discovery :: "('f, 'w, 'e) Sends \<Rightarrow> Nwk \<Rightarrow> (bool \<times> ('f, 'w, 'e) Sends) run" where
  "sends_retry_discovery s d = on_unrouted s (retry_discovery (unrouted_unicasts s) d)"

definition fail_unrouted ::
  "(SendFailure \<Rightarrow> 'e) \<Rightarrow> ('f, 'w, 'e) Sends \<Rightarrow> Nwk \<Rightarrow> (('f, 'w, 'e) Actions \<times> ('f, 'w, 'e) Sends) run" where
  "fail_unrouted into s d = on_unrouted s (unrouted_fail into (unrouted_unicasts s) d)"

text \<open>The loop over the sends whose route is known; \<open>resolve\<close> may rewrite the frame or fail the send.\<close>

type_synonym ('f, 'e) resolver = "'f \<Rightarrow> ('e + Nwk \<times> Ieee802154Address option) \<times> 'f"

definition route_one ::
  "('f, 'e) resolver \<Rightarrow> instant \<Rightarrow> Tunables \<Rightarrow> SendId \<times> ('f, 'w) UnroutedRecord \<Rightarrow> ('f, 'w) Unicasts \<Rightarrow>
   ('f, 'w, 'e) Actions \<times> ('f, 'w) Unicasts" where
  "route_one resolve now tunables x m =
     (case x of (i, r) \<Rightarrow>
        (case resolve (un_frame r) of
           (Inr (hop, poll), f) \<Rightarrow>
             ([], unicasts_enqueue m i
                \<lparr>u_frame = f, u_priority = un_priority r, u_waiter = un_waiter r, u_confirm = un_confirm r,
                 u_next_hop = hop, u_poll_address = poll\<rparr> now (Some (un_deadline r)) None tunables)
         | (Inl err, f) \<Rightarrow> ([Settled (un_waiter r) (Inl err) f None], m)))"

definition route_unicasts ::
  "(SendFailure \<Rightarrow> 'e) \<Rightarrow> ('f, 'w, 'e) Sends \<Rightarrow> Nwk \<Rightarrow> instant \<Rightarrow> Tunables \<Rightarrow> ('f, 'e) resolver \<Rightarrow>
   (('f, 'w, 'e) Actions \<times> ('f, 'w, 'e) Sends) run" where
  "route_unicasts into s d now tunables resolve =
     run_bind (unrouted_tick into (unrouted_unicasts s) now) (\<lambda>(as, t1).
       run_bind (unrouted_route t1 d) (\<lambda>(taken, t2).
         run_bind (settle_each (\<lambda>x m. Ret (route_one resolve now tunables x m)) taken (unicasts s)) (\<lambda>(bs, m).
           Ret (as @ bs, s\<lparr>unicasts := m, unrouted_unicasts := t2\<rparr>))))"

definition broadcast_delivered ::
  "('f, 'w, 'e) Sends \<Rightarrow> Nwk \<times> u8 \<Rightarrow> (('f, 'w, 'e) Actions \<times> ('f, 'w, 'e) Sends) run" where
  "broadcast_delivered s key = on_broadcasts s (broadcasts_delivered (broadcasts s) key)"

definition drop_indirect_unicasts ::
  "(SendFailure \<Rightarrow> 'e) \<Rightarrow> ('f, 'w, 'e) Sends \<Rightarrow> Eui64 option \<Rightarrow> Nwk \<Rightarrow> (('f, 'w, 'e) Actions \<times> ('f, 'w, 'e) Sends) run" where
  "drop_indirect_unicasts into s eui64 nwk = on_unicasts s (unicasts_drop_indirect into (unicasts s) eui64 nwk)"

definition abandon :: "('f, 'w, 'e) Sends \<Rightarrow> 'w list \<times> ('f, 'w, 'e) Sends" where
  "abandon s =
     (unicasts_abandon (unicasts s) @ unrouted_abandon (unrouted_unicasts s) @ broadcasts_abandon (broadcasts s),
      s\<lparr>unicasts := fm_new, unrouted_unicasts := unrouted_default, broadcasts := fm_new\<rparr>)"

fun any_transmitting :: "('f, 'w) Unicasts \<Rightarrow> SendId list \<Rightarrow> bool run" where
  "any_transmitting m [] = Ret False"
| "any_transmitting m (i # is) =
     run_bind (unicasts_is_transmitting m i) (\<lambda>b. if b then Ret True else any_transmitting m is)"

definition cancel_copy ::
  "(SendFailure \<Rightarrow> 'e) \<Rightarrow> SendId \<Rightarrow> ('f, 'w) Unicasts \<Rightarrow> (('f, 'w, 'e) Actions \<times> ('f, 'w) Unicasts) run" where
  "cancel_copy into i m = run_bind (unicasts_cancel into m i) unwrap"

definition cancel_broadcast ::
  "(SendFailure \<Rightarrow> 'e) \<Rightarrow> ('f, 'w, 'e) Sends \<Rightarrow> SendId \<Rightarrow> (('f, 'w, 'e) Actions \<times> ('f, 'w, 'e) Sends) option run" where
  "cancel_broadcast into s i =
     (let copies = copies_of (unicasts s) i in
      run_bind (any_transmitting (unicasts s) copies) (\<lambda>busy.
        if busy then Ret None
        else run_bind (broadcasts_cancel into (broadcasts s) i) (\<lambda>cancelled.
          case cancelled of
            None \<Rightarrow> Ret None
          | Some (as, b) \<Rightarrow>
              run_bind (settle_each (cancel_copy into) copies (unicasts s)) (\<lambda>(bs, m).
                Ret (Some (as @ bs, s\<lparr>unicasts := m, broadcasts := b\<rparr>))))))"

definition cancel ::
  "(SendFailure \<Rightarrow> 'e) \<Rightarrow> ('f, 'w, 'e) Sends \<Rightarrow> SendId \<Rightarrow> (('f, 'w, 'e) Actions \<times> ('f, 'w, 'e) Sends) option run" where
  "cancel into s i =
     (if fm_contains_key (unicasts s) i then
        run_bind (unicasts_cancel into (unicasts s) i)
          (Ret \<circ> map_option (\<lambda>(as, m). (as, s\<lparr>unicasts := m\<rparr>)))
      else if unrouted_contains (unrouted_unicasts s) i then
        run_bind (unrouted_cancel into (unrouted_unicasts s) i) (\<lambda>(as, t). Ret (Some (as, s\<lparr>unrouted_unicasts := t\<rparr>)))
      else cancel_broadcast into s i)"

definition sends_tick ::
  "(SendFailure \<Rightarrow> 'e) \<Rightarrow> ('f, 'w, 'e) Sends \<Rightarrow> instant \<Rightarrow> (('f, 'w, 'e) Actions \<times> ('f, 'w, 'e) Sends) run" where
  "sends_tick into s now =
     run_bind (unicasts_tick into (unicasts s) now) (\<lambda>(as, m).
       run_bind (unrouted_tick into (unrouted_unicasts s) now) (\<lambda>(bs, t).
         run_bind (broadcasts_tick into (broadcasts s) now) (\<lambda>(cs, b).
           Ret (as @ bs @ cs, s\<lparr>unicasts := m, unrouted_unicasts := t, broadcasts := b\<rparr>))))"

definition sends_next_wake :: "('f, 'w, 'e) Sends \<Rightarrow> instant option" where
  "sends_next_wake s =
     min_list_opt (List.map_filter id
       [unicasts_next_wake (unicasts s), unrouted_next_wake (unrouted_unicasts s), broadcasts_next_wake (broadcasts s)])"

section \<open>Invariant\<close>

text \<open>A send is a record of one table only.\<close>

definition sends_inv :: "('f, 'w, 'e) Sends \<Rightarrow> bool" where
  "sends_inv s \<longleftrightarrow> unicasts_inv (unicasts s) \<and> unrouted_inv (unrouted_unicasts s) \<and> broadcasts_inv (broadcasts s) \<and>
     record_ids (unicasts s) \<inter> unrouted_ids (unrouted_unicasts s) = {} \<and>
     record_ids (unicasts s) \<inter> record_ids (broadcasts s) = {} \<and>
     unrouted_ids (unrouted_unicasts s) \<inter> record_ids (broadcasts s) = {}"

definition sends_ids :: "('f, 'w, 'e) Sends \<Rightarrow> SendId set" where
  "sends_ids s = record_ids (unicasts s) \<union> unrouted_ids (unrouted_unicasts s) \<union> record_ids (broadcasts s)"

definition sends_waiters :: "('f, 'w, 'e) Sends \<Rightarrow> 'w multiset" where
  "sends_waiters s = unicasts_waiters (unicasts s) + unrouted_waiters (unrouted_unicasts s) + broadcasts_waiters (broadcasts s)"

text \<open>The sends whose frame is with the radio, with the table they belong to: \<^term>\<open>True\<close> for a unicast.\<close>

definition sends_radio :: "('f, 'w, 'e) Sends \<Rightarrow> (bool \<times> SendId) set" where
  "sends_radio s = Pair True ` unicasts_radio (unicasts s) \<union> Pair False ` broadcasts_radio (broadcasts s)"

definition fl_key :: "'f InFlight \<Rightarrow> bool \<times> SendId" where
  "fl_key fl = (fl_transmit fl \<noteq> TxBroadcast, fl_id fl)"

abbreviation "sends_step R s res \<equiv> table_step sends_inv sends_ids sends_radio sends_waiters R s res"

lemma sends_invD:
  assumes "sends_inv s"
  shows "unicasts_inv (unicasts s)" "unrouted_inv (unrouted_unicasts s)" "broadcasts_inv (broadcasts s)"
    "record_ids (unicasts s) \<inter> unrouted_ids (unrouted_unicasts s) = {}"
    "record_ids (unicasts s) \<inter> record_ids (broadcasts s) = {}"
    "unrouted_ids (unrouted_unicasts s) \<inter> record_ids (broadcasts s) = {}"
  using assms by (auto simp: sends_inv_def)

lemma sends_default_facts:
  "sends_inv sends_default" "sends_ids sends_default = {}" "sends_waiters sends_default = {#}" "sends_radio sends_default = {}"
  by (simp_all add: sends_inv_def sends_default_def sends_ids_def sends_waiters_def sends_radio_def unicasts_inv_def
      broadcasts_inv_def unrouted_default_facts unicasts_radio_def broadcasts_radio_def tbl)

end
