(* ===== verification/Sends_Facts.thy ===== *)
theory Sends_Facts
  imports Sends
begin

text \<open>
  Every operation on the send tables, seen as a step of the three tables together: it does not panic, a send stays
  a record of one table, and every waiter stays live or is given its verdict.
\<close>

section \<open>Operations of one table\<close>

lemma on_unicasts_step:
  assumes inv: "sends_inv s" and step: "unicasts_step R (unicasts s) res"
  shows "sends_step (Pair True ` R \<union> Pair False ` broadcasts_radio (broadcasts s)) s (on_unicasts s res)"
proof -
  obtain as m where m: "res = Ret (as, m)" "unicasts_inv m" "record_ids m \<subseteq> record_ids (unicasts s)"
      "unicasts_radio m = R" "unicasts_waiters (unicasts s) = unicasts_waiters m + settled_waiters as"
    using step by (rule table_stepE)
  from m(1) have res: "on_unicasts s res = Ret (as, s\<lparr>unicasts := m\<rparr>)" by (simp add: on_unicasts_def)
  show ?thesis
    using m(2-) sends_invD [OF inv]
    by (intro table_stepI [OF res]) (auto simp: sends_inv_def sends_ids_def sends_radio_def sends_waiters_def)
qed

lemma on_unrouted_step:
  assumes inv: "sends_inv s" and step: "unrouted_step (unrouted_unicasts s) res"
  shows "sends_step (sends_radio s) s (on_unrouted s res)"
proof -
  obtain as t where t: "res = Ret (as, t)" "unrouted_inv t" "unrouted_ids t \<subseteq> unrouted_ids (unrouted_unicasts s)"
      "unrouted_waiters (unrouted_unicasts s) = unrouted_waiters t + settled_waiters as"
    using step by (rule table_stepE)
  from t(1) have res: "on_unrouted s res = Ret (as, s\<lparr>unrouted_unicasts := t\<rparr>)" by (simp add: on_unrouted_def)
  show ?thesis
    using t(2-) sends_invD [OF inv]
    by (intro table_stepI [OF res]) (auto simp: sends_inv_def sends_ids_def sends_radio_def sends_waiters_def)
qed

lemma on_broadcasts_step:
  assumes inv: "sends_inv s" and step: "broadcasts_step R (broadcasts s) res"
  shows "sends_step (Pair True ` unicasts_radio (unicasts s) \<union> Pair False ` R) s (on_broadcasts s res)"
proof -
  obtain as m where m: "res = Ret (as, m)" "broadcasts_inv m" "record_ids m \<subseteq> record_ids (broadcasts s)"
      "broadcasts_radio m = R" "broadcasts_waiters (broadcasts s) = broadcasts_waiters m + settled_waiters as"
    using step by (rule table_stepE)
  from m(1) have res: "on_broadcasts s res = Ret (as, s\<lparr>broadcasts := m\<rparr>)" by (simp add: on_broadcasts_def)
  show ?thesis
    using m(2-) sends_invD [OF inv]
    by (intro table_stepI [OF res]) (auto simp: sends_inv_def sends_ids_def sends_radio_def sends_waiters_def)
qed

lemma radio_ids: "unicasts_radio m \<subseteq> record_ids m" "broadcasts_radio b \<subseteq> record_ids b"
  by (auto simp: unicasts_radio_def broadcasts_radio_def record_ids_def)

lemmas on_unicasts_same = on_unicasts_step [where R = "unicasts_radio (unicasts s)" and s = s for s, folded sends_radio_def]
lemmas on_broadcasts_same = on_broadcasts_step [where R = "broadcasts_radio (broadcasts s)" and s = s for s, folded sends_radio_def]

lemma aps_ack_received_step: "sends_inv s \<Longrightarrow> sends_step (sends_radio s) s (aps_ack_received s ack)"
  unfolding aps_ack_received_def by (intro on_unicasts_same unicasts_ack_received_step) (simp_all add: sends_invD)

lemma drop_indirect_unicasts_step: "sends_inv s \<Longrightarrow> sends_step (sends_radio s) s (drop_indirect_unicasts into s eui64 nwk)"
  unfolding drop_indirect_unicasts_def by (intro on_unicasts_same unicasts_drop_indirect_step) (simp_all add: sends_invD)

lemma broadcast_delivered_step: "sends_inv s \<Longrightarrow> sends_step (sends_radio s) s (broadcast_delivered s key)"
  unfolding broadcast_delivered_def by (intro on_broadcasts_same broadcasts_delivered_step) (simp_all add: sends_invD)

lemma fail_unrouted_step: "sends_inv s \<Longrightarrow> sends_step (sends_radio s) s (fail_unrouted into s d)"
  unfolding fail_unrouted_def by (intro on_unrouted_step unrouted_fail_step) (simp_all add: sends_invD)

lemma sends_poll_facts:
  assumes inv: "sends_inv s"
  shows "\<exists>b s'. sends_poll s eui64 nwk now = Ret (b, s') \<and> sends_inv s' \<and> sends_ids s' = sends_ids s \<and>
    sends_radio s' = sends_radio s \<and> sends_waiters s' = sends_waiters s \<and> next_id s' = next_id s"
proof -
  obtain b m where m: "unicasts_poll (unicasts s) eui64 nwk now = Ret (b, m)" "unicasts_inv m"
      "record_ids m = record_ids (unicasts s)" "unicasts_radio m = unicasts_radio (unicasts s)"
      "unicasts_waiters m = unicasts_waiters (unicasts s)"
    using unicasts_poll_step [OF sends_invD(1) [OF inv]] by blast
  then show ?thesis
    using sends_invD [OF inv] by (auto simp: sends_poll_def on_unicasts_def sends_inv_def sends_ids_def sends_waiters_def sends_radio_def)
qed

lemma sends_retry_discovery_facts:
  assumes inv: "sends_inv s" and d: "has_unrouted (unrouted_unicasts s) d"
  shows "\<exists>b s'. sends_retry_discovery s d = Ret (b, s') \<and> sends_inv s' \<and> sends_ids s' = sends_ids s \<and>
    sends_radio s' = sends_radio s \<and> sends_waiters s' = sends_waiters s \<and> next_id s' = next_id s"
proof -
  obtain b t where t: "retry_discovery (unrouted_unicasts s) d = Ret (b, t)" "unrouted_inv t"
      "un_records t = un_records (unrouted_unicasts s)"
    using retry_discovery_facts [OF sends_invD(2) [OF inv] d] by blast
  then show ?thesis
    using sends_invD [OF inv]
    by (auto simp: sends_retry_discovery_def on_unrouted_def sends_inv_def sends_ids_def sends_waiters_def
        unrouted_ids_def unrouted_waiters_def sends_radio_def)
qed

lemma sends_transmitted_step:
  assumes inv: "sends_inv s" and fl: "fl_key fl \<in> sends_radio s"
  shows "sends_step (sends_radio s - {fl_key fl}) s (sends_transmitted s fl result now d1 d2)"
proof (cases "fl_transmit fl")
  case (TxUnicast hop pending)
  then have i: "fl_id fl \<in> unicasts_radio (unicasts s)" using fl by (auto simp: fl_key_def sends_radio_def)
  have "Pair True ` (unicasts_radio (unicasts s) - {fl_id fl}) \<union> Pair False ` broadcasts_radio (broadcasts s) =
      sends_radio s - {fl_key fl}"
    using TxUnicast by (auto simp: sends_radio_def fl_key_def)
  with on_unicasts_step [OF inv unicasts_transmitted_step [OF sends_invD(1) [OF inv] i, of "fl_frame fl" result now d1]] TxUnicast
  show ?thesis by (simp add: sends_transmitted_def)
next
  case TxBroadcast
  then have i: "fl_id fl \<in> broadcasts_radio (broadcasts s)" using fl by (auto simp: fl_key_def sends_radio_def)
  have "Pair True ` unicasts_radio (unicasts s) \<union> Pair False ` (broadcasts_radio (broadcasts s) - {fl_id fl}) =
      sends_radio s - {fl_key fl}"
    using TxBroadcast by (auto simp: sends_radio_def fl_key_def)
  with on_broadcasts_step [OF inv broadcasts_transmitted_step [OF sends_invD(3) [OF inv] i, of "fl_frame fl" result now d2]] TxBroadcast
  show ?thesis by (simp add: sends_transmitted_def)
qed

section \<open>The timer pass\<close>

lemma sends_tick_step:
  assumes inv: "sends_inv s"
  shows "sends_step (sends_radio s) s (sends_tick into s now)"
proof -
  obtain as m where m: "unicasts_tick into (unicasts s) now = Ret (as, m)" "unicasts_inv m"
      "record_ids m \<subseteq> record_ids (unicasts s)" "unicasts_radio m = unicasts_radio (unicasts s)"
      "unicasts_waiters (unicasts s) = unicasts_waiters m + settled_waiters as"
    using unicasts_tick_facts(1) [OF sends_invD(1) [OF inv]] by (rule table_stepE)
  obtain bs t where t: "unrouted_tick into (unrouted_unicasts s) now = Ret (bs, t)" "unrouted_inv t"
      "unrouted_ids t \<subseteq> unrouted_ids (unrouted_unicasts s)"
      "unrouted_waiters (unrouted_unicasts s) = unrouted_waiters t + settled_waiters bs"
    using unrouted_tick_facts(1) [OF sends_invD(2) [OF inv]] by (rule table_stepE)
  obtain cs b where b: "broadcasts_tick into (broadcasts s) now = Ret (cs, b)" "broadcasts_inv b"
      "record_ids b \<subseteq> record_ids (broadcasts s)" "broadcasts_radio b = broadcasts_radio (broadcasts s)"
      "broadcasts_waiters (broadcasts s) = broadcasts_waiters b + settled_waiters cs"
    using broadcasts_tick_facts(1) [OF sends_invD(3) [OF inv]] by (rule table_stepE)
  have res: "sends_tick into s now = Ret (as @ bs @ cs, s\<lparr>unicasts := m, unrouted_unicasts := t, broadcasts := b\<rparr>)"
    using m(1) t(1) b(1) by (simp add: sends_tick_def)
  show ?thesis
    using m(2-) t(2-) b(2-) sends_invD [OF inv]
    by (intro table_stepI [OF res]) (auto simp: sends_inv_def sends_ids_def sends_radio_def sends_waiters_def)
qed

section \<open>Routing the held sends\<close>

lemma route_each:
  assumes "unicasts_inv m" "distinct (map fst xs)" "fst ` set xs \<inter> record_ids m = {}"
  shows "\<exists>bs m'. settle_each (\<lambda>x m. Ret (route_one resolve now tunables x m)) xs m = Ret (bs, m') \<and> unicasts_inv m' \<and>
    record_ids m' \<subseteq> record_ids m \<union> fst ` set xs \<and> unicasts_radio m' = unicasts_radio m \<and>
    unicasts_waiters m + live_waiters un_waiter xs = unicasts_waiters m' + settled_waiters bs"
  using assms
proof (induction xs arbitrary: m)
  case (Cons x xs)
  obtain i r where x: "x = (i, r)" by (cases x)
  have fresh: "fm_get m i = None" using Cons.prems(3) by (auto simp: x record_ids_def)
  obtain bs m1 where one: "route_one resolve now tunables x m = (bs, m1)" by (cases "route_one resolve now tunables x m")
  have m1: "unicasts_inv m1 \<and> record_ids m1 \<subseteq> insert i (record_ids m) \<and> unicasts_radio m1 = unicasts_radio m \<and>
      add_mset (un_waiter r) (unicasts_waiters m) = unicasts_waiters m1 + settled_waiters bs"
    using one unicasts_enqueue_facts [OF Cons.prems(1) fresh] Cons.prems(1)
    by (auto simp: route_one_def x split: prod.splits sum.splits)
  moreover have "fst ` set xs \<inter> record_ids m1 = {}" using m1 Cons.prems(2,3) by (auto simp: x)
  ultimately obtain cs m' where m': "settle_each (\<lambda>x m. Ret (route_one resolve now tunables x m)) xs m1 = Ret (cs, m')"
      "unicasts_inv m'" "record_ids m' \<subseteq> record_ids m1 \<union> fst ` set xs" "unicasts_radio m' = unicasts_radio m1"
      "unicasts_waiters m1 + live_waiters un_waiter xs = unicasts_waiters m' + settled_waiters cs"
    using Cons.IH [of m1] Cons.prems(2) by auto
  have "unicasts_waiters m + live_waiters un_waiter (x # xs) = unicasts_waiters m' + settled_waiters (bs @ cs)"
  proof -
    have "unicasts_waiters m + live_waiters un_waiter (x # xs) =
        add_mset (un_waiter r) (unicasts_waiters m) + live_waiters un_waiter xs"
      by (simp add: x live_waiters_def)
    also have "\<dots> = (unicasts_waiters m1 + live_waiters un_waiter xs) + settled_waiters bs"
      using m1 by simp
    also have "\<dots> = unicasts_waiters m' + settled_waiters (bs @ cs)" unfolding m'(5) by simp
    finally show ?thesis .
  qed
  with one m1 m' show ?case by (auto simp: x)
qed (simp add: live_waiters_def)

lemma route_unicasts_step:
  assumes inv: "sends_inv s"
  shows "sends_step (sends_radio s) s (route_unicasts into s d now tunables resolve)"
proof -
  obtain as t1 where t1: "unrouted_tick into (unrouted_unicasts s) now = Ret (as, t1)" "unrouted_inv t1"
      "unrouted_ids t1 \<subseteq> unrouted_ids (unrouted_unicasts s)"
      "unrouted_waiters (unrouted_unicasts s) = unrouted_waiters t1 + settled_waiters as"
    using unrouted_tick_facts(1) [OF sends_invD(2) [OF inv]] by (rule table_stepE)
  let ?xs = "filter (\<lambda>(_, r). un_destination r = d) (un_records t1)"
  obtain t2 where t2: "unrouted_route t1 d = Ret (?xs, t2)" "unrouted_inv t2" "unrouted_ids t2 \<subseteq> unrouted_ids t1"
      "\<And>i r. fm_get (un_records t2) i = Some r \<longleftrightarrow> fm_get (un_records t1) i = Some r \<and> un_destination r \<noteq> d"
      "unrouted_waiters t1 = unrouted_waiters t2 + live_waiters un_waiter ?xs"
    using unrouted_take_facts [OF t1(2) refl, of d] by (auto simp: unrouted_route_def)
  note fm1 = unrouted_invD(1) [OF t1(2)]
  have xs: "fst ` set ?xs \<subseteq> unrouted_ids t1" "fst ` set ?xs \<inter> unrouted_ids t2 = {}"
    using t2(4) by (auto simp: unrouted_ids_def record_ids_def fm.iter_iff_get [OF fm1])
  have dist: "distinct (map fst ?xs)" using fm_inv_distinct [OF fm1] by (simp add: distinct_map_filter)
  have disj: "fst ` set ?xs \<inter> record_ids (unicasts s) = {}" using xs(1) t1(3) sends_invD(4) [OF inv] by blast
  obtain bs m where m: "settle_each (\<lambda>x m. Ret (route_one resolve now tunables x m)) ?xs (unicasts s) = Ret (bs, m)"
      "unicasts_inv m" "record_ids m \<subseteq> record_ids (unicasts s) \<union> fst ` set ?xs"
      "unicasts_radio m = unicasts_radio (unicasts s)"
      "unicasts_waiters (unicasts s) + live_waiters un_waiter ?xs = unicasts_waiters m + settled_waiters bs"
    using route_each [OF sends_invD(1) [OF inv] dist disj, of resolve now tunables] by auto
  have res: "route_unicasts into s d now tunables resolve = Ret (as @ bs, s\<lparr>unicasts := m, unrouted_unicasts := t2\<rparr>)"
    using t1(1) t2(1) m(1) by (simp add: route_unicasts_def)
  have waiters: "sends_waiters s = sends_waiters (s\<lparr>unicasts := m, unrouted_unicasts := t2\<rparr>) + settled_waiters (as @ bs)"
  proof -
    have "sends_waiters s = (unicasts_waiters (unicasts s) + live_waiters un_waiter ?xs) + unrouted_waiters t2 +
        settled_waiters as + broadcasts_waiters (broadcasts s)"
      unfolding sends_waiters_def t1(4) t2(5) by simp
    then show ?thesis unfolding m(5) by (simp add: sends_waiters_def)
  qed
  note d = sends_invD [OF inv]
  have "record_ids m \<inter> unrouted_ids t2 = {}" using m(3) t1(3) t2(3) xs d(4) by blast
  moreover have "record_ids m \<inter> record_ids (broadcasts s) = {}" using m(3) t1(3) xs(1) d(5,6) by blast
  moreover have "unrouted_ids t2 \<inter> record_ids (broadcasts s) = {}" using t1(3) t2(3) d(6) by blast
  ultimately have inv': "sends_inv (s\<lparr>unicasts := m, unrouted_unicasts := t2\<rparr>)"
    using m(2) t2(2) d(3) by (simp add: sends_inv_def)
  have ids: "sends_ids (s\<lparr>unicasts := m, unrouted_unicasts := t2\<rparr>) \<subseteq> sends_ids s"
    using m(3) t1(3) t2(3) xs(1) unfolding sends_ids_def by (simp, blast)
  show ?thesis
    by (rule table_stepI [OF res]) (use inv' ids waiters in \<open>simp_all add: sends_radio_def m(4)\<close>)
qed

section \<open>Cancelling\<close>

lemma any_transmitting_eq:
  "(\<And>i. i \<in> set is \<Longrightarrow> i \<in> record_ids m) \<Longrightarrow> any_transmitting m is = Ret (set is \<inter> unicasts_radio m \<noteq> {})"
proof (induction "is")
  case (Cons i "is")
  then obtain r where "fm_get m i = Some r" by (auto simp: record_ids_def)
  with Cons show ?case by (auto simp: unicasts_is_transmitting_def unicasts_radio_def)
qed simp

lemma cancel_copies:
  assumes "unicasts_inv m" "distinct is" "set is \<subseteq> record_ids m" "set is \<inter> unicasts_radio m = {}"
  shows "unicasts_step (unicasts_radio m) m (settle_each (cancel_copy into) is m)"
  using assms
proof (induction "is" arbitrary: m)
  case Nil
  then show ?case by (intro table_stepI [of _ "[]" m]) simp_all
next
  case (Cons i "is")
  have "fm_get m i \<noteq> None" "i \<notin> unicasts_radio m" using Cons.prems(3,4) by (auto simp: record_ids_def)
  then obtain as m1 where m1: "unicasts_cancel into m i = Ret (Some (as, m1))"
      "unicasts_step (unicasts_radio m) m (Ret (as, m1))" "record_ids m1 = record_ids m - {i}"
    using unicasts_cancel_step [OF Cons.prems(1), of into i] by auto
  then have s1: "unicasts_inv m1" "unicasts_radio m1 = unicasts_radio m"
      "unicasts_waiters m = unicasts_waiters m1 + settled_waiters as"
    unfolding table_step_def by simp_all
  have "unicasts_step (unicasts_radio m1) m1 (settle_each (cancel_copy into) is m1)"
    using Cons.prems(2-4) m1(3) s1(2) by (intro Cons.IH [OF s1(1)]) auto
  then obtain bs m' where m': "settle_each (cancel_copy into) is m1 = Ret (bs, m')" "unicasts_inv m'"
      "record_ids m' \<subseteq> record_ids m1" "unicasts_radio m' = unicasts_radio m1"
      "unicasts_waiters m1 = unicasts_waiters m' + settled_waiters bs"
    by (rule table_stepE)
  have res: "settle_each (cancel_copy into) (i # is) m = Ret (as @ bs, m')"
    using m1(1) m'(1) by (simp add: cancel_copy_def)
  show ?case using m'(2-) s1 m1(3) by (intro table_stepI [OF res]) auto
qed

lemma copies_of_facts:
  assumes "fm_inv m"
  shows "set (copies_of m i) \<subseteq> record_ids m" "distinct (copies_of m i)"
  using fm_inv_distinct [OF assms]
  by (auto simp: copies_of_def record_ids_def fm.iter_iff_get [OF assms] distinct_map_filter)

lemma cancel_broadcast_step:
  assumes inv: "sends_inv s"
  shows "cancel_broadcast into s i = Ret None \<or>
    (\<exists>as s'. cancel_broadcast into s i = Ret (Some (as, s')) \<and> sends_step (sends_radio s) s (Ret (as, s')) \<and>
       i \<in> record_ids (broadcasts s) \<and> i \<notin> sends_ids s' \<and> next_id s' = next_id s)"
proof -
  note d = sends_invD [OF inv] and copies = copies_of_facts [OF unicasts_invD(1) [OF sends_invD(1) [OF inv]], of i]
  have any: "any_transmitting (unicasts s) (copies_of (unicasts s) i) = Ret (set (copies_of (unicasts s) i) \<inter> unicasts_radio (unicasts s) \<noteq> {})"
    using copies(1) by (intro any_transmitting_eq) blast
  show ?thesis
  proof (cases "set (copies_of (unicasts s) i) \<inter> unicasts_radio (unicasts s) = {} \<and> broadcasts_cancel into (broadcasts s) i \<noteq> Ret None")
    case True
    obtain as b where b: "broadcasts_cancel into (broadcasts s) i = Ret (Some (as, b))"
        "broadcasts_step (broadcasts_radio (broadcasts s)) (broadcasts s) (Ret (as, b))" "i \<in> record_ids (broadcasts s)"
        "record_ids b = record_ids (broadcasts s) - {i}"
      using True broadcasts_cancel_step [OF d(3), of into i] by blast
    obtain bs m where m: "settle_each (cancel_copy into) (copies_of (unicasts s) i) (unicasts s) = Ret (bs, m)" "unicasts_inv m"
        "record_ids m \<subseteq> record_ids (unicasts s)" "unicasts_radio m = unicasts_radio (unicasts s)"
        "unicasts_waiters (unicasts s) = unicasts_waiters m + settled_waiters bs"
      using cancel_copies [OF d(1) copies(2,1), of into] True unfolding table_step_def by blast
    have res: "cancel_broadcast into s i = Ret (Some (as @ bs, s\<lparr>unicasts := m, broadcasts := b\<rparr>))"
      using True any b(1) m(1) by (simp add: cancel_broadcast_def Let_def)
    have "sends_step (sends_radio s) s (Ret (as @ bs, s\<lparr>unicasts := m, broadcasts := b\<rparr>))"
      using b(2) m(2-) d
      by (intro table_stepI [OF refl]) (auto simp: table_step_def sends_inv_def sends_ids_def sends_radio_def sends_waiters_def)
    moreover have "i \<notin> sends_ids (s\<lparr>unicasts := m, broadcasts := b\<rparr>)"
      using b(3,4) m(3) d(5,6) by (auto simp: sends_ids_def)
    ultimately show ?thesis using res b(3) by simp
  next
    case False
    then show ?thesis using any by (auto simp: cancel_broadcast_def Let_def)
  qed
qed

lemma contains_iff: "fm_contains_key m i \<longleftrightarrow> i \<in> record_ids m"
  by (simp add: fm_contains_key_iff record_ids_def)

lemma cancel_step:
  assumes inv: "sends_inv s"
  shows "cancel into s i = Ret None \<or>
    (\<exists>as s'. cancel into s i = Ret (Some (as, s')) \<and> sends_step (sends_radio s) s (Ret (as, s')) \<and>
       i \<in> sends_ids s \<and> i \<notin> sends_ids s' \<and> next_id s' = next_id s)"
proof -
  note d = sends_invD [OF inv]
  consider (unicast) "i \<in> record_ids (unicasts s)"
    | (unrouted) "i \<notin> record_ids (unicasts s)" "i \<in> unrouted_ids (unrouted_unicasts s)"
    | (broadcast) "i \<notin> record_ids (unicasts s)" "i \<notin> unrouted_ids (unrouted_unicasts s)"
    by blast
  then show ?thesis
  proof cases
    case unicast
    show ?thesis
    proof (cases "unicasts_cancel into (unicasts s) i = Ret None")
      case False
      then obtain as m where m: "unicasts_cancel into (unicasts s) i = Ret (Some (as, m))"
          "unicasts_step (unicasts_radio (unicasts s)) (unicasts s) (Ret (as, m))" "record_ids m = record_ids (unicasts s) - {i}"
        using unicasts_cancel_step [OF d(1), of into i] by blast
      have "sends_step (sends_radio s) s (on_unicasts s (Ret (as, m)))" by (rule on_unicasts_same [OF inv m(2)])
      then show ?thesis
        using m(1,3) unicast d(4,5) by (auto simp: cancel_def contains_iff on_unicasts_def sends_ids_def)
    qed (use unicast in \<open>simp add: cancel_def contains_iff\<close>)
  next
    case unrouted
    obtain as t where t: "unrouted_cancel into (unrouted_unicasts s) i = Ret (as, t)"
        "unrouted_ids t = unrouted_ids (unrouted_unicasts s) - {i}"
      using unrouted_cancel_step(2) [OF d(2) unrouted(2)] by blast
    have "sends_step (sends_radio s) s (on_unrouted s (Ret (as, t)))"
      using on_unrouted_step [OF inv unrouted_cancel_step(1) [OF d(2) unrouted(2), of into]] t(1) by simp
    then show ?thesis
      using t unrouted d(6)
      by (auto simp: cancel_def contains_iff on_unrouted_def unrouted_contains_def unrouted_ids_def sends_ids_def)
  next
    case broadcast
    then have "cancel into s i = cancel_broadcast into s i"
      by (simp add: cancel_def contains_iff unrouted_contains_def unrouted_ids_def)
    then show ?thesis using cancel_broadcast_step [OF inv, of into i] by (auto simp: sends_ids_def)
  qed
qed

section \<open>Admission, transmission and abandonment\<close>

lemma enqueue_unicast_facts:
  assumes inv: "sends_inv s" and fresh: "next_id s \<notin> sends_ids s"
    and s': "s' = s\<lparr>next_id := next_id s + 1, unicasts := unicasts_enqueue (unicasts s) (next_id s) u now d copy tunables\<rparr>"
  shows "sends_inv s' \<and> sends_ids s' = insert (next_id s) (sends_ids s) \<and> sends_radio s' = sends_radio s \<and>
    sends_waiters s' = add_mset (u_waiter u) (sends_waiters s) \<and> next_id s' = next_id s + 1"
proof -
  have "fm_get (unicasts s) (next_id s) = None" using fresh by (auto simp: sends_ids_def record_ids_def)
  note e = unicasts_enqueue_facts [OF sends_invD(1) [OF inv] this, of u now d copy tunables]
  show ?thesis
    using e sends_invD [OF inv] fresh unfolding s'
    by (auto simp: sends_inv_def sends_ids_def sends_radio_def sends_waiters_def)
qed

lemma enqueue_unrouted_facts:
  assumes inv: "sends_inv s" and fresh: "next_id s \<notin> sends_ids s"
    and s': "enqueue_unrouted_unicast s u now tunables = (i, s')"
  shows "sends_inv s' \<and> sends_ids s' = insert (next_id s) (sends_ids s) \<and> sends_radio s' = sends_radio s \<and>
    sends_waiters s' = add_mset (us_waiter u) (sends_waiters s) \<and> next_id s' = next_id s + 1"
proof -
  have "next_id s \<notin> unrouted_ids (unrouted_unicasts s)" using fresh by (auto simp: sends_ids_def)
  note e = unrouted_enqueue_facts [OF sends_invD(2) [OF inv] this, of u now tunables]
  show ?thesis
    using e sends_invD [OF inv] fresh s'
    by (auto simp: enqueue_unrouted_unicast_def take_id_def sends_inv_def sends_ids_def sends_radio_def sends_waiters_def)
qed

lemma enqueue_broadcast_facts:
  assumes inv: "sends_inv s" and fresh: "next_id s \<notin> sends_ids s"
    and copies: "b_schedule b \<noteq> Once \<Longrightarrow> copies_remaining (b_schedule b) > 0"
    and s': "enqueue_broadcast s b now tunables = (i, s')"
  shows "sends_inv s' \<and> sends_ids s' = insert (next_id s) (sends_ids s) \<and> sends_radio s' = sends_radio s \<and>
    sends_waiters s' = add_mset (b_waiter b) (sends_waiters s) \<and> next_id s' = next_id s + 1"
proof -
  have "fm_get (broadcasts s) (next_id s) = None" using fresh by (auto simp: sends_ids_def record_ids_def)
  note e = broadcasts_enqueue_facts [OF sends_invD(3) [OF inv] this copies, of now tunables]
  show ?thesis
    using e sends_invD [OF inv] fresh s'
    by (auto simp: enqueue_broadcast_def take_id_def sends_inv_def sends_ids_def sends_radio_def sends_waiters_def)
qed

lemma mset_abandon:
  "mset (unicasts_abandon m) = unicasts_waiters m"
  "mset (map (\<lambda>(_, r). w r) rs) = live_waiters w rs"
proof -
  show "mset (unicasts_abandon m) = unicasts_waiters m"
    by (induction m rule: unicasts_abandon.induct) (simp_all add: live_waiters_def)
  show "mset (map (\<lambda>(_, r). w r) rs) = live_waiters w rs" by (induction rs) (auto simp: live_waiters_def)
qed

lemma abandon_facts:
  assumes "abandon s = (ws, s')"
  shows "mset ws = sends_waiters s" "sends_inv s'" "sends_ids s' = {}" "sends_waiters s' = {#}" "sends_radio s' = {}"
    "next_id s' = next_id s"
proof -
  have s': "s' = sends_default\<lparr>next_id := next_id s\<rparr>" using assms by (auto simp: abandon_def sends_default_def)
  show "sends_inv s'" "sends_ids s' = {}" "sends_waiters s' = {#}" "sends_radio s' = {}" "next_id s' = next_id s"
    using sends_default_facts unfolding s' by (simp_all add: sends_inv_def sends_ids_def sends_waiters_def sends_radio_def)
  show "mset ws = sends_waiters s"
    using assms
    by (auto simp: abandon_def unrouted_abandon_def broadcasts_abandon_def sends_waiters_def unrouted_waiters_def
        mset_abandon simp del: mset_map)
qed

text \<open>A send that may go to the radio, and its key in the queue.\<close>

definition queued_at :: "instant \<Rightarrow> ('f, 'w, 'e) Sends \<Rightarrow> SendId \<Rightarrow> TxPriority \<Rightarrow> bool" where
  "queued_at now s i p \<longleftrightarrow>
     (\<exists>r. fm_get (unicasts s) i = Some r \<and> ur_stage r = Queued \<and> now < ur_deadline r \<and> ur_priority r = p) \<or>
     (\<exists>r. fm_get (broadcasts s) i = Some r \<and> br_copy r = CopyQueued \<and> now < br_deadline r \<and> br_priority r = p)"

lemma sends_dequeue_None:
  assumes inv: "sends_inv s" and none: "\<nexists>i p. queued_at now s i p"
  shows "sends_dequeue s now = Ret (None, s)"
proof -
  have "unicasts_best_queued (unicasts s) now = None"
    using none unfolding unicasts_best_queued_None [OF unicasts_invD(1) [OF sends_invD(1) [OF inv]]] queued_at_def by blast
  moreover have "broadcasts_best_queued (broadcasts s) now = None"
    using none unfolding broadcasts_best_queued_None [OF broadcasts_invD(1) [OF sends_invD(3) [OF inv]]] queued_at_def by blast
  ultimately show ?thesis by (simp add: sends_dequeue_def map_filter_def)
qed

lemma sends_dequeue_unicast:
  assumes inv: "sends_inv s" and q: "fm_get (unicasts s) i = Some r" "ur_stage r = Queued"
  shows "\<exists>fl s'. run_bind (unicasts_dequeue (unicasts s) i) (\<lambda>(fl, m). Ret (Some fl, s\<lparr>unicasts := m\<rparr>)) = Ret (Some fl, s') \<and>
    fl_id fl = i \<and> fl_key fl \<notin> sends_radio s \<and> sends_inv s' \<and> sends_ids s' = sends_ids s \<and>
    sends_radio s' = insert (fl_key fl) (sends_radio s) \<and> sends_waiters s' = sends_waiters s \<and> next_id s' = next_id s"
proof -
  obtain fl m hop pending where m: "unicasts_dequeue (unicasts s) i = Ret (fl, m)" "fl_id fl = i"
      "fl_transmit fl = TxUnicast hop pending" "unicasts_inv m" "record_ids m = record_ids (unicasts s)"
      "unicasts_radio m = insert i (unicasts_radio (unicasts s))" "unicasts_waiters m = unicasts_waiters (unicasts s)"
    using unicasts_dequeue_facts [OF sends_invD(1) [OF inv] q] by blast
  have "i \<notin> unicasts_radio (unicasts s)" using q by (auto simp: unicasts_radio_def)
  with m sends_invD [OF inv] show ?thesis
    by (auto simp: sends_inv_def sends_ids_def sends_radio_def sends_waiters_def fl_key_def)
qed

lemma sends_dequeue_broadcast:
  assumes inv: "sends_inv s" and q: "fm_get (broadcasts s) i = Some r" "br_copy r = CopyQueued"
  shows "\<exists>fl s'. run_bind (broadcasts_dequeue (broadcasts s) i) (\<lambda>(fl, m). Ret (Some fl, s\<lparr>broadcasts := m\<rparr>)) = Ret (Some fl, s') \<and>
    fl_id fl = i \<and> fl_key fl \<notin> sends_radio s \<and> sends_inv s' \<and> sends_ids s' = sends_ids s \<and>
    sends_radio s' = insert (fl_key fl) (sends_radio s) \<and> sends_waiters s' = sends_waiters s \<and> next_id s' = next_id s"
proof -
  obtain fl m where m: "broadcasts_dequeue (broadcasts s) i = Ret (fl, m)" "fl_id fl = i"
      "fl_transmit fl = TxBroadcast" "broadcasts_inv m" "record_ids m = record_ids (broadcasts s)"
      "broadcasts_radio m = insert i (broadcasts_radio (broadcasts s))" "broadcasts_waiters m = broadcasts_waiters (broadcasts s)"
    using broadcasts_dequeue_facts [OF sends_invD(3) [OF inv] q] by blast
  have "i \<notin> broadcasts_radio (broadcasts s)" using q by (auto simp: broadcasts_radio_def)
  with m sends_invD [OF inv] show ?thesis
    by (auto simp: sends_inv_def sends_ids_def sends_radio_def sends_waiters_def fl_key_def)
qed

text \<open>The winner between the two tables, by priority and then by age.\<close>

lemma sends_dequeue_Some:
  assumes inv: "sends_inv s" and some: "queued_at now s j q"
  shows "\<exists>fl s' p. sends_dequeue s now = Ret (Some fl, s') \<and> queued_at now s (fl_id fl) p \<and>
    (\<forall>j q. queued_at now s j q \<longrightarrow> q < p \<or> q = p \<and> fl_id fl \<le> j) \<and>
    fl_key fl \<notin> sends_radio s \<and> sends_inv s' \<and> sends_ids s' = sends_ids s \<and>
    sends_radio s' = insert (fl_key fl) (sends_radio s) \<and> sends_waiters s' = sends_waiters s \<and> next_id s' = next_id s"
proof -
  let ?u = "unicasts_best_queued (unicasts s) now" and ?b = "broadcasts_best_queued (broadcasts s) now"
  note fm = unicasts_invD(1) [OF sends_invD(1) [OF inv]] broadcasts_invD(1) [OF sends_invD(3) [OF inv]]
  let ?key = "\<lambda>(i, p, _::bool). queue_key p i"
  let ?c = "max_by_key ?key (List.map_filter id [map_option (\<lambda>(i, p). (i, p, True)) ?u, map_option (\<lambda>(i, p). (i, p, False)) ?b])"
  have "?u \<noteq> None \<or> ?b \<noteq> None"
    using some unfolding queued_at_def unicasts_best_queued_None [OF fm(1)] broadcasts_best_queued_None [OF fm(2)] by blast
  then obtain i p t where c: "?c = Some (i, p, t)"
    by (cases ?c) (auto split: option.splits)
  note best = max_by_key_SomeD [OF c]
  have u: "?u = Some (i', p') \<Longrightarrow> p' < p \<or> p' = p \<and> i \<le> i'" for i' p'
    using best by (auto simp: map_filter_def queue_key_le split: if_splits)
  have b: "?b = Some (i', p') \<Longrightarrow> p' < p \<or> p' = p \<and> i \<le> i'" for i' p'
    using best by (auto simp: map_filter_def queue_key_le split: if_splits)
  have all: "q < p \<or> q = p \<and> i \<le> j" if j: "queued_at now s j q" for j q
    using j unfolding queued_at_def
  proof (elim disjE exE conjE)
    fix r assume r: "fm_get (unicasts s) j = Some r" "ur_stage r = Queued" "now < ur_deadline r" "ur_priority r = q"
    then obtain i' p' where u': "?u = Some (i', p')" using unicasts_best_queued_None [OF fm(1), of now] by fastforce
    with unicasts_best_queued_Some [OF fm(1) u'] r u [OF u'] show ?thesis by fastforce
  next
    fix r assume r: "fm_get (broadcasts s) j = Some r" "br_copy r = CopyQueued" "now < br_deadline r" "br_priority r = q"
    then obtain i' p' where b': "?b = Some (i', p')" using broadcasts_best_queued_None [OF fm(2), of now] by fastforce
    with broadcasts_best_queued_Some [OF fm(2) b'] r b [OF b'] show ?thesis by fastforce
  qed
  show ?thesis
  proof (cases t)
    case True
    then have "?u = Some (i, p)" using best by (auto simp: map_filter_def split: if_splits)
    then obtain r where r: "fm_get (unicasts s) i = Some r" "ur_stage r = Queued" "now < ur_deadline r" "ur_priority r = p"
      using unicasts_best_queued_Some [OF fm(1)] by blast
    then have "queued_at now s i p" by (auto simp: queued_at_def)
    moreover have "sends_dequeue s now = run_bind (unicasts_dequeue (unicasts s) i) (\<lambda>(fl, m). Ret (Some fl, s\<lparr>unicasts := m\<rparr>))"
      using c True by (simp add: sends_dequeue_def Let_def)
    ultimately show ?thesis using sends_dequeue_unicast [OF inv r(1,2)] all by metis
  next
    case False
    then have "?b = Some (i, p)" using best by (auto simp: map_filter_def split: if_splits)
    then obtain r where r: "fm_get (broadcasts s) i = Some r" "br_copy r = CopyQueued" "now < br_deadline r" "br_priority r = p"
      using broadcasts_best_queued_Some [OF fm(2)] by blast
    then have "queued_at now s i p" by (auto simp: queued_at_def)
    moreover have "sends_dequeue s now = run_bind (broadcasts_dequeue (broadcasts s) i) (\<lambda>(fl, m). Ret (Some fl, s\<lparr>broadcasts := m\<rparr>))"
      using c False by (simp add: sends_dequeue_def Let_def)
    ultimately show ?thesis using sends_dequeue_broadcast [OF inv r(1,2)] all by metis
  qed
qed

end
