(* ===== verification/Sends_Props.thy ===== *)
theory Sends_Props
  imports Sends_Facts
begin

text \<open>
  Properties of the send tables as the driver uses them: a machine whose state is the tables and the frames on
  loan to the radio, driven by every mutation of \<^verbatim>\<open>sends/mod.rs\<close> in any order.
\<close>

section \<open>The machine\<close>

datatype ('f, 'w, 'e) send_op =
    OpUnicast "('f, 'w) Unicast" instant Tunables
  | OpBroadcastCopy SendId "('f, 'w) Unicast" instant Tunables
  | OpUnrouted "('f, 'w) UnroutedUnicast" instant Tunables
  | OpBroadcast "('f, 'w) Broadcast" instant Tunables
  | OpDequeue instant
  | OpTransmitted nat "'e verdict" instant duration duration
  | OpPoll "Eui64 option" "Nwk option" instant
  | OpApsAck ApsAckData
  | OpRetryDiscovery Nwk
  | OpFailUnrouted Nwk
  | OpRoute Nwk instant Tunables "('f, 'e) resolver"
  | OpDelivered "Nwk \<times> u8"
  | OpDropIndirect "Eui64 option" Nwk
  | OpCancel SendId
  | OpTick instant
  | OpAbandon

fun settled_list :: "('f, 'w, 'e) Actions \<Rightarrow> 'w list" where
  "settled_list [] = []"
| "settled_list (HandedOff w # as) = settled_list as"
| "settled_list (Settled w res f hop # as) = w # settled_list as"

type_synonym ('f, 'w, 'e) send_state = "('f, 'w, 'e) Sends \<times> 'f InFlight list"

text \<open>
  One operation of the driver: the waiters it gives their verdict, and the state it leaves. A transmission report
  names one of the frames on loan. Abandoning happens once the radio tasks are shut down, so nothing stays on loan.
\<close>

fun send_exec ::
  "(SendFailure \<Rightarrow> 'e) \<Rightarrow> ('f, 'w, 'e) send_op \<Rightarrow> ('f, 'w, 'e) send_state \<Rightarrow> ('w list \<times> ('f, 'w, 'e) send_state) run" where
  "send_exec into (OpUnicast u now tunables) (s, fls) = Ret ([], snd (enqueue_unicast s u now tunables), fls)"
| "send_exec into (OpBroadcastCopy b u now tunables) (s, fls) = Ret ([], snd (enqueue_broadcast_copy s b u now tunables), fls)"
| "send_exec into (OpUnrouted u now tunables) (s, fls) = Ret ([], snd (enqueue_unrouted_unicast s u now tunables), fls)"
| "send_exec into (OpBroadcast b now tunables) (s, fls) = Ret ([], snd (enqueue_broadcast s b now tunables), fls)"
| "send_exec into (OpDequeue now) (s, fls) =
     run_bind (sends_dequeue s now) (\<lambda>(fl, s'). Ret ([], s', (case fl of None \<Rightarrow> fls | Some x \<Rightarrow> x # fls)))"
| "send_exec into (OpTransmitted k result now d1 d2) (s, fls) =
     run_bind (sends_transmitted s (fls ! k) result now d1 d2)
       (\<lambda>(as, s'). Ret (settled_list as, s', take k fls @ drop (Suc k) fls))"
| "send_exec into (OpPoll eui64 nwk now) (s, fls) = run_bind (sends_poll s eui64 nwk now) (\<lambda>(_, s'). Ret ([], s', fls))"
| "send_exec into (OpApsAck ack) (s, fls) = run_bind (aps_ack_received s ack) (\<lambda>(as, s'). Ret (settled_list as, s', fls))"
| "send_exec into (OpRetryDiscovery d) (s, fls) = run_bind (sends_retry_discovery s d) (\<lambda>(_, s'). Ret ([], s', fls))"
| "send_exec into (OpFailUnrouted d) (s, fls) = run_bind (fail_unrouted into s d) (\<lambda>(as, s'). Ret (settled_list as, s', fls))"
| "send_exec into (OpRoute d now tunables resolve) (s, fls) =
     run_bind (route_unicasts into s d now tunables resolve) (\<lambda>(as, s'). Ret (settled_list as, s', fls))"
| "send_exec into (OpDelivered key) (s, fls) = run_bind (broadcast_delivered s key) (\<lambda>(as, s'). Ret (settled_list as, s', fls))"
| "send_exec into (OpDropIndirect eui64 nwk) (s, fls) =
     run_bind (drop_indirect_unicasts into s eui64 nwk) (\<lambda>(as, s'). Ret (settled_list as, s', fls))"
| "send_exec into (OpCancel i) (s, fls) =
     run_bind (cancel into s i) (\<lambda>res. case res of None \<Rightarrow> Ret ([], s, fls) | Some (as, s') \<Rightarrow> Ret (settled_list as, s', fls))"
| "send_exec into (OpTick now) (s, fls) = run_bind (sends_tick into s now) (\<lambda>(as, s'). Ret (settled_list as, s', fls))"
| "send_exec into OpAbandon (s, fls) = (case abandon s of (ws, s') \<Rightarrow> Ret (ws, s', []))"

text \<open>The waiter that an operation admits.\<close>

fun admitted :: "('f, 'w, 'e) send_op \<Rightarrow> 'w list" where
  "admitted (OpUnicast u _ _) = [u_waiter u]"
| "admitted (OpBroadcastCopy _ u _ _) = [u_waiter u]"
| "admitted (OpUnrouted u _ _) = [us_waiter u]"
| "admitted (OpBroadcast b _ _) = [b_waiter b]"
| "admitted _ = []"

text \<open>
  The calls the driver makes: it reports only frames on loan, retries the discovery of a destination it has sends
  for, and schedules at least one copy of a repeated broadcast.
\<close>

fun legal :: "('f, 'w, 'e) send_op \<Rightarrow> ('f, 'w, 'e) send_state \<Rightarrow> bool" where
  "legal (OpTransmitted k _ _ _ _) (s, fls) \<longleftrightarrow> k < length fls"
| "legal (OpRetryDiscovery d) (s, fls) \<longleftrightarrow> has_unrouted (unrouted_unicasts s) d"
| "legal (OpBroadcast b _ _) (s, fls) \<longleftrightarrow> b_schedule b = Once \<or> copies_remaining (b_schedule b) > 0"
| "legal _ (s, fls) \<longleftrightarrow> True"

text \<open>
  A history: the number of sends admitted, the waiters admitted, the waiters given their verdict, the state. The
  identifier counter is 32 bits wide, so a history admits at most \<open>2 ^ 32\<close> sends.
\<close>

inductive send_reach ::
  "(SendFailure \<Rightarrow> 'e) \<Rightarrow> nat \<Rightarrow> 'w multiset \<Rightarrow> 'w multiset \<Rightarrow> ('f, 'w, 'e) send_state \<Rightarrow> bool"
  for into where
  start: "send_reach into 0 {#} {#} (sends_default, [])"
| step: "send_reach into n W A st \<Longrightarrow> legal op st \<Longrightarrow> n + length (admitted op) \<le> 2 ^ 32 \<Longrightarrow>
     send_exec into op st = Ret (ws, st') \<Longrightarrow>
     send_reach into (n + length (admitted op)) (W + mset (admitted op)) (A + mset ws) st'"

section \<open>Its invariant\<close>

text \<open>The frames on loan are those of the records in the radio, one each, and identifiers lie below the counter.\<close>

fun machine_inv :: "nat \<Rightarrow> ('f, 'w, 'e) send_state \<Rightarrow> bool" where
  "machine_inv n (s, fls) \<longleftrightarrow> sends_inv s \<and> next_id s = of_nat n \<and> (\<forall>i \<in> sends_ids s. unat i < n) \<and>
     distinct (map fl_key fls) \<and> fl_key ` set fls = sends_radio s"

lemma mset_settled_list [simp]: "mset (settled_list as) = settled_waiters as"
  by (induction as rule: settled_list.induct) simp_all

lemma fresh_id:
  assumes "machine_inv n (s, fls)" "n < 2 ^ 32"
  shows "next_id s \<notin> sends_ids s"
proof
  assume "next_id s \<in> sends_ids s"
  then have "unat (next_id s) < n" using assms(1) by simp
  moreover have "unat (next_id s) = n" using assms by (simp add: unat_of_nat take_bit_nat_eq_self)
  ultimately show False by simp
qed

lemma admit_machine:
  assumes inv: "machine_inv n (s, fls)" and n: "n < 2 ^ 32"
    and s': "sends_inv s' \<and> sends_ids s' = insert (next_id s) (sends_ids s) \<and> sends_radio s' = sends_radio s \<and>
      sends_waiters s' = add_mset w (sends_waiters s) \<and> next_id s' = next_id s + 1"
  shows "machine_inv (Suc n) (s', fls) \<and> sends_waiters s' = add_mset w (sends_waiters s)"
proof -
  have "unat (next_id s) = n" using inv n by (simp add: unat_of_nat take_bit_nat_eq_self)
  with inv s' show ?thesis by (auto simp: less_Suc_eq)
qed

lemma keep_machine:
  assumes "machine_inv n (s, fls)" "sends_inv s'" "sends_ids s' \<subseteq> sends_ids s" "sends_radio s' = sends_radio s"
    "next_id s' = next_id s"
  shows "machine_inv n (s', fls)"
  using assms by auto

text \<open>What an operation on the machine must do.\<close>

definition machine_step ::
  "nat \<Rightarrow> 'w list \<Rightarrow> ('f, 'w, 'e) send_state \<Rightarrow> ('w list \<times> ('f, 'w, 'e) send_state) run \<Rightarrow> bool" where
  "machine_step n new st res \<longleftrightarrow>
     (\<exists>ws st'. res = Ret (ws, st') \<and> machine_inv (n + length new) st' \<and>
        sends_waiters (fst st) + mset new = sends_waiters (fst st') + mset ws)"

lemma quiet_step:
  assumes inv: "machine_inv n (s, fls)"
    and step: "sends_step (sends_radio s) s res" and id: "\<And>as s'. res = Ret (as, s') \<Longrightarrow> next_id s' = next_id s"
  shows "machine_step n [] (s, fls) (run_bind res (\<lambda>(as, s'). Ret (settled_list as, s', fls)))"
proof -
  obtain as s' where s': "res = Ret (as, s')" "sends_inv s'" "sends_ids s' \<subseteq> sends_ids s" "sends_radio s' = sends_radio s"
      "sends_waiters s = sends_waiters s' + settled_waiters as"
    using step by (rule table_stepE)
  have "machine_inv n (s', fls)" by (rule keep_machine [OF inv s'(2-4) id [OF s'(1)]])
  with s' show ?thesis by (simp add: machine_step_def)
qed

lemma next_id_on:
  "on_unicasts s ures = Ret (as, s') \<Longrightarrow> next_id s' = next_id s"
  "on_unrouted s nres = Ret (as, s') \<Longrightarrow> next_id s' = next_id s"
  "on_broadcasts s bres = Ret (as, s') \<Longrightarrow> next_id s' = next_id s"
  by (auto simp: on_unicasts_def on_unrouted_def on_broadcasts_def run_bind_Ret_iff)

lemma next_id_kept:
  "sends_transmitted s fl result now d1 d2 = Ret (as, s') \<Longrightarrow> next_id s' = next_id s"
  "aps_ack_received s ack = Ret (as, s') \<Longrightarrow> next_id s' = next_id s"
  "fail_unrouted into s d = Ret (as, s') \<Longrightarrow> next_id s' = next_id s"
  "broadcast_delivered s key = Ret (as, s') \<Longrightarrow> next_id s' = next_id s"
  "drop_indirect_unicasts into s eui64 nwk = Ret (as, s') \<Longrightarrow> next_id s' = next_id s"
  by (auto simp: sends_transmitted_def aps_ack_received_def fail_unrouted_def broadcast_delivered_def
      drop_indirect_unicasts_def next_id_on split: Transmit.splits)

lemma next_id_loops:
  "sends_tick into s now = Ret (as, s') \<Longrightarrow> next_id s' = next_id s"
  "route_unicasts into s d now tunables resolve = Ret (as, s') \<Longrightarrow> next_id s' = next_id s"
  by (auto simp: sends_tick_def route_unicasts_def run_bind_Ret_iff)

lemma dequeue_machine:
  assumes inv: "machine_inv n (s, fls)"
  shows "machine_step n [] (s, fls) (send_exec into (OpDequeue now) (s, fls))"
proof (cases "\<exists>i p. queued_at now s i p")
  case True
  have si: "sends_inv s" using inv by simp
  obtain fl s' where s': "sends_dequeue s now = Ret (Some fl, s')" "fl_key fl \<notin> sends_radio s" "sends_inv s'"
      "sends_ids s' = sends_ids s" "sends_radio s' = insert (fl_key fl) (sends_radio s)" "sends_waiters s' = sends_waiters s"
      "next_id s' = next_id s"
    using True sends_dequeue_Some [OF si] by blast
  with inv show ?thesis by (auto simp: machine_step_def image_iff)
next
  case False
  then show ?thesis using inv sends_dequeue_None [of s now] by (auto simp: machine_step_def)
qed

lemma transmitted_machine:
  assumes inv: "machine_inv n (s, fls)" and k: "k < length fls"
  shows "machine_step n [] (s, fls) (send_exec into (OpTransmitted k result now d1 d2) (s, fls))"
proof -
  let ?fl = "fls ! k" and ?rest = "take k fls @ drop (Suc k) fls"
  have split: "fls = take k fls @ ?fl # drop (Suc k) fls" using k by (simp add: id_take_nth_drop)
  have dist: "distinct (map fl_key (take k fls @ ?fl # drop (Suc k) fls))" using inv split by simp
  have "fl_key ` set (take k fls @ ?fl # drop (Suc k) fls) = sends_radio s" using inv split by simp
  with dist have rest: "distinct (map fl_key ?rest)" "fl_key ` set ?rest = sends_radio s - {fl_key ?fl}"
      "fl_key ?fl \<in> sends_radio s"
    by (auto simp: image_iff)
  have "sends_inv s" using inv by simp
  from sends_transmitted_step [OF this rest(3), of result now d1 d2]
  obtain as s' where s': "sends_transmitted s ?fl result now d1 d2 = Ret (as, s')" "sends_inv s'"
      "sends_ids s' \<subseteq> sends_ids s" "sends_radio s' = sends_radio s - {fl_key ?fl}"
      "sends_waiters s = sends_waiters s' + settled_waiters as"
    by (rule table_stepE)
  have "\<forall>i \<in> sends_ids s'. unat i < n" using inv s'(3) by auto
  then have "machine_inv n (s', ?rest)"
    using inv s'(2,4) rest(1,2) next_id_kept(1) [OF s'(1)] by simp
  with s' show ?thesis by (simp add: machine_step_def)
qed

lemma cancel_machine:
  assumes inv: "machine_inv n (s, fls)"
  shows "machine_step n [] (s, fls) (send_exec into (OpCancel i) (s, fls))"
proof -
  have "sends_inv s" using inv by simp
  note step = cancel_step [OF this, of into i]
  show ?thesis
  proof (cases "cancel into s i = Ret None")
    case False
    then obtain as s' where s': "cancel into s i = Ret (Some (as, s'))" "sends_step (sends_radio s) s (Ret (as, s'))"
        "next_id s' = next_id s"
      using step by blast
    then show ?thesis using quiet_step [OF inv s'(2)] by simp
  qed (use inv in \<open>simp add: machine_step_def\<close>)
qed

lemma bool_step:
  assumes inv: "machine_inv n (s, fls)"
    and "\<exists>b s'. res = Ret (b, s') \<and> sends_inv s' \<and> sends_ids s' = sends_ids s \<and> sends_radio s' = sends_radio s \<and>
      sends_waiters s' = sends_waiters s \<and> next_id s' = next_id s"
  shows "machine_step n [] (s, fls) (run_bind res (\<lambda>(_, s'). Ret ([], s', fls)))"
  using assms by (auto simp: machine_step_def)

lemma admit_step:
  assumes inv: "machine_inv n (s, fls)" and n: "n < 2 ^ 32"
    and s': "sends_inv s' \<and> sends_ids s' = insert (next_id s) (sends_ids s) \<and> sends_radio s' = sends_radio s \<and>
      sends_waiters s' = add_mset w (sends_waiters s) \<and> next_id s' = next_id s + 1"
  shows "machine_step n [w] (s, fls) (Ret ([], s', fls))"
  using admit_machine [OF assms] by (simp add: machine_step_def)

text \<open>Every operation of the driver is a step of the machine.\<close>

lemma send_exec_step:
  assumes inv: "machine_inv n (s, fls)" and legal: "legal op (s, fls)" and n: "n + length (admitted op) \<le> 2 ^ 32"
  shows "machine_step n (admitted op) (s, fls) (send_exec into op (s, fls))"
proof -
  have si: "sends_inv s" using inv by simp
  have fresh: "next_id s \<notin> sends_ids s" if "admitted op \<noteq> []"
    using fresh_id [OF inv] n that by (cases "admitted op") simp_all
  show ?thesis
  proof (cases op)
    case (OpUnicast u now tunables)
    then show ?thesis
      using n fresh admit_step [OF inv _ enqueue_unicast_facts [OF si _ refl, of u now None None tunables]]
      by (simp add: enqueue_unicast_def take_id_def)
  next
    case (OpBroadcastCopy b u now tunables)
    then show ?thesis
      using n fresh admit_step [OF inv _ enqueue_unicast_facts [OF si _ refl, of u now None "Some b" tunables]]
      by (simp add: enqueue_broadcast_copy_def take_id_def)
  next
    case (OpUnrouted u now tunables)
    then show ?thesis
      using n fresh admit_step [OF inv _ enqueue_unrouted_facts [OF si _ surjective_pairing]] by simp
  next
    case (OpBroadcast b now tunables)
    then show ?thesis
      using n fresh legal admit_step [OF inv _ enqueue_broadcast_facts [OF si _ _ surjective_pairing]] by auto
  next
    case (OpTransmitted k result now d1 d2)
    then show ?thesis using transmitted_machine [OF inv] legal by simp
  next
    case (OpPoll eui64 nwk now)
    then show ?thesis using bool_step [OF inv sends_poll_facts [OF si]] by simp
  next
    case (OpRetryDiscovery d)
    then show ?thesis using bool_step [OF inv sends_retry_discovery_facts [OF si]] legal by simp
  next
    case OpAbandon
    obtain ws s' where "abandon s = (ws, s')" by (cases "abandon s")
    with abandon_facts [OF this] inv OpAbandon show ?thesis by (simp add: machine_step_def)
  qed (use quiet_step [OF inv aps_ack_received_step [OF si] next_id_kept(2)]
           quiet_step [OF inv fail_unrouted_step [OF si] next_id_kept(3)]
           quiet_step [OF inv route_unicasts_step [OF si] next_id_loops(2)]
           quiet_step [OF inv broadcast_delivered_step [OF si] next_id_kept(4)]
           quiet_step [OF inv drop_indirect_unicasts_step [OF si] next_id_kept(5)]
           quiet_step [OF inv sends_tick_step [OF si] next_id_loops(1)]
           dequeue_machine [OF inv] cancel_machine [OF inv] in simp_all)
qed

lemma send_reach_inv:
  "send_reach into n W A st \<Longrightarrow> machine_inv n st \<and> n \<le> 2 ^ 32 \<and> W = sends_waiters (fst st) + A"
proof (induction rule: send_reach.induct)
  case start
  then show ?case by (simp add: sends_default_facts) (simp add: sends_default_def)
next
  case (step n W A st op ws st')
  obtain s fls where st: "st = (s, fls)" by (cases st)
  have "machine_step n (admitted op) st (send_exec into op st)"
    using send_exec_step [of n s fls op into] step unfolding st by simp
  then show ?case using step by (auto simp: machine_step_def ac_simps)
qed

lemmas send_reachD = send_reach_inv [THEN conjunct1] send_reach_inv [THEN conjunct2, THEN conjunct1]
  send_reach_inv [THEN conjunct2, THEN conjunct2]

section \<open>Waking up\<close>

lemma wakes_iff:
  assumes "fm_inv m"
  shows "t \<in> set (List.map_filter f (fm_values m)) \<longleftrightarrow> (\<exists>i r. fm_get m i = Some r \<and> f r = Some t)"
    and "List.map_filter f (fm_values m) = [] \<longleftrightarrow> (\<forall>i r. fm_get m i = Some r \<longrightarrow> f r = None)"
  using fm_values_iff [OF assms] by (force simp: map_filter_def filter_empty_conv)+

lemma unicasts_wake_None:
  "unicasts_inv m \<Longrightarrow> unicasts_next_wake m = None \<Longrightarrow> record_ids m = unicasts_radio m"
  by (fastforce simp: unicasts_next_wake_def wakes_iff unicasts_invD(1) record_ids_def unicasts_radio_def
      unicast_next_wake_def is_transmitting_stage_def split: Stage.splits)

lemma broadcasts_wake_None:
  assumes inv: "broadcasts_inv m" and "broadcasts_next_wake m = None"
  shows "record_ids m = broadcasts_radio m"
proof -
  have "br_copy r = CopyTransmitting" if "fm_get m i = Some r" for i r
  proof -
    have "broadcast_next_wake r = None"
      using assms(2) that by (auto simp: broadcasts_next_wake_def wakes_iff [OF broadcasts_invD(1) [OF inv]])
    then show ?thesis by (cases "br_copy r") (simp_all add: broadcast_next_wake_def)
  qed
  then show ?thesis by (auto simp: record_ids_def broadcasts_radio_def)
qed

lemma unrouted_wake_None:
  "unrouted_next_wake t = None \<Longrightarrow> unrouted_ids t = {}"
  by (simp add: unrouted_next_wake_def unrouted_ids_def record_ids_def fm_values_def fm_get_def index_of_def)

lemma unicasts_tick_wake:
  assumes inv: "unicasts_inv m" and "unicasts_tick into m now = Ret (as, m')" "unicasts_next_wake m' = Some t"
  shows "now < t"
proof -
  have m': "unicasts_inv m'" using unicasts_tick_facts(1) [OF inv, of into now] assms(2) by (auto simp: table_step_def)
  obtain i r' where r': "fm_get m' i = Some r'" "unicast_next_wake r' = Some t"
    using assms(3) by (auto simp: unicasts_next_wake_def min_list_opt_Some wakes_iff [OF unicasts_invD(1) [OF m']])
  moreover obtain r where "r' = unicast_requeue now r" "\<not> (ur_deadline r \<le> now \<and> \<not> is_transmitting_stage (ur_stage r))"
    using unicasts_tick_facts(2) [OF inv, of into now] assms(2) r'(1) by (auto split: option.splits if_splits)
  ultimately show ?thesis
    by (auto simp: unicast_requeue_def unicast_next_wake_def min_def split: Stage.splits if_splits)
qed

lemma unrouted_tick_wake:
  assumes inv: "unrouted_inv m" and "unrouted_tick into m now = Ret (as, m')" "unrouted_next_wake m' = Some t"
  shows "now < t"
proof -
  have "fm_inv (un_records m')"
    using unrouted_tick_facts(1) [OF inv, of into now] assms(2) by (auto simp: table_step_def unrouted_inv_def)
  then obtain i r where r: "fm_get (un_records m') i = Some r" "un_deadline r = t"
    using assms(3) by (auto simp: unrouted_next_wake_def min_list_opt_Some fm_values_iff)
  then show ?thesis
    using unrouted_tick_facts(2) [OF inv, of into now] assms(2) by (auto split: option.splits if_splits)
qed

lemma broadcasts_tick_wake:
  assumes inv: "broadcasts_inv m" and "broadcasts_tick into m now = Ret (as, m')" "broadcasts_next_wake m' = Some t"
  shows "now < t"
proof -
  have m': "broadcasts_inv m'" using broadcasts_tick_facts(1) [OF inv, of into now] assms(2) by (auto simp: table_step_def)
  obtain i r' where r': "fm_get m' i = Some r'" "broadcast_next_wake r' = Some t"
    using assms(3) by (auto simp: broadcasts_next_wake_def min_list_opt_Some wakes_iff [OF broadcasts_invD(1) [OF m']])
  moreover obtain r where "fm_get m i = Some r" "tick_verdict into now r = None" "r' = ticked into now r"
    using broadcasts_tick_facts(2) [OF inv, of into now] assms(2) r'(1) by (auto split: option.splits if_splits)
  ultimately show ?thesis using ticked_facts(7) [OF broadcasts_invD(2) [OF inv]] by metis
qed

lemma sends_wake_Some:
  "sends_next_wake s = Some t \<Longrightarrow>
   unicasts_next_wake (unicasts s) = Some t \<or> unrouted_next_wake (unrouted_unicasts s) = Some t \<or> broadcasts_next_wake (broadcasts s) = Some t"
  by (auto simp: sends_next_wake_def min_list_opt_Some split: option.splits)

lemma sends_wake_None:
  assumes inv: "sends_inv s" and "sends_next_wake s = None"
  shows "sends_ids s = snd ` sends_radio s"
proof -
  have "unicasts_next_wake (unicasts s) = None" "unrouted_next_wake (unrouted_unicasts s) = None"
      "broadcasts_next_wake (broadcasts s) = None"
    using assms(2) by (auto simp: sends_next_wake_def split: option.splits)
  with unicasts_wake_None [OF sends_invD(1) [OF inv]] unrouted_wake_None broadcasts_wake_None [OF sends_invD(3) [OF inv]]
  show ?thesis by (auto simp: sends_ids_def sends_radio_def image_Un image_image)
qed

section \<open>Loans, counts and refusals\<close>

lemma loaned_ids: "machine_inv n (s, fls) \<Longrightarrow> fl_id ` set fls = snd ` sends_radio s"
proof -
  assume "machine_inv n (s, fls)"
  then have "sends_radio s = fl_key ` set fls" by simp
  then show ?thesis by (simp add: image_image fl_key_def)
qed

lemma radio_not_queued:
  assumes "sends_inv s" "k \<in> sends_radio s"
  shows "\<not> queued_at now s (snd k) p"
  using assms(2) sends_invD(5) [OF assms(1)]
  by (auto simp: queued_at_def sends_radio_def unicasts_radio_def broadcasts_radio_def record_ids_def)

lemma card_record_ids: "fm_inv m \<Longrightarrow> card (record_ids m) = size (live_waiters w m) \<and> finite (record_ids m)"
proof -
  assume m: "fm_inv m"
  have ids: "record_ids m = set (map fst m)"
    by (force simp: record_ids_def fm.iter_iff_get [OF m, symmetric] image_iff)
  show ?thesis
    unfolding ids using distinct_card [OF fm_inv_distinct [OF m]] by (simp add: live_waiters_def)
qed

lemma card_sends_ids:
  assumes "sends_inv s"
  shows "card (sends_ids s) = size (sends_waiters s)"
proof -
  note d = sends_invD [OF assms]
  note c = card_record_ids [OF unicasts_invD(1) [OF d(1)], of ur_waiter]
    card_record_ids [OF unrouted_invD(1) [OF d(2)], of un_waiter] card_record_ids [OF broadcasts_invD(1) [OF d(3)], of br_waiter]
  have "(record_ids (unicasts s) \<union> record_ids (un_records (unrouted_unicasts s))) \<inter> record_ids (broadcasts s) = {}"
    using d(5,6) by (auto simp: unrouted_ids_def)
  with c d(4) show ?thesis
    by (simp add: sends_ids_def sends_waiters_def unrouted_ids_def unrouted_waiters_def card_Un_disjoint)
qed

lemma cancel_broadcast_None:
  assumes inv: "sends_inv s"
  shows "cancel_broadcast into s i = Ret None \<longleftrightarrow> i \<notin> record_ids (broadcasts s) \<or> i \<in> broadcasts_radio (broadcasts s) \<or>
    set (copies_of (unicasts s) i) \<inter> unicasts_radio (unicasts s) \<noteq> {}"
proof -
  note d = sends_invD [OF inv] and copies = copies_of_facts [OF unicasts_invD(1) [OF sends_invD(1) [OF inv]], of i]
  have any: "any_transmitting (unicasts s) (copies_of (unicasts s) i) = Ret (set (copies_of (unicasts s) i) \<inter> unicasts_radio (unicasts s) \<noteq> {})"
    using copies(1) by (intro any_transmitting_eq) blast
  have copied: "\<exists>bs m. settle_each (cancel_copy into) (copies_of (unicasts s) i) (unicasts s) = Ret (bs, m)"
    if "set (copies_of (unicasts s) i) \<inter> unicasts_radio (unicasts s) = {}"
    using cancel_copies [OF d(1) copies(2,1) that, of into] unfolding table_step_def by blast
  have none: "broadcasts_cancel into (broadcasts s) i = Ret None \<longleftrightarrow> i \<notin> record_ids (broadcasts s) \<or> i \<in> broadcasts_radio (broadcasts s)"
    by (cases "fm_get (broadcasts s) i")
       (auto simp: broadcasts_cancel_def broadcasts_radio_def record_ids_def run_bind_Ret_iff)
  obtain c where c: "broadcasts_cancel into (broadcasts s) i = Ret c"
    using broadcasts_cancel_step [OF d(3), of into i] by blast
  show ?thesis
  proof (cases "set (copies_of (unicasts s) i) \<inter> unicasts_radio (unicasts s) = {}")
    case True
    then obtain bs m where "settle_each (cancel_copy into) (copies_of (unicasts s) i) (unicasts s) = Ret (bs, m)"
      using copied by blast
    with True any none c show ?thesis by (cases c) (auto simp: cancel_broadcast_def Let_def)
  next
    case False
    with any show ?thesis by (simp add: cancel_broadcast_def Let_def)
  qed
qed

lemma cancel_None:
  assumes inv: "sends_inv s"
  shows "cancel into s i = Ret None \<longleftrightarrow> i \<notin> sends_ids s \<or> i \<in> snd ` sends_radio s \<or>
    i \<in> record_ids (broadcasts s) \<and> set (copies_of (unicasts s) i) \<inter> unicasts_radio (unicasts s) \<noteq> {}"
proof -
  note d = sends_invD [OF inv]
  have radio: "snd ` sends_radio s = unicasts_radio (unicasts s) \<union> broadcasts_radio (broadcasts s)"
    by (auto simp: sends_radio_def image_Un image_image)
  consider (unicast) "i \<in> record_ids (unicasts s)"
    | (unrouted) "i \<notin> record_ids (unicasts s)" "i \<in> unrouted_ids (unrouted_unicasts s)"
    | (broadcast) "i \<notin> record_ids (unicasts s)" "i \<notin> unrouted_ids (unrouted_unicasts s)"
    by blast
  then show ?thesis
  proof cases
    case unicast
    have away: "i \<notin> record_ids (broadcasts s)" "i \<notin> broadcasts_radio (broadcasts s)"
      using unicast d(5) radio_ids(2) [of "broadcasts s"] by blast+
    obtain c where c: "unicasts_cancel into (unicasts s) i = Ret c" using unicasts_cancel_step [OF d(1), of into i] by blast
    have "c = None \<longleftrightarrow> i \<in> unicasts_radio (unicasts s)"
      using c unicast by (auto simp: unicasts_cancel_def unicasts_radio_def record_ids_def run_bind_Ret_iff split: if_splits)
    moreover have "cancel into s i = Ret None \<longleftrightarrow> c = None" using c unicast by (simp add: cancel_def contains_iff)
    ultimately show ?thesis using unicast away unfolding radio sends_ids_def by blast
  next
    case unrouted
    obtain as t where "unrouted_cancel into (unrouted_unicasts s) i = Ret (as, t)"
      using unrouted_cancel_step(2) [OF d(2) unrouted(2)] by blast
    then have "cancel into s i \<noteq> Ret None"
      using unrouted by (simp add: cancel_def contains_iff unrouted_contains_def unrouted_ids_def)
    then show ?thesis
      using unrouted radio_ids(1) [of "unicasts s"] radio_ids(2) [of "broadcasts s"] d(6)
      unfolding radio sends_ids_def by blast
  next
    case broadcast
    then have eq: "cancel into s i = cancel_broadcast into s i"
      by (simp add: cancel_def contains_iff unrouted_contains_def unrouted_ids_def)
    have "i \<notin> unicasts_radio (unicasts s)" using broadcast(1) radio_ids(1) [of "unicasts s"] by blast
    with broadcast show ?thesis unfolding eq cancel_broadcast_None [OF inv] radio sends_ids_def by blast
  qed
qed

section \<open>Properties\<close>


text \<open>
  C2: In every history, each waiter that was admitted is either still attached to exactly one record of the tables or
  was given exactly one verdict; and the frames on loan to the radio are exactly those of the records that are
  being transmitted.
\<close>

theorem every_waiter_settled_once:
  assumes "send_reach into n W A (s, fls)"
  shows "W = sends_waiters s + A \<and> size (sends_waiters s) = card (sends_ids s) \<and>
    distinct (map fl_key fls) \<and> fl_key ` set fls = sends_radio s"
  using send_reachD(1,3) [OF assms] by (simp add: card_sends_ids)

text \<open>
  C30: The transmitter is given a queued send that has not lapsed, of the highest priority there is and, among those,
  the one admitted first, whichever table holds it; it gets nothing only if nothing is queued.
\<close>

theorem dequeue_takes_best:
  assumes "send_reach into n W A (s, fls)"
  shows "\<exists>res s'. sends_dequeue s now = Ret (res, s') \<and>
    (case res of
       None \<Rightarrow> s' = s \<and> (\<nexists>i p. queued_at now s i p)
     | Some fl \<Rightarrow> \<exists>p. queued_at now s (fl_id fl) p \<and>
         (\<forall>j q. queued_at now s j q \<longrightarrow> q < p \<or> q = p \<and> fl_id fl \<le> j) \<and> \<not> queued_at now s' (fl_id fl) p)"
proof (cases "\<exists>j q. queued_at now s j q")
  case True
  have inv: "sends_inv s" using send_reachD(1) [OF assms] by simp
  obtain fl s' p where fl: "sends_dequeue s now = Ret (Some fl, s')" "queued_at now s (fl_id fl) p"
      "\<forall>j q. queued_at now s j q \<longrightarrow> q < p \<or> q = p \<and> fl_id fl \<le> j" "sends_inv s'" "sends_radio s' = insert (fl_key fl) (sends_radio s)"
    using True sends_dequeue_Some [OF inv] by blast
  have "\<not> queued_at now s' (fl_id fl) p" using radio_not_queued [OF fl(4), of "fl_key fl"] fl(5) by (simp add: fl_key_def)
  with fl show ?thesis by auto
next
  case False
  then show ?thesis using sends_dequeue_None [of s now] send_reachD(1) [OF assms] by simp
qed

text \<open>
  C31: After a timer pass nothing is due: the next wake-up lies strictly after the pass, so the timer does not spin; and
  there is none only if every send left is with the radio, whose report drives it on.
\<close>

theorem tick_leaves_nothing_due:
  assumes "send_reach into n W A (s, fls)"
  shows "\<exists>as s'. sends_tick into s now = Ret (as, s') \<and>
    (case sends_next_wake s' of Some t \<Rightarrow> now < t | None \<Rightarrow> sends_ids s' = fl_id ` set fls)"
proof -
  have inv: "machine_inv n (s, fls)" by (rule send_reachD(1) [OF assms])
  then have si: "sends_inv s" by simp
  obtain as s' where s': "sends_tick into s now = Ret (as, s')" "sends_inv s'" "sends_radio s' = sends_radio s"
    using sends_tick_step [OF si, of into now] by (rule table_stepE)
  obtain as1 as2 as3 where parts: "unicasts_tick into (unicasts s) now = Ret (as1, unicasts s')"
      "unrouted_tick into (unrouted_unicasts s) now = Ret (as2, unrouted_unicasts s')"
      "broadcasts_tick into (broadcasts s) now = Ret (as3, broadcasts s')"
    using s'(1) by (auto simp: sends_tick_def run_bind_Ret_iff)
  show ?thesis
  proof (cases "sends_next_wake s'")
    case None
    with sends_wake_None [OF s'(2)] s'(1,3) loaned_ids [OF inv] show ?thesis by simp
  next
    case (Some t)
    then have "now < t"
      using sends_wake_Some [OF Some] unicasts_tick_wake [OF sends_invD(1) [OF si] parts(1)]
        unrouted_tick_wake [OF sends_invD(2) [OF si] parts(2)] broadcasts_tick_wake [OF sends_invD(3) [OF si] parts(3)] by blast
    with Some s'(1) show ?thesis by simp
  qed
qed

text \<open>
  C32: Cancelling is exact: it is refused precisely when the send is gone or its frame, or for a broadcast that of one
  of its unicast copies, is with the radio; otherwise the send is settled and its record removed.
\<close>

theorem cancel_exact:
  assumes "send_reach into n W A (s, fls)"
  shows "(cancel into s i = Ret None \<longleftrightarrow>
      i \<notin> sends_ids s \<or> i \<in> fl_id ` set fls \<or>
      i \<in> record_ids (broadcasts s) \<and> (\<exists>c r. fm_get (unicasts s) c = Some r \<and> copy_of r = Some i \<and> c \<in> fl_id ` set fls)) \<and>
    (\<forall>as s'. cancel into s i = Ret (Some (as, s')) \<longrightarrow>
      i \<notin> sends_ids s' \<and> sends_waiters s = sends_waiters s' + settled_waiters as)"
proof -
  note inv = send_reachD(1) [OF assms]
  then have si: "sends_inv s" by simp
  have radio: "c \<in> unicasts_radio (unicasts s) \<longleftrightarrow> c \<in> fl_id ` set fls" if "c \<in> record_ids (unicasts s)" for c
    using that sends_invD(5) [OF si] radio_ids(2) [of "broadcasts s"]
    by (auto simp: loaned_ids [OF inv] sends_radio_def image_Un image_image)
  have copies: "set (copies_of (unicasts s) i) = {c. \<exists>r. fm_get (unicasts s) c = Some r \<and> copy_of r = Some i}"
    by (force simp: copies_of_def fm.iter_iff_get [OF unicasts_invD(1) [OF sends_invD(1) [OF si]], symmetric])
  have "set (copies_of (unicasts s) i) \<inter> unicasts_radio (unicasts s) = set (copies_of (unicasts s) i) \<inter> fl_id ` set fls"
    using radio copies_of_facts(1) [OF unicasts_invD(1) [OF sends_invD(1) [OF si]], of i] by blast
  then have "set (copies_of (unicasts s) i) \<inter> unicasts_radio (unicasts s) \<noteq> {} \<longleftrightarrow>
      (\<exists>c r. fm_get (unicasts s) c = Some r \<and> copy_of r = Some i \<and> c \<in> fl_id ` set fls)"
    unfolding copies by blast
  moreover have "i \<notin> sends_ids s' \<and> sends_waiters s = sends_waiters s' + settled_waiters as"
    if "cancel into s i = Ret (Some (as, s'))" for as s'
    using cancel_step [OF si, of into i] unfolding that table_step_def by simp
  ultimately show ?thesis unfolding cancel_None [OF si] loaned_ids [OF inv] by blast
qed

section \<open>A history\<close>

text \<open>One unicast is admitted, and then taken by the transmitter.\<close>

definition sample_unicast :: "(nat, nat) Unicast" where
  "sample_unicast = \<lparr>u_frame = 5, u_priority = UserNormal, u_waiter = 7, u_confirm = OnHandoff, u_next_hop = 1,
     u_poll_address = None\<rparr>"

definition sample_record :: "(nat, nat) UnicastRecord" where
  "sample_record = \<lparr>ur_frame = Some 5, ur_priority = UserNormal, ur_waiter = 7, ur_confirm = OnHandoff, ur_next_hop = 1,
     ur_poll_address = None, attempts_remaining = unicast_retries tunables_default, ur_stage = Queued,
     ur_deadline = instant_add (Instant 0) (handoff_timeout tunables_default), copy_of = None\<rparr>"

definition sample_sends :: "(nat, nat, SendFailure) Sends" where
  "sample_sends = \<lparr>next_id = 1, unicasts = [(0, sample_record)], unrouted_unicasts = unrouted_default, broadcasts = []\<rparr>"

definition sample_loan :: "nat InFlight" where
  "sample_loan = \<lparr>fl_id = 0, fl_frame = 5, fl_transmit = TxUnicast 1 False\<rparr>"

definition sample_sent :: "(nat, nat, SendFailure) Sends" where
  "sample_sent = sample_sends\<lparr>unicasts := [(0, sample_record\<lparr>ur_stage := Transmitting False, ur_frame := None\<rparr>)]\<rparr>"

lemma sample_admit:
  "send_exec id (OpUnicast sample_unicast (Instant 0) tunables_default) (sends_default, []) = Ret ([], sample_sends, [])"
  by (simp add: enqueue_unicast_def take_id_def sends_default_def unicasts_enqueue_def sample_unicast_def sample_sends_def
      sample_record_def fm_insert_def index_of_def fm_new_def)

lemma sample_deadline: "ur_deadline sample_record = Instant 30000000"
  by (simp add: sample_record_def tunables_default_def tunable_fields_def get_duration_def instant_add_def sat_add_def)

lemma sample_dequeue: "send_exec id (OpDequeue (Instant 1)) (sample_sends, []) = Ret ([], sample_sent, [sample_loan])"
proof -
  have "unicasts_best_queued (unicasts sample_sends) (Instant 1) = Some (0, UserNormal)"
    using sample_deadline by (simp add: unicasts_best_queued_def sample_sends_def less_instant_def) (simp add: sample_record_def)
  moreover have "broadcasts_best_queued (broadcasts sample_sends) (Instant 1) = None"
    by (simp add: broadcasts_best_queued_def sample_sends_def)
  ultimately show ?thesis
    by (simp add: sends_dequeue_def unicasts_dequeue_def sample_sends_def sample_sent_def sample_loan_def sample_record_def
        fm_get_def fm_get_mut_def fm_modify_at_def index_of_def bsearch_base.simps)
qed

lemma sample_reach:
  "send_reach id 1 {#7#} {#} (sample_sends, [])"
  "send_reach id 1 {#7#} {#} (sample_sent, [sample_loan])"
proof -
  show one: "send_reach id 1 {#7#} {#} (sample_sends, [])"
    using send_reach.step [OF send_reach.start, OF _ _ sample_admit] by (simp add: sample_unicast_def)
  show "send_reach id 1 {#7#} {#} (sample_sent, [sample_loan])"
    using send_reach.step [OF one, OF _ _ sample_dequeue] by simp
qed


theorem every_waiter_settled_once_witness:
  "{#7#} = sends_waiters sample_sent + {#} \<and> size (sends_waiters sample_sent) = card (sends_ids sample_sent) \<and>
   distinct (map fl_key [sample_loan]) \<and> fl_key ` set [sample_loan] = sends_radio sample_sent"
  by (rule every_waiter_settled_once [OF sample_reach(2)])

theorem dequeue_takes_best_witness:
  "\<exists>res s'. sends_dequeue sample_sends (Instant 1) = Ret (res, s') \<and>
    (case res of
       None \<Rightarrow> s' = sample_sends \<and> (\<nexists>i p. queued_at (Instant 1) sample_sends i p)
     | Some fl \<Rightarrow> \<exists>p. queued_at (Instant 1) sample_sends (fl_id fl) p \<and>
         (\<forall>j q. queued_at (Instant 1) sample_sends j q \<longrightarrow> q < p \<or> q = p \<and> fl_id fl \<le> j) \<and>
         \<not> queued_at (Instant 1) s' (fl_id fl) p)"
  by (rule dequeue_takes_best [OF sample_reach(1)])

theorem tick_leaves_nothing_due_witness:
  "\<exists>as s'. sends_tick id sample_sent (Instant 40000000) = Ret (as, s') \<and>
    (case sends_next_wake s' of Some t \<Rightarrow> Instant 40000000 < t | None \<Rightarrow> sends_ids s' = fl_id ` set [sample_loan])"
  by (rule tick_leaves_nothing_due [OF sample_reach(2)])

theorem cancel_exact_witness: "cancel id sample_sent 0 = Ret None"
proof -
  have "(0::SendId) \<in> fl_id ` set [sample_loan]" by (simp add: sample_loan_def)
  with cancel_exact [OF sample_reach(2), of 0] show ?thesis by blast
qed

end
