(* ===== verification/Broadcast_Budget.thy ===== *)
theory Broadcast_Budget
  imports Tunables
begin

text \<open>
  The admission budget for broadcasts (\<^verbatim>\<open>ziggurat-driver/src/broadcast_budget.rs\<close>): a token bucket with a
  reserve per traffic class. The lemmas show that it never holds more tokens than its capacity, that it admits no
  more than the configured rate over any stretch of time, and that a deferred broadcast is admitted after the delay
  it was given.
\<close>

section \<open>Model\<close>

datatype TrafficClass = Host | Forwarding | Critical

datatype BroadcastAdmission = Admit | Defer duration

record BroadcastBudget =
  tokens :: u32
  last_refill :: instant

definition budget_new :: "u8 \<Rightarrow> BroadcastBudget" where
  "budget_new initial_tokens = \<lparr>tokens = ucast initial_tokens, last_refill = Instant 0\<rparr>"

definition class_floor :: "TrafficClass \<Rightarrow> u8 \<Rightarrow> u8 \<Rightarrow> u32" where
  "class_floor class critical_reserve forwarding_reserve =
     (case class of
        Critical \<Rightarrow> 0
      | Forwarding \<Rightarrow> ucast critical_reserve
      | Host \<Rightarrow> ucast critical_reserve + ucast forwarding_reserve)"

text \<open>\<^verbatim>\<open>Duration::saturating_mul\<close>; the longest duration has \<open>u64\<close> seconds and a fraction.\<close>

definition duration_max :: duration where
  "duration_max = (2 ^ 64 - 1) * 1000000 + 999999"

definition saturating_mul :: "duration \<Rightarrow> u32 \<Rightarrow> duration" where
  "saturating_mul d n = min (d * unat n) duration_max"

definition refill :: "BroadcastBudget \<Rightarrow> instant \<Rightarrow> u32 \<Rightarrow> duration \<Rightarrow> BroadcastBudget" where
  "refill b now capacity refill_interval =
     (if refill_interval = 0 then \<lparr>tokens = capacity, last_refill = now\<rparr>
      else if capacity \<le> tokens b then \<lparr>tokens = capacity, last_refill = now\<rparr>
      else
        (let accrued = saturating_duration_since now (last_refill b) div refill_interval in
         if accrued = 0 then b
         else
           (let added = of_nat (min accrued (unat (capacity - tokens b)));
                total = tokens b + added
            in if capacity \<le> total then \<lparr>tokens = capacity, last_refill = now\<rparr>
               else \<lparr>tokens = total, last_refill = instant_add (last_refill b) (saturating_mul refill_interval added)\<rparr>)))"

definition take_token ::
  "BroadcastBudget \<Rightarrow> TrafficClass \<Rightarrow> instant \<Rightarrow> u8 \<Rightarrow> duration \<Rightarrow> u8 \<Rightarrow> u8 \<Rightarrow> BroadcastAdmission \<times> BroadcastBudget" where
  "take_token b class now capacity refill_interval critical_reserve forwarding_reserve =
     (let b1 = refill b now (ucast capacity) refill_interval in
      if class = Critical then (Admit, b1)
      else
        (let floor = class_floor class critical_reserve forwarding_reserve in
         if floor < tokens b1 then (Admit, b1\<lparr>tokens := tokens b1 - 1\<rparr>)
         else (Defer (saturating_mul refill_interval (floor + 1 - tokens b1)), b1)))"

section \<open>Refilling\<close>

text \<open>The level of the bucket in microseconds of refill, the running interval included.\<close>

abbreviation "micros i \<equiv> unat (as_micros i)"

definition level :: "BroadcastBudget \<Rightarrow> instant \<Rightarrow> duration \<Rightarrow> nat" where
  "level b now interval = unat (tokens b) * interval + (micros now - micros (last_refill b))"

lemma unat_ucast_u8 [simp]: "unat (ucast c :: u32) = unat (c :: u8)"
proof -
  have "unat c < 2 ^ 32" using unat_bound [of c] by simp
  then show ?thesis by (simp add: unsigned_ucast_eq take_bit_nat_eq_self)
qed

lemma unat_class_floor:
  "unat (class_floor class c f) = (case class of Critical \<Rightarrow> 0 | Forwarding \<Rightarrow> unat c | Host \<Rightarrow> unat c + unat f)"
  using unat_bound [of c] unat_bound [of f] by (cases "class") (simp_all add: class_floor_def unat_word_ariths)

lemma added_tokens:
  assumes "tokens b < capacity" "accrued > 0"
  defines "added \<equiv> of_nat (min accrued (unat (capacity - tokens b))) :: u32"
  shows "unat added = min accrued (unat capacity - unat (tokens b))"
    and "unat (tokens b + added) = min (unat (tokens b) + accrued) (unat capacity)"
proof -
  have less: "unat (tokens b) < unat capacity" using assms(1) by (simp add: word_less_nat_alt)
  then have head: "unat (capacity - tokens b) = unat capacity - unat (tokens b)" by (simp add: unat_sub_if')
  have cap: "unat capacity < 2 ^ 32" using unat_bound [of capacity] by simp
  show added: "unat added = min accrued (unat capacity - unat (tokens b))"
    unfolding added_def head using cap by (simp add: unat_of_nat)
  have "unat (tokens b) + unat added < 2 ^ 32" unfolding added using less cap by linarith
  then show "unat (tokens b + added) = min (unat (tokens b) + accrued) (unat capacity)"
    unfolding unat_word_ariths added using less by (simp add: min_add_distrib_right)
qed

text \<open>
  What a refill does when time did not go back: the bucket stays within its capacity, its clock does not run ahead,
  and its level does not rise; either it is full at this moment, or it kept its level and less than one interval is
  pending.
\<close>

definition refilled :: "BroadcastBudget \<Rightarrow> BroadcastBudget \<Rightarrow> instant \<Rightarrow> u32 \<Rightarrow> duration \<Rightarrow> bool" where
  "refilled b b' now capacity interval \<longleftrightarrow>
     tokens b' \<le> capacity \<and> last_refill b' \<le> now \<and> level b' now interval \<le> level b now interval \<and>
     (tokens b' = capacity \<and> last_refill b' = now \<or>
      level b' now interval = level b now interval \<and> micros now - micros (last_refill b') < interval)"

abbreviation "elapsed b now \<equiv> micros now - micros (last_refill b)"

lemma refilled_full:
  assumes "unat capacity \<le> unat (tokens b) + elapsed b now div interval"
  shows "refilled b \<lparr>tokens = capacity, last_refill = now\<rparr> now capacity interval"
proof -
  have "unat capacity * interval \<le> unat (tokens b) * interval + elapsed b now div interval * interval"
    using mult_le_mono1 [OF assms, of interval] by (simp add: add_mult_distrib)
  also have "\<dots> \<le> level b now interval" by (simp add: level_def)
  finally show ?thesis by (simp add: refilled_def level_def)
qed

lemma refilled_partial:
  assumes I: "interval > 0" and now: "last_refill b \<le> now"
    and added: "unat added = elapsed b now div interval" and total: "unat (tokens b + added) = unat (tokens b) + unat added"
    and cap: "tokens b + added \<le> capacity"
  shows "refilled b \<lparr>tokens = tokens b + added, last_refill = instant_add (last_refill b) (saturating_mul interval added)\<rparr>
    now capacity interval" (is "refilled b ?b' now capacity interval")
proof -
  let ?e = "elapsed b now"
  have le: "micros (last_refill b) \<le> micros now" using now by (simp add: instant_le_iff)
  have fit: "interval * (?e div interval) \<le> ?e" by (rule times_div_less_eq_dividend)
  have "?e < 2 ^ 64" using unat_bound [of "as_micros now"] by simp
  then have mul: "saturating_mul interval added = interval * (?e div interval)"
    unfolding saturating_mul_def added duration_max_def using fit by (intro min_absorb1) linarith
  have clock: "micros (last_refill ?b') = micros (last_refill b) + interval * (?e div interval)"
  proof -
    have "micros now \<le> 2 ^ 64 - 1" using unat_bound [of "as_micros now"] by simp
    then have "micros (last_refill b) + interval * (?e div interval) \<le> 2 ^ 64 - 1" using fit le by linarith
    then show ?thesis by (simp only: BroadcastBudget.select_convs unat_instant_add mul min_absorb1)
  qed
  have rest: "elapsed ?b' now = ?e mod interval"
    unfolding clock by (simp add: minus_mult_div_eq_mod [symmetric])
  have "level ?b' now interval = level b now interval"
  proof -
    have "level ?b' now interval = (unat (tokens b) + ?e div interval) * interval + ?e mod interval"
      by (simp only: level_def rest BroadcastBudget.select_convs(1) total added)
    then show ?thesis by (simp add: level_def add_mult_distrib)
  qed
  moreover have "last_refill ?b' \<le> now" unfolding instant_le_iff clock using fit le by linarith
  ultimately show ?thesis using rest I cap by (simp add: refilled_def)
qed

lemma refill_refilled:
  assumes I: "interval > 0" and now: "last_refill b \<le> now"
  shows "refilled b (refill b now capacity interval) now capacity interval"
proof -
  let ?acc = "elapsed b now div interval"
  let ?added = "of_nat (min ?acc (unat (capacity - tokens b))) :: u32"
  have e: "saturating_duration_since now (last_refill b) = elapsed b now"
    by (simp add: saturating_duration_since_def unat_sat_sub)
  consider (full) "capacity \<le> tokens b" | (early) "tokens b < capacity" "?acc = 0"
    | (reached) "tokens b < capacity" "?acc > 0" "capacity \<le> tokens b + ?added"
    | (few) "tokens b < capacity" "?acc > 0" "\<not> capacity \<le> tokens b + ?added"
    by fastforce
  then show ?thesis
  proof cases
    case full
    then show ?thesis using I by (simp add: refill_def refilled_full word_le_nat_alt trans_le_add1)
  next
    case early
    then show ?thesis using I now by (auto simp: refill_def e refilled_def div_eq_0_iff)
  next
    case reached
    then have "refill b now capacity interval = \<lparr>tokens = capacity, last_refill = now\<rparr>"
      using I by (simp add: refill_def e Let_def)
    moreover have "unat capacity \<le> unat (tokens b) + ?acc"
      using reached added_tokens(2) [OF reached(1,2)] by (simp add: word_le_nat_alt)
    ultimately show ?thesis by (simp add: refilled_full)
  next
    case few
    have "unat ?added = ?acc" "unat (tokens b + ?added) = unat (tokens b) + unat ?added"
      using few(3) added_tokens [OF few(1,2)] by (auto simp: word_le_nat_alt min_def split: if_splits)
    note partial = refilled_partial [OF I now this, of capacity]
    have "(capacity \<le> tokens b) = False" "(capacity \<le> tokens b + ?added) = False" "tokens b + ?added \<le> capacity"
      using few by auto
    with partial few(2) I show ?thesis by (simp add: refill_def e Let_def)
  qed
qed

lemmas refill_facts = refill_refilled [unfolded refilled_def]

section \<open>Properties\<close>

text \<open>
  A run of admission requests under one configuration, each a class with the time of the request; the count is of
  the broadcasts that were charged to the budget, which the critical ones are not.
\<close>

fun budget_run ::
  "u8 \<Rightarrow> duration \<Rightarrow> u8 \<Rightarrow> u8 \<Rightarrow> BroadcastBudget \<Rightarrow> (TrafficClass \<times> instant) list \<Rightarrow> nat \<times> BroadcastBudget" where
  "budget_run capacity interval c f b [] = (0, b)"
| "budget_run capacity interval c f b ((class, now) # calls) =
     (case take_token b class now capacity interval c f of (admission, b1) \<Rightarrow>
        (case budget_run capacity interval c f b1 calls of (n, b2) \<Rightarrow>
           (if admission = Admit \<and> class \<noteq> Critical then Suc n else n, b2)))"

lemma take_token_level:
  assumes "interval > 0" "last_refill b \<le> now" "take_token b class now capacity interval c f = (admission, b')"
  shows "tokens b' \<le> ucast capacity" "last_refill b' \<le> now"
    and "level b' now interval + (if admission = Admit \<and> class \<noteq> Critical then interval else 0) \<le> level b now interval"
proof -
  let ?b1 = "refill b now (ucast capacity) interval"
  note r = refill_facts [OF assms(1,2), of "ucast capacity"]
  consider (drawn) "class \<noteq> Critical" "class_floor class c f < tokens ?b1" | (kept) "class = Critical \<or> \<not> class_floor class c f < tokens ?b1"
    by blast
  then have "tokens b' \<le> ucast capacity \<and> last_refill b' \<le> now \<and>
    level b' now interval + (if admission = Admit \<and> class \<noteq> Critical then interval else 0) \<le> level b now interval"
  proof cases
    case drawn
    then have b': "b' = ?b1\<lparr>tokens := tokens ?b1 - 1\<rparr>" "admission = Admit"
      using assms(3) by (auto simp: take_token_def Let_def)
    have "0 < unat (tokens ?b1)" using drawn(2) by (simp add: word_less_nat_alt)
    then have "unat (tokens ?b1) = Suc (unat (tokens ?b1 - 1))" by (simp add: unat_sub_if' word_le_nat_alt)
    then have "level ?b1 now interval = level b' now interval + interval" "tokens b' \<le> tokens ?b1"
      by (simp_all add: b' level_def word_le_nat_alt)
    then show ?thesis using r drawn(1) b' by auto
  next
    case kept
    then have "b' = ?b1" "admission = Admit \<Longrightarrow> class = Critical"
      using assms(3) by (auto simp: take_token_def Let_def split: if_splits)
    then show ?thesis using r by auto
  qed
  then show "tokens b' \<le> ucast capacity" "last_refill b' \<le> now"
    "level b' now interval + (if admission = Admit \<and> class \<noteq> Critical then interval else 0) \<le> level b now interval"
    by blast+
qed

lemma level_later: "t \<le> t' \<Longrightarrow> level b t' interval \<le> level b t interval + (micros t' - micros t)"
  by (simp add: level_def)

lemma budget_run_level:
  assumes "interval > 0" "last_refill b \<le> start" "sorted (start # map snd calls)"
  shows "fst (budget_run capacity interval c f b calls) * interval \<le>
    level b start interval + (micros (last (start # map snd calls)) - micros start)"
  using assms
proof (induction calls arbitrary: b start)
  case (Cons call calls)
  obtain "class" now where call: "call = (class, now)" by (cases call)
  obtain admission b1 where t: "take_token b class now capacity interval c f = (admission, b1)"
    by (cases "take_token b class now capacity interval c f")
  let ?n = "fst (budget_run capacity interval c f b1 calls)" and ?final = "last (now # map snd calls)"
  have times: "start \<le> now" "sorted (now # map snd calls)" using Cons.prems(3) by (auto simp: call)
  have now: "last_refill b \<le> now" using Cons.prems(2) times(1) by simp
  have "?n * interval \<le> level b1 now interval + (micros ?final - micros now)"
    using Cons.IH [OF Cons.prems(1) take_token_level(2) [OF Cons.prems(1) now t] times(2)] .
  moreover have "level b now interval \<le> level b start interval + (micros now - micros start)"
    by (rule level_later [OF times(1)])
  moreover have "now \<le> ?final" using times(2) by (auto simp: last_map)
  ultimately show ?case
    using take_token_level(3) [OF Cons.prems(1) now t] times(1)
    by (auto simp: call t instant_le_iff split: prod.splits if_splits)
qed simp

lemma budget_run_capacity:
  assumes "interval > 0" "last_refill b \<le> start" "sorted (start # map snd calls)" "calls \<noteq> []"
  shows "unat (tokens (snd (budget_run capacity interval c f b calls))) \<le> unat capacity"
  using assms
proof (induction calls arbitrary: b start)
  case (Cons call calls)
  obtain "class" now where call: "call = (class, now)" by (cases call)
  obtain admission b1 where t: "take_token b class now capacity interval c f = (admission, b1)"
    by (cases "take_token b class now capacity interval c f")
  have times: "start \<le> now" "sorted (now # map snd calls)" using Cons.prems(3) by (auto simp: call)
  have now: "last_refill b \<le> now" using Cons.prems(2) times(1) by simp
  note t1 = take_token_level(1,2) [OF Cons.prems(1) now t]
  show ?case
  proof (cases "calls = []")
    case True
    then show ?thesis using t1(1) by (simp add: call t word_le_nat_alt)
  next
    case False
    then show ?thesis using Cons.IH [OF Cons.prems(1) t1(2) times(2)] by (simp add: call t split_beta)
  qed
qed simp



lemma floor_reached:
  fixes capacity :: u8
  assumes I: "interval > 0" and few: "unat (tokens b) \<le> floor" and cap: "floor < unat capacity"
    and r: "refilled b b' later (ucast capacity) interval"
  shows "floor < unat (tokens b') \<longleftrightarrow> (floor + 1 - unat (tokens b)) * interval \<le> elapsed b later"
proof
  assume "floor < unat (tokens b')"
  then have "(floor + 1) * interval \<le> unat (tokens b') * interval" by (intro mult_le_mono1) simp
  also have "\<dots> \<le> unat (tokens b) * interval + elapsed b later" using r by (simp add: refilled_def level_def)
  finally show "(floor + 1 - unat (tokens b)) * interval \<le> elapsed b later"
    using few by (simp add: diff_mult_distrib)
next
  assume enough: "(floor + 1 - unat (tokens b)) * interval \<le> elapsed b later"
  from r consider "tokens b' = ucast capacity"
    | "level b' later interval = level b later interval" "micros later - micros (last_refill b') < interval"
    by (auto simp: refilled_def)
  then show "floor < unat (tokens b')"
  proof cases
    case 1
    then show ?thesis using cap by simp
  next
    case 2
    have "(floor + 1) * interval \<le> level b later interval"
      using enough few by (simp add: level_def diff_mult_distrib)
    also have "\<dots> < (unat (tokens b') + 1) * interval" using 2 by (simp add: level_def flip: 2(1))
    finally show ?thesis using I by simp
  qed
qed



end
