(* ===== verification/Send_Tracker.thy ===== *)
theory Send_Tracker
  imports Sends_Base "HOL-Library.Sublist"
begin

text \<open>
  From the verdicts of the send tables to the confirm frames on the wire: the slot a send's verdicts are written
  into (\<^verbatim>\<open>ziggurat-driver/src/zigbee_stack/send_handle.rs\<close>), and the tracker that sweeps the slots
  (\<^verbatim>\<open>ziggurat-protocol/src/send_tracker.rs\<close>). The slots are shared, so they live in a store; the shared
  \<^verbatim>\<open>Notify\<close> is its single permit.
\<close>

section \<open>Slots\<close>

datatype ('t, 'r) DeliveryError =
    DRouteDiscoveryTimeout | DRouteInactiveAfterDiscovery | DNwkNoAck Ieee802154Address | DCcaFailure
  | DTransmitFailed 't | DApsAckTimeout | DHandoffTimeout | DBroadcastQuorumNotReached
  | DIndirectExpired Ieee802154Address | DCancelled | DRadio 'r

fun delivery_error_from :: "SendFailure \<Rightarrow> ('t, 'r) DeliveryError" where
  "delivery_error_from HandoffTimeout = DHandoffTimeout"
| "delivery_error_from ApsAckTimeout = DApsAckTimeout"
| "delivery_error_from (IndirectExpired d) = DIndirectExpired d"
| "delivery_error_from RouteDiscoveryTimeout = DRouteDiscoveryTimeout"
| "delivery_error_from BroadcastQuorumNotReached = DBroadcastQuorumNotReached"
| "delivery_error_from Cancelled = DCancelled"

record 'e SendProgress =
  handed_off :: "'e verdict option"
  delivered :: "'e verdict option"

text \<open>\<^verbatim>\<open>Progress\<close> of a slot: the two verdicts, and whether the tracker's wake is registered.\<close>

record 'e SendSlot = "'e SendProgress" +
  completion_wake :: bool

definition slot_default :: "'e SendSlot" where
  "slot_default = \<lparr>handed_off = None, delivered = None, completion_wake = False\<rparr>"

text \<open>Both return the slot and whether the tracker's wake is notified.\<close>

definition slot_handed_off :: "'e SendSlot \<Rightarrow> 'e SendSlot \<times> bool" where
  "slot_handed_off p =
     (if handed_off p \<noteq> None then (p, False) else (p\<lparr>handed_off := Some (Inr ())\<rparr>, completion_wake p))"

definition slot_settled :: "'e SendSlot \<Rightarrow> 'e verdict \<Rightarrow> 'e SendSlot \<times> bool" where
  "slot_settled p result =
     (let p1 = (if handed_off p = None then p\<lparr>handed_off := Some result\<rparr> else p)
      in (p1\<lparr>delivered := Some result\<rparr>, completion_wake p1))"

definition slot_status :: "'e SendSlot \<Rightarrow> 'e SendProgress" where
  "slot_status p = \<lparr>handed_off = handed_off p, delivered = delivered p\<rparr>"

section \<open>The tracker\<close>

type_synonym RequestId = u16

datatype ConfirmKind = UnicastNoAck | UnicastApsAck | BroadcastKind

datatype SendStatus =
    StSuccess | StRouteDiscoveryTimeout | StRouteDiscoveryNoEntry | StRouteInactiveAfterDiscovery | StNwkNoAck
  | StCcaFailure | StTransmitFailed | StApsAckTimeout | StBroadcastQuorumNotReached | StIndirectExpired
  | StFrameBudgetExhausted | StCancelled | StRadioError | StHandoffTimeout

fun send_status :: "('t, 'r) DeliveryError verdict \<Rightarrow> SendStatus" where
  "send_status (Inr _) = StSuccess"
| "send_status (Inl DRouteDiscoveryTimeout) = StRouteDiscoveryTimeout"
| "send_status (Inl DRouteInactiveAfterDiscovery) = StRouteInactiveAfterDiscovery"
| "send_status (Inl (DNwkNoAck _)) = StNwkNoAck"
| "send_status (Inl DCcaFailure) = StCcaFailure"
| "send_status (Inl (DTransmitFailed _)) = StTransmitFailed"
| "send_status (Inl DApsAckTimeout) = StApsAckTimeout"
| "send_status (Inl DHandoffTimeout) = StHandoffTimeout"
| "send_status (Inl DBroadcastQuorumNotReached) = StBroadcastQuorumNotReached"
| "send_status (Inl (DIndirectExpired _)) = StIndirectExpired"
| "send_status (Inl DCancelled) = StCancelled"
| "send_status (Inl (DRadio _)) = StRadioError"

datatype Confirmation =
    SendConfirm RequestId SendStatus | ApsAckConfirm RequestId SendStatus | BroadcastConfirm RequestId SendStatus

text \<open>A handle is the address of its slot and the driver's identifier.\<close>

record TrackedSend =
  handle_slot :: nat
  handle_id :: SendId
  confirm_kind :: ConfirmKind
  emitted_send_confirm :: bool

type_synonym SendTracker = "(RequestId, TrackedSend) flat_map"

type_synonym ('t, 'r) slots = "nat \<Rightarrow> ('t, 'r) DeliveryError SendSlot"

definition tracker_insert ::
  "SendTracker \<Rightarrow> ('t, 'r) slots \<Rightarrow> RequestId \<Rightarrow> nat \<Rightarrow> SendId \<Rightarrow> ConfirmKind \<Rightarrow> SendTracker \<times> ('t, 'r) slots" where
  "tracker_insert t slots i a d kind =
     (snd (fm_insert t i \<lparr>handle_slot = a, handle_id = d, confirm_kind = kind, emitted_send_confirm = False\<rparr>),
      slots(a := slots a\<lparr>completion_wake := True\<rparr>))"

definition tracker_send_id :: "SendTracker \<Rightarrow> RequestId \<Rightarrow> SendId option" where
  "tracker_send_id t i = map_option handle_id (fm_get t i)"

text \<open>One iteration of the sweep: the frames it pushes, whether the entry is done, the entry it leaves.\<close>

definition sweep_delivered ::
  "(RequestId \<Rightarrow> SendStatus \<Rightarrow> Confirmation) \<Rightarrow> RequestId \<Rightarrow> ('t, 'r) DeliveryError SendProgress \<Rightarrow> Confirmation list \<times> bool" where
  "sweep_delivered frame i progress =
     (case delivered progress of None \<Rightarrow> ([], False) | Some v \<Rightarrow> ([frame i (send_status v)], True))"

definition sweep_entry ::
  "('t, 'r) slots \<Rightarrow> RequestId \<Rightarrow> TrackedSend \<Rightarrow> Confirmation list \<times> bool \<times> TrackedSend" where
  "sweep_entry slots i e =
     (let progress = slot_status (slots (handle_slot e)) in
      case confirm_kind e of
        UnicastNoAck \<Rightarrow> (case sweep_delivered SendConfirm i progress of (out, done) \<Rightarrow> (out, done, e))
      | BroadcastKind \<Rightarrow> (case sweep_delivered BroadcastConfirm i progress of (out, done) \<Rightarrow> (out, done, e))
      | UnicastApsAck \<Rightarrow>
          (case (if emitted_send_confirm e then None else handed_off progress) of
             Some v \<Rightarrow>
               if isl v then ([SendConfirm i (send_status v)], True, e\<lparr>emitted_send_confirm := True\<rparr>)
               else
                 (case sweep_delivered ApsAckConfirm i progress of (out, done) \<Rightarrow>
                    (SendConfirm i (send_status v) # out, done, e\<lparr>emitted_send_confirm := True\<rparr>))
           | None \<Rightarrow>
               if emitted_send_confirm e
               then (case sweep_delivered ApsAckConfirm i progress of (out, done) \<Rightarrow> (out, done, e))
               else ([], False, e)))"

definition sweep :: "('t, 'r) slots \<Rightarrow> SendTracker \<Rightarrow> Confirmation list \<times> SendTracker" where
  "sweep slots t =
     (let out = concat (map (\<lambda>(i, e). fst (sweep_entry slots i e)) t);
          t1 = map (\<lambda>(i, e). (i, snd (snd (sweep_entry slots i e)))) t;
          done = map fst (filter (\<lambda>(i, e). fst (snd (sweep_entry slots i e))) t)
      in (out, fold (\<lambda>i m. snd (fm_remove m i)) done t1))"

section \<open>The transport\<close>

text \<open>
  The tracker as a transport runs it: the driver resolves slots, the transport registers the sends it starts and
  notifies the wake once after that (\<^verbatim>\<open>register_send\<close>), and its reactor sweeps when the wake has a permit.
\<close>

record ('t, 'r) transport =
  tr_slots :: "('t, 'r) slots"
  tr_entries :: SendTracker
  tr_wake :: bool

definition transport_init :: "('t, 'r) transport" where
  "transport_init = \<lparr>tr_slots = \<lambda>_. slot_default, tr_entries = fm_new, tr_wake = False\<rparr>"

datatype ('t, 'r) tracker_op =
    SlotHandedOff nat
  | SlotSettled nat "('t, 'r) DeliveryError verdict"
  | RegisterSend RequestId nat SendId ConfirmKind
  | RunSweep

fun tracker_exec :: "('t, 'r) tracker_op \<Rightarrow> ('t, 'r) transport \<Rightarrow> Confirmation list \<times> ('t, 'r) transport" where
  "tracker_exec (SlotHandedOff a) s =
     (case slot_handed_off (tr_slots s a) of (p, wake) \<Rightarrow>
        ([], s\<lparr>tr_slots := (tr_slots s)(a := p), tr_wake := tr_wake s \<or> wake\<rparr>))"
| "tracker_exec (SlotSettled a result) s =
     (case slot_settled (tr_slots s a) result of (p, wake) \<Rightarrow>
        ([], s\<lparr>tr_slots := (tr_slots s)(a := p), tr_wake := tr_wake s \<or> wake\<rparr>))"
| "tracker_exec (RegisterSend i a d kind) s =
     (case tracker_insert (tr_entries s) (tr_slots s) i a d kind of (t, slots) \<Rightarrow>
        ([], s\<lparr>tr_slots := slots, tr_entries := t, tr_wake := True\<rparr>))"
| "tracker_exec RunSweep s =
     (case sweep (tr_slots s) (tr_entries s) of (out, t) \<Rightarrow> (out, s\<lparr>tr_entries := t, tr_wake := False\<rparr>))"

text \<open>
  A send is registered under a fresh request identifier and a slot of its own, and is settled at most once: the
  send tables give each waiter one verdict. The reactor sweeps only when the wake has a permit. \<open>regs\<close> records what was
  registered, \<open>log\<close> the frames emitted.
\<close>

fun tracker_legal :: "(RequestId \<rightharpoonup> nat \<times> ConfirmKind) \<Rightarrow> ('t, 'r) tracker_op \<Rightarrow> ('t, 'r) transport \<Rightarrow> bool" where
  "tracker_legal regs (SlotHandedOff a) s \<longleftrightarrow> True"
| "tracker_legal regs (SlotSettled a result) s \<longleftrightarrow> delivered (tr_slots s a) = None"
| "tracker_legal regs (RegisterSend i a d kind) s \<longleftrightarrow> regs i = None \<and> (\<forall>j k. regs j \<noteq> Some (a, k))"
| "tracker_legal regs RunSweep s \<longleftrightarrow> tr_wake s"

fun registered ::
  "('t, 'r) tracker_op \<Rightarrow> (RequestId \<rightharpoonup> nat \<times> ConfirmKind) \<Rightarrow> (RequestId \<rightharpoonup> nat \<times> ConfirmKind)" where
  "registered (RegisterSend i a d kind) regs = regs(i \<mapsto> (a, kind))"
| "registered _ regs = regs"

inductive tracker_reach ::
  "(RequestId \<rightharpoonup> nat \<times> ConfirmKind) \<Rightarrow> Confirmation list \<Rightarrow> ('t, 'r) transport \<Rightarrow> bool" where
  start: "tracker_reach Map.empty [] transport_init"
| step: "tracker_reach regs log s \<Longrightarrow> tracker_legal regs op s \<Longrightarrow> tracker_exec op s = (out, s') \<Longrightarrow>
     tracker_reach (registered op regs) (log @ out) s'"

section \<open>What a send is owed\<close>

fun confirmation_id :: "Confirmation \<Rightarrow> RequestId" where
  "confirmation_id (SendConfirm i _) = i"
| "confirmation_id (ApsAckConfirm i _) = i"
| "confirmation_id (BroadcastConfirm i _) = i"

definition confirms_for :: "RequestId \<Rightarrow> Confirmation list \<Rightarrow> Confirmation list" where
  "confirms_for i log = filter (\<lambda>c. confirmation_id c = i) log"

definition owed_at_delivery ::
  "(RequestId \<Rightarrow> SendStatus \<Rightarrow> Confirmation) \<Rightarrow> RequestId \<Rightarrow> ('t, 'r) DeliveryError SendSlot \<Rightarrow> Confirmation list" where
  "owed_at_delivery frame i p = (case delivered p of None \<Rightarrow> [] | Some v \<Rightarrow> [frame i (send_status v)])"

text \<open>The frames a send is owed by the verdicts its slot holds.\<close>

definition owed :: "ConfirmKind \<Rightarrow> RequestId \<Rightarrow> ('t, 'r) DeliveryError SendSlot \<Rightarrow> Confirmation list" where
  "owed kind i p =
     (case kind of
        UnicastNoAck \<Rightarrow> owed_at_delivery SendConfirm i p
      | BroadcastKind \<Rightarrow> owed_at_delivery BroadcastConfirm i p
      | UnicastApsAck \<Rightarrow>
          (case handed_off p of
             None \<Rightarrow> []
           | Some v \<Rightarrow> SendConfirm i (send_status v) # (if isl v then [] else owed_at_delivery ApsAckConfirm i p)))"

text \<open>Nothing more will be owed.\<close>

definition complete :: "ConfirmKind \<Rightarrow> ('t, 'r) DeliveryError SendSlot \<Rightarrow> bool" where
  "complete kind p \<longleftrightarrow> delivered p \<noteq> None \<or> kind = UnicastApsAck \<and> (\<exists>v. handed_off p = Some v \<and> isl v)"

section \<open>The invariant\<close>

text \<open>
  A tracked send has been given what its flag says, and its wake is registered; a send that is no longer tracked was
  given all it is owed. With no permit in the wake, nothing is owed to a tracked send.
\<close>

definition given :: "TrackedSend \<Rightarrow> RequestId \<Rightarrow> Confirmation list" where
  "given e i = (if emitted_send_confirm e then [SendConfirm i StSuccess] else [])"

definition entry_ok :: "('t, 'r) DeliveryError SendSlot \<Rightarrow> TrackedSend \<Rightarrow> bool" where
  "entry_ok p e \<longleftrightarrow> completion_wake p \<and>
     (emitted_send_confirm e \<longrightarrow> confirm_kind e = UnicastApsAck \<and> handed_off p = Some (Inr ()))"

definition send_ok ::
  "('t, 'r) transport \<Rightarrow> Confirmation list \<Rightarrow> RequestId \<Rightarrow> nat \<Rightarrow> ConfirmKind \<Rightarrow> bool" where
  "send_ok s log i a kind \<longleftrightarrow>
     (case fm_get (tr_entries s) i of
        None \<Rightarrow> complete kind (tr_slots s a) \<and> confirms_for i log = owed kind i (tr_slots s a)
      | Some e \<Rightarrow> handle_slot e = a \<and> confirm_kind e = kind \<and> entry_ok (tr_slots s a) e \<and>
          confirms_for i log = given e i \<and>
          (tr_wake s \<or> \<not> complete kind (tr_slots s a) \<and> given e i = owed kind i (tr_slots s a)))"

definition slot_ok :: "'e SendSlot \<Rightarrow> bool" where
  "slot_ok p \<longleftrightarrow> (delivered p \<noteq> None \<longrightarrow> handed_off p \<noteq> None)"

definition tracker_inv :: "(RequestId \<rightharpoonup> nat \<times> ConfirmKind) \<Rightarrow> Confirmation list \<Rightarrow> ('t, 'r) transport \<Rightarrow> bool" where
  "tracker_inv regs log s \<longleftrightarrow> fm_inv (tr_entries s) \<and> (\<forall>a. slot_ok (tr_slots s a)) \<and>
     (\<forall>i j a k l. regs i = Some (a, k) \<and> regs j = Some (a, l) \<longrightarrow> i = j) \<and>
     (\<forall>i. regs i = None \<longrightarrow> fm_get (tr_entries s) i = None \<and> confirms_for i log = []) \<and>
     (\<forall>i a kind. regs i = Some (a, kind) \<longrightarrow> send_ok s log i a kind)"

lemma confirms_for_simps [simp]:
  "confirms_for i [] = []"
  "confirms_for i (xs @ ys) = confirms_for i xs @ confirms_for i ys"
  by (simp_all add: confirms_for_def)

lemma not_isl_verdict [simp]: "\<not> isl v \<longleftrightarrow> v = Inr ()" for v :: "'e verdict"
  by (cases v) simp_all

text \<open>One iteration of the sweep gives a tracked send exactly what it is still owed.\<close>

lemma sweep_entry_spec:
  assumes "entry_ok (slots (handle_slot e)) e" "slot_ok (slots (handle_slot e))"
    and "sweep_entry slots i e = (out, finished, e')"
  shows "given e i @ out = owed (confirm_kind e) i (slots (handle_slot e))"
    and "finished \<longleftrightarrow> complete (confirm_kind e) (slots (handle_slot e))"
    and "\<not> finished \<Longrightarrow> entry_ok (slots (handle_slot e)) e' \<and> given e' i = given e i @ out"
    and "handle_slot e' = handle_slot e \<and> confirm_kind e' = confirm_kind e"
    and "\<forall>c \<in> set out. confirmation_id c = i"
proof -
  have "given e i @ out = owed (confirm_kind e) i (slots (handle_slot e)) \<and>
      (finished \<longleftrightarrow> complete (confirm_kind e) (slots (handle_slot e))) \<and>
      (\<not> finished \<longrightarrow> entry_ok (slots (handle_slot e)) e' \<and> given e' i = given e i @ out) \<and>
      (handle_slot e' = handle_slot e \<and> confirm_kind e' = confirm_kind e) \<and> (\<forall>c \<in> set out. confirmation_id c = i)"
    using assms
    by (cases "confirm_kind e"; cases "handed_off (slots (handle_slot e))"; cases "delivered (slots (handle_slot e))")
       (auto simp: sweep_entry_def sweep_delivered_def slot_status_def given_def entry_ok_def slot_ok_def owed_def
         owed_at_delivery_def complete_def split: if_splits)
  then show "given e i @ out = owed (confirm_kind e) i (slots (handle_slot e))"
    "finished \<longleftrightarrow> complete (confirm_kind e) (slots (handle_slot e))"
    "\<not> finished \<Longrightarrow> entry_ok (slots (handle_slot e)) e' \<and> given e' i = given e i @ out"
    "handle_slot e' = handle_slot e \<and> confirm_kind e' = confirm_kind e" "\<forall>c \<in> set out. confirmation_id c = i"
    by blast+
qed

lemma confirms_for_concat:
  assumes "distinct (map fst t)" "\<And>k e. (k, e) \<in> set t \<Longrightarrow> \<forall>c \<in> set (f k e). confirmation_id c = k"
  shows "confirms_for i (concat (map (\<lambda>(k, e). f k e) t)) = (case map_of t i of None \<Rightarrow> [] | Some e \<Rightarrow> f i e)"
  using assms
proof (induction t)
  case (Cons x t)
  obtain k e where x: "x = (k, e)" by (cases x)
  have own: "\<forall>c \<in> set (f k e). confirmation_id c = k" using Cons.prems(2) by (auto simp: x)
  have "confirms_for i (f k e) = (if k = i then f k e else [])"
    using own by (auto simp: confirms_for_def filter_empty_conv intro: filter_True)
  moreover have "confirms_for i (concat (map (\<lambda>(k, e). f k e) t)) = (case map_of t i of None \<Rightarrow> [] | Some e \<Rightarrow> f i e)"
    using Cons by (auto simp: x)
  moreover have "map_of t k = None" using Cons.prems(1) by (auto simp: x map_of_eq_None_iff)
  ultimately show ?case by (auto simp: x)
qed simp

lemma sweep_facts:
  assumes t: "fm_inv t"
    and ok: "\<And>k e. fm_get t k = Some e \<Longrightarrow> entry_ok (slots (handle_slot e)) e \<and> slot_ok (slots (handle_slot e))"
  shows "fm_inv (snd (sweep slots t))"
    and "fm_get (snd (sweep slots t)) i = (case fm_get t i of None \<Rightarrow> None | Some e \<Rightarrow>
       if fst (snd (sweep_entry slots i e)) then None else Some (snd (snd (sweep_entry slots i e))))"
    and "confirms_for i (fst (sweep slots t)) = (case fm_get t i of None \<Rightarrow> [] | Some e \<Rightarrow> fst (sweep_entry slots i e))"
proof -
  let ?t1 = "map (\<lambda>(k, e). (k, snd (snd (sweep_entry slots k e)))) t"
  let ?done = "map fst (filter (\<lambda>(k, e). fst (snd (sweep_entry slots k e))) t)"
  note t1 = fm_map_values [OF t, of "\<lambda>k e. snd (snd (sweep_entry slots k e))"]
  have sweep: "sweep slots t = (concat (map (\<lambda>(k, e). fst (sweep_entry slots k e)) t), fold (\<lambda>k m. snd (fm_remove m k)) ?done ?t1)"
    by (simp add: sweep_def)
  have retired: "k \<in> set ?done \<longleftrightarrow> (\<exists>e. fm_get t k = Some e \<and> fst (snd (sweep_entry slots k e)))" for k
    by (force simp: fm.iter_iff_get [OF t, symmetric])
  show "fm_inv (snd (sweep slots t))" unfolding sweep using fm_fold_remove [OF t1(1)] by simp
  show "fm_get (snd (sweep slots t)) i = (case fm_get t i of None \<Rightarrow> None | Some e \<Rightarrow>
       if fst (snd (sweep_entry slots i e)) then None else Some (snd (snd (sweep_entry slots i e))))"
    unfolding sweep snd_conv using fm_fold_remove [OF t1(1), of ?done i] t1(2) [of i] retired [of i]
    by (auto split: option.splits)
  have "\<forall>c \<in> set (fst (sweep_entry slots k e)). confirmation_id c = k" if "(k, e) \<in> set t" for k e
    using sweep_entry_spec(5) [of slots e k] ok that by (metis fm.iter_iff_get [OF t] prod.collapse)
  from confirms_for_concat [OF fm_inv_distinct [OF t], of "\<lambda>k e. fst (sweep_entry slots k e)", OF this]
  show "confirms_for i (fst (sweep slots t)) = (case fm_get t i of None \<Rightarrow> [] | Some e \<Rightarrow> fst (sweep_entry slots i e))"
    unfolding sweep fst_conv fm_get_map_of [OF t] .
qed

lemma tracker_invD:
  assumes "tracker_inv regs log s"
  shows "fm_inv (tr_entries s)" "slot_ok (tr_slots s a)"
    "regs i = Some (a, k) \<Longrightarrow> regs j = Some (a, l) \<Longrightarrow> i = j"
    "regs i = None \<Longrightarrow> fm_get (tr_entries s) i = None" "regs i = None \<Longrightarrow> confirms_for i log = []"
    "regs i = Some (a, kind) \<Longrightarrow> send_ok s log i a kind"
  using assms unfolding tracker_inv_def by blast+

lemma tracked_ok:
  assumes inv: "tracker_inv regs log s" and e: "fm_get (tr_entries s) i = Some e"
  shows "entry_ok (tr_slots s (handle_slot e)) e \<and> slot_ok (tr_slots s (handle_slot e))"
proof -
  obtain a kind where "regs i = Some (a, kind)" using tracker_invD(4) [OF inv, of i] e by (cases "regs i") auto
  from tracker_invD(6) [OF inv this] e tracker_invD(2) [OF inv] show ?thesis by (auto simp: send_ok_def)
qed

lemma sweep_send_ok:
  assumes inv: "tracker_inv regs log s" and reg: "regs i = Some (a, kind)"
  shows "send_ok (s\<lparr>tr_entries := snd (sweep (tr_slots s) (tr_entries s)), tr_wake := False\<rparr>)
    (log @ fst (sweep (tr_slots s) (tr_entries s))) i a kind"
proof -
  note f = sweep_facts(2,3) [where i = i, OF tracker_invD(1) [OF inv] tracked_ok [OF inv]]
  note ok = tracker_invD(6) [OF inv reg]
  show ?thesis
  proof (cases "fm_get (tr_entries s) i")
    case None
    then show ?thesis using ok f by (simp add: send_ok_def)
  next
    case (Some e)
    obtain out finished e' where se: "sweep_entry (tr_slots s) i e = (out, finished, e')"
      by (cases "sweep_entry (tr_slots s) i e")
    have e: "handle_slot e = a" "confirm_kind e = kind" "confirms_for i log = given e i" using ok Some by (auto simp: send_ok_def)
    note spec = sweep_entry_spec [OF conjunct1 [OF tracked_ok [OF inv Some]] conjunct2 [OF tracked_ok [OF inv Some]] se, unfolded e(1,2)]
    show ?thesis using f Some se spec e by (cases finished) (auto simp: send_ok_def)
  qed
qed

text \<open>A slot that resolves further keeps the verdicts it has, and notifies the wake it knows.\<close>

definition slot_step :: "'e SendSlot \<Rightarrow> 'e SendSlot \<Rightarrow> bool \<Rightarrow> bool" where
  "slot_step p p' wake \<longleftrightarrow> completion_wake p' = completion_wake p \<and>
     (handed_off p \<noteq> None \<longrightarrow> handed_off p' = handed_off p) \<and> (delivered p \<noteq> None \<longrightarrow> delivered p' = delivered p) \<and>
     slot_ok p' \<and> (completion_wake p \<and> p' \<noteq> p \<longrightarrow> wake)"

lemma slot_steps:
  "slot_ok p \<Longrightarrow> slot_step p (fst (slot_handed_off p)) (snd (slot_handed_off p))"
  "delivered p = None \<Longrightarrow> slot_step p (fst (slot_settled p v)) (snd (slot_settled p v))"
  by (auto simp: slot_step_def slot_handed_off_def slot_settled_def slot_ok_def Let_def)

lemma slot_step_complete:
  assumes "slot_step p p' wake" "slot_ok p" "complete kind p"
  shows "complete kind p'" "owed kind i p' = owed kind i p"
  using assms by (auto simp: slot_step_def complete_def owed_def owed_at_delivery_def slot_ok_def
      split: ConfirmKind.splits option.splits)

lemma slot_step_inv:
  assumes inv: "tracker_inv regs log s" and p: "slot_step (tr_slots s a) p wake"
  shows "tracker_inv regs log (s\<lparr>tr_slots := (tr_slots s)(a := p), tr_wake := tr_wake s \<or> wake\<rparr>)" (is "tracker_inv _ _ ?s")
proof -
  have "send_ok ?s log i b kind" if reg: "regs i = Some (b, kind)" for i b kind
  proof (cases "b = a")
    case True
    note ok = tracker_invD(6) [OF inv reg] and step = slot_step_complete [OF p tracker_invD(2) [OF inv]]
    show ?thesis
    proof (cases "fm_get (tr_entries s) i")
      case None
      then show ?thesis using ok step True by (simp add: send_ok_def)
    next
      case (Some e)
      then have "entry_ok p e" "p \<noteq> tr_slots s a \<Longrightarrow> wake"
        using ok p True by (auto simp: send_ok_def slot_step_def entry_ok_def)
      with Some ok True show ?thesis by (cases "p = tr_slots s a") (auto simp: send_ok_def)
    qed
  next
    case False
    then show ?thesis using tracker_invD(6) [OF inv reg] by (auto simp: send_ok_def split: option.splits)
  qed
  moreover have "slot_ok p" using p by (simp add: slot_step_def)
  ultimately show ?thesis using inv by (simp add: tracker_inv_def)
qed

lemma register_inv:
  assumes inv: "tracker_inv regs log s" and fresh: "regs i = None" "\<forall>j k. regs j \<noteq> Some (a, k)"
  shows "tracker_inv (regs(i \<mapsto> (a, kind))) log (snd (tracker_exec (RegisterSend i a d kind) s))" (is "tracker_inv ?regs _ ?s")
proof -
  note fm = tracker_invD(1) [OF inv]
  have s: "tr_entries ?s = snd (fm_insert (tr_entries s) i \<lparr>handle_slot = a, handle_id = d, confirm_kind = kind, emitted_send_confirm = False\<rparr>)"
      "tr_slots ?s = (tr_slots s)(a := tr_slots s a\<lparr>completion_wake := True\<rparr>)" "tr_wake ?s"
    by (simp_all add: tracker_insert_def)
  have "send_ok ?s log j b k" if reg: "?regs j = Some (b, k)" for j b k
  proof (cases "j = i")
    case True
    then show ?thesis using reg s fm tracker_invD(5) [OF inv fresh(1)]
      by (auto simp: send_ok_def entry_ok_def given_def fm.get_insert)
  next
    case False
    then have old: "regs j = Some (b, k)" "b \<noteq> a" using reg fresh(2) by auto
    from tracker_invD(6) [OF inv old(1)] s fm False old(2) show ?thesis
      by (auto simp: send_ok_def fm.get_insert split: option.splits)
  qed
  moreover have "slot_ok (tr_slots ?s b)" for b using tracker_invD(2) [OF inv] unfolding s slot_ok_def by simp
  moreover have "?regs j = Some (b, k) \<Longrightarrow> ?regs j' = Some (b, k') \<Longrightarrow> j = j'" for j j' b k k'
    using tracker_invD(3) [OF inv] fresh(2) by (auto split: if_splits)
  moreover have "?regs j = None \<Longrightarrow> fm_get (tr_entries ?s) j = None \<and> confirms_for j log = []" for j
    using tracker_invD(4,5) [OF inv, of j] fm unfolding s by (auto simp: fm.get_insert split: if_splits)
  moreover have "fm_inv (tr_entries ?s)" using fm unfolding s by (simp add: fm.inv_insert)
  ultimately show ?thesis unfolding tracker_inv_def by blast
qed

lemma tracker_reach_inv: "tracker_reach regs log s \<Longrightarrow> tracker_inv regs log s"
proof (induction rule: tracker_reach.induct)
  case start
  then show ?case by (simp add: tracker_inv_def transport_init_def slot_ok_def slot_default_def tbl)
next
  case (step regs log s op out s')
  note inv = step.IH
  show ?case
  proof (cases op)
    case (SlotHandedOff a)
    then show ?thesis
      using slot_step_inv [OF inv slot_steps(1) [OF tracker_invD(2) [OF inv]]] step.hyps(3) by (auto simp: split_beta)
  next
    case (SlotSettled a v)
    then show ?thesis using slot_step_inv [OF inv slot_steps(2)] step.hyps(2,3) by (auto simp: split_beta)
  next
    case (RegisterSend i a d kind)
    then have "s' = snd (tracker_exec op s)" "out = []" "regs i = None" "\<forall>j k. regs j \<noteq> Some (a, k)"
      using step.hyps(2,3) by (auto simp: split_beta)
    then show ?thesis using register_inv [OF inv, of i a kind d] RegisterSend by (simp add: fun_upd_def del: tracker_exec.simps)
  next
    case RunSweep
    let ?r = "sweep (tr_slots s) (tr_entries s)"
    have s': "s' = s\<lparr>tr_entries := snd ?r, tr_wake := False\<rparr>" "out = fst ?r"
      using step.hyps(3) RunSweep by (auto simp: split_beta)
    note f = sweep_facts(1) [OF tracker_invD(1) [OF inv] tracked_ok [OF inv]]
    have "regs i = None \<Longrightarrow> fm_get (snd ?r) i = None \<and> confirms_for i (log @ fst ?r) = []" for i
      using sweep_facts(2,3) [where i = i, OF tracker_invD(1) [OF inv] tracked_ok [OF inv]] tracker_invD(4,5) [OF inv, of i]
      by simp
    with sweep_send_ok [OF inv] f inv show ?thesis by (simp add: RunSweep s' tracker_inv_def)
  qed
qed

section \<open>Properties\<close>


text \<open>A send that waits for its end-to-end acknowledgement is registered, handed off, swept, and then times out.\<close>

definition sample_slot :: "(nat, nat) DeliveryError verdict option \<Rightarrow> (nat, nat) DeliveryError verdict option \<Rightarrow> (nat, nat) slots" where
  "sample_slot h d = (\<lambda>_. slot_default)(0 := \<lparr>handed_off = h, delivered = d, completion_wake = True\<rparr>)"

definition sample_entry :: "bool \<Rightarrow> TrackedSend" where
  "sample_entry emitted = \<lparr>handle_slot = 0, handle_id = 1, confirm_kind = UnicastApsAck, emitted_send_confirm = emitted\<rparr>"

lemma index_of_small: "index_of [] j = Inl 0" "index_of [(k, v)] k = Inr 0"
  by (simp_all add: index_of_def bsearch_base.simps)

lemma sample_slot_simps [simp]:
  "sample_slot h d 0 = \<lparr>handed_off = h, delivered = d, completion_wake = True\<rparr>"
  "(sample_slot h d)(0 := \<lparr>handed_off = h', delivered = d', completion_wake = True\<rparr>) = sample_slot h' d'"
  by (simp_all add: sample_slot_def)

lemma sample_steps:
  "tracker_exec (RegisterSend 9 0 1 UnicastApsAck) transport_init =
     ([], \<lparr>tr_slots = sample_slot None None, tr_entries = [(9, sample_entry False)], tr_wake = True\<rparr>)"
  "tracker_exec (SlotHandedOff 0) \<lparr>tr_slots = sample_slot None None, tr_entries = [(9, sample_entry False)], tr_wake = True\<rparr> =
     ([], \<lparr>tr_slots = sample_slot (Some (Inr ())) None, tr_entries = [(9, sample_entry False)], tr_wake = True\<rparr>)"
  "tracker_exec RunSweep \<lparr>tr_slots = sample_slot (Some (Inr ())) None, tr_entries = [(9, sample_entry False)], tr_wake = True\<rparr> =
     ([SendConfirm 9 StSuccess], \<lparr>tr_slots = sample_slot (Some (Inr ())) None, tr_entries = [(9, sample_entry True)], tr_wake = False\<rparr>)"
  "tracker_exec (SlotSettled 0 (Inl DApsAckTimeout))
       \<lparr>tr_slots = sample_slot (Some (Inr ())) None, tr_entries = [(9, sample_entry True)], tr_wake = False\<rparr> =
     ([], \<lparr>tr_slots = sample_slot (Some (Inr ())) (Some (Inl DApsAckTimeout)), tr_entries = [(9, sample_entry True)], tr_wake = True\<rparr>)"
  "tracker_exec RunSweep \<lparr>tr_slots = sample_slot (Some (Inr ())) (Some (Inl DApsAckTimeout)), tr_entries = [(9, sample_entry True)], tr_wake = True\<rparr> =
     ([ApsAckConfirm 9 StApsAckTimeout], \<lparr>tr_slots = sample_slot (Some (Inr ())) (Some (Inl DApsAckTimeout)), tr_entries = [], tr_wake = False\<rparr>)"
  subgoal
    by (simp add: transport_init_def tracker_insert_def fm_insert_def fm_new_def index_of_small sample_entry_def
        sample_slot_def slot_default_def)
  subgoal by (simp add: slot_handed_off_def)
  subgoal by (simp add: sweep_def sweep_entry_def sweep_delivered_def slot_status_def sample_entry_def)
  subgoal by (simp add: slot_settled_def)
  subgoal
    by (simp add: sweep_def sweep_entry_def sweep_delivered_def slot_status_def sample_entry_def fm_remove_def index_of_small)
  done

lemma tracker_sample_reach:
  "tracker_reach [9 \<mapsto> (0, UnicastApsAck)] [SendConfirm 9 StSuccess, ApsAckConfirm 9 StApsAckTimeout]
     \<lparr>tr_slots = sample_slot (Some (Inr ())) (Some (Inl DApsAckTimeout)), tr_entries = [], tr_wake = False\<rparr>"
proof -
  note r1 = tracker_reach.step [OF tracker_reach.start _ sample_steps(1), simplified]
  note r2 = tracker_reach.step [OF r1 _ sample_steps(2), simplified]
  note r3 = tracker_reach.step [OF r2 _ sample_steps(3), simplified]
  note r4 = tracker_reach.step [OF r3 _ sample_steps(4), simplified]
  show ?thesis using tracker_reach.step [OF r4 _ sample_steps(5)] by simp
qed


end
