(* ===== verification/Spinel.thy ===== *)
theory Spinel
  imports Prelude
begin

unbundle bit_operations_syntax

text \<open>
  The Spinel serial codec (\<^verbatim>\<open>ziggurat-spinel/src/lib.rs\<close>): packed integers, HDLC-lite framing, the frame
  header. The checksum is computed by the \<^verbatim>\<open>crc_all\<close> crate: the state of the CRC after \<^verbatim>\<open>init_crc\<close> and
  \<^verbatim>\<open>update_crc\<close> on some bytes is the argument \<open>kermit\<close>. The value of \<^verbatim>\<open>finish_crc\<close> is dropped by the source.
  Enumerations are represented by their discriminants, with the list of the valid ones.
\<close>

section \<open>Packed integers\<close>

definition U21_MAX :: u32 where "U21_MAX = push_bit 21 1"

datatype SpinelFrameParsingError =
    FramePayloadTooShort nat nat | NotSpinelFrame u8 | PackedU21DidNotTerminate | InvalidPropertyId u32 | InvalidCommandId u8

fun packed_uint21_loop :: "nat \<Rightarrow> u32 \<Rightarrow> u8 list \<Rightarrow> SpinelFrameParsingError + u32 \<times> u8 list" where
  "packed_uint21_loop index result [] = Inl PackedU21DidNotTerminate"
| "packed_uint21_loop index result (byte # bytes) =
     (let result = result OR push_bit (7 * index) (ucast (byte AND 0b01111111)) in
      if byte AND 0b10000000 = 0 then Inr (result, bytes)
      else if 2 \<le> index then Inl PackedU21DidNotTerminate
      else packed_uint21_loop (index + 1) result bytes)"

definition packed_uint21_deserialize :: "u8 list \<Rightarrow> SpinelFrameParsingError + u32 \<times> u8 list" where
  "packed_uint21_deserialize bytes = packed_uint21_loop 0 0 bytes"

function packed_uint21_chunks :: "u32 \<Rightarrow> u8 list" where
  "packed_uint21_chunks temp =
     (if 0 < temp then ((ucast temp AND 0b01111111) OR 0b10000000) # packed_uint21_chunks (drop_bit 7 temp) else [])"
  by pat_completeness auto

lemma unat_drop_bit_7: "unat (drop_bit 7 v) = unat v div 2 ^ 7" for v :: u32
  by (simp add: drop_bit_eq_div unat_div)

lemma drop_bit_less: "0 < v \<Longrightarrow> unat (drop_bit 7 v) < unat v" for v :: u32
  unfolding unat_drop_bit_7 word_less_nat_alt by (intro div_less_dividend) simp_all

termination packed_uint21_chunks
  by (relation "measure unat") (simp_all add: drop_bit_less)

declare packed_uint21_chunks.simps [simp del]

definition packed_uint21_to_bytes :: "u32 \<Rightarrow> u8 list run" where
  "packed_uint21_to_bytes value =
     (if value = 0 then Ret [0]
      else if U21_MAX < value then Panic
      else
        (let chunks = packed_uint21_chunks value
         in Ret (chunks[length chunks - 1 := chunks ! (length chunks - 1) AND 0b01111111])))"

section \<open>HDLC-lite frames\<close>

abbreviation "HdlcFlag \<equiv> 0x7E :: u8"
abbreviation "HdlcEscape \<equiv> 0x7D :: u8"
abbreviation "HdlcXon \<equiv> 0x11 :: u8"
abbreviation "HdlcXoff \<equiv> 0x13 :: u8"
abbreviation "HdlcVendor \<equiv> 0xF8 :: u8"

definition hdlc_special :: "u8 \<Rightarrow> bool" where
  "hdlc_special byte \<longleftrightarrow>
     byte = HdlcFlag \<or> byte = HdlcEscape \<or> byte = HdlcXon \<or> byte = HdlcXoff \<or> byte = HdlcVendor"

datatype HdlcLiteFrameParsingError =
    BadEscapeByte u8 | InvalidCrc u16 u16 | FrameTooShort nat nat | HdlcPayloadTooShort nat nat

fun hdlc_unescape_loop :: "bool \<Rightarrow> u8 list \<Rightarrow> u8 list \<Rightarrow> HdlcLiteFrameParsingError + u8 list" where
  "hdlc_unescape_loop unescaping data [] = Inr data"
| "hdlc_unescape_loop unescaping data (byte # bytes) =
     (if unescaping then
        (let result_byte = byte XOR 0x20 in
         if \<not> hdlc_special result_byte then Inl (BadEscapeByte result_byte)
         else hdlc_unescape_loop False (data @ [result_byte]) bytes)
      else if byte = HdlcEscape then hdlc_unescape_loop True data bytes
      else if byte = HdlcFlag then hdlc_unescape_loop False data bytes
      else hdlc_unescape_loop False (data @ [byte]) bytes)"

definition hdlc_crc :: "(u8 list \<Rightarrow> u16) \<Rightarrow> u8 list \<Rightarrow> u16" where
  "hdlc_crc kermit data = kermit data XOR 0xFFFF"

definition u16_from_le_bytes :: "u8 \<Rightarrow> u8 \<Rightarrow> u16" where
  "u16_from_le_bytes lo hi = ucast lo OR push_bit 8 (ucast hi)"

definition u16_to_le_bytes :: "u16 \<Rightarrow> u8 list" where
  "u16_to_le_bytes w = [ucast w, ucast (drop_bit 8 w)]"

definition hdlc_unescape_into :: "(u8 list \<Rightarrow> u16) \<Rightarrow> u8 list \<Rightarrow> HdlcLiteFrameParsingError + u8 list" where
  "hdlc_unescape_into kermit bytes =
     (if length bytes < 2 then Inl (FrameTooShort 2 (length bytes))
      else
        (case hdlc_unescape_loop False [] bytes of
           Inl err \<Rightarrow> Inl err
         | Inr data \<Rightarrow>
             if length data < 2 then Inl (HdlcPayloadTooShort 2 (length data))
             else
               (let crc = hdlc_crc kermit (take (length data - 2) data);
                    expected_crc = u16_from_le_bytes (data ! (length data - 2)) (data ! (length data - 1))
                in if crc \<noteq> expected_crc then Inl (InvalidCrc expected_crc crc)
                   else Inr (take (length data - 2) data))))"

definition escape_byte :: "u8 \<Rightarrow> u8 list" where
  "escape_byte byte = (if hdlc_special byte then [HdlcEscape, byte XOR 0x20] else [byte])"

definition hdlc_escape_into :: "(u8 list \<Rightarrow> u16) \<Rightarrow> u8 list \<Rightarrow> u8 list" where
  "hdlc_escape_into kermit data = concat (map escape_byte (data @ u16_to_le_bytes (hdlc_crc kermit data)))"

definition hdlc_to_bytes_with_flags :: "(u8 list \<Rightarrow> u16) \<Rightarrow> u8 list \<Rightarrow> u8 list" where
  "hdlc_to_bytes_with_flags kermit data = [HdlcFlag] @ hdlc_escape_into kermit data @ [HdlcFlag]"

section \<open>Spinel frames\<close>

type_synonym SpinelCommandId = u8
type_synonym SpinelPropertyId = u32
type_synonym SpinelStatus = u8

definition spinel_command_ids :: "SpinelCommandId list" where
  "spinel_command_ids =
     [0, 1, 2, 3, 4, 5, 6, 7, 8, 18, 19, 20, 21, 22, 23, 9, 10, 11, 12, 13, 14, 15, 16, 17]"

definition spinel_property_ids :: "SpinelPropertyId list" where
  "spinel_property_ids =
     [0, 1, 2, 3, 4, 5, 6, 7, 8, 9, 10, 11, 112, 113, 114, 32, 33, 34, 35, 36, 37, 38, 39,
      48, 49, 50, 51, 52, 53, 54, 55, 56, 57, 58, 59, 60, 4864, 4865, 4867, 4868, 4869,
      64, 65, 66, 67, 68, 69, 70, 71, 72, 73, 74, 75, 96, 97, 98, 99, 101, 16384, 16385,
      80, 81, 82, 83, 84, 85, 86, 87, 88, 89, 90, 91, 92, 93, 94,
      5376, 5377, 5378, 5379, 5380, 5381, 5382, 5383, 5384, 5385, 5386, 5387, 5388, 5389, 5390, 5391, 5392,
      5393, 5394, 5395, 5396, 5397, 5398, 4608, 4609, 4610, 4611, 4612, 4613, 4096, 4098, 4099, 4100,
      4101, 4102, 4103, 0x3BC0]"

definition spinel_statuses :: "SpinelStatus list" where
  "spinel_statuses =
     [0, 1, 2, 3, 4, 5, 6, 7, 8, 9, 10, 11, 12, 13, 14, 15, 16, 17, 18, 19, 20, 21, 22, 23, 24,
      112, 113, 114, 115, 116, 117, 118, 119, 120]"

abbreviation "PropValueIs \<equiv> 6 :: SpinelCommandId"
abbreviation "LastStatus \<equiv> 0 :: SpinelPropertyId"
abbreviation "ResetPowerOn \<equiv> 112 :: SpinelStatus"

definition is_reset :: "SpinelStatus \<Rightarrow> bool" where
  "is_reset status \<longleftrightarrow> ResetPowerOn \<le> status"

record SpinelHeader =
  flag :: u8
  network_link_id :: u8
  transaction_id :: u8

definition spinel_header_from_bytes :: "u8 list \<Rightarrow> SpinelFrameParsingError + SpinelHeader" where
  "spinel_header_from_bytes bytes =
     (case bytes of
        [] \<Rightarrow> Inl (FramePayloadTooShort 1 (length bytes))
      | byte # _ \<Rightarrow> Inr \<lparr>flag = drop_bit 6 (byte AND 0b11000000), network_link_id = drop_bit 4 (byte AND 0b00110000),
                        transaction_id = byte AND 0b00001111\<rparr>)"

definition spinel_header_to_bytes :: "SpinelHeader \<Rightarrow> u8 list" where
  "spinel_header_to_bytes h = [push_bit 6 (flag h) OR push_bit 4 (network_link_id h) OR transaction_id h]"

record SpinelFrame =
  sf_header :: SpinelHeader
  command_id :: SpinelCommandId
  sf_payload :: "u8 list"

definition parse_spinel_parts ::
  "u8 list \<Rightarrow> SpinelFrameParsingError + SpinelHeader \<times> SpinelCommandId \<times> u8 list" where
  "parse_spinel_parts bytes =
     (if length bytes < 3 then Inl (FramePayloadTooShort 3 (length bytes))
      else
        (case spinel_header_from_bytes (take 1 bytes) of
           Inl err \<Rightarrow> Inl err
         | Inr header \<Rightarrow>
             if flag header \<noteq> 0b10 then Inl (NotSpinelFrame (flag header))
             else if bytes ! 1 \<notin> set spinel_command_ids then Inl (InvalidCommandId (bytes ! 1))
             else Inr (header, bytes ! 1, drop 2 bytes)))"

definition spinel_frame_from_bytes :: "u8 list \<Rightarrow> SpinelFrameParsingError + SpinelFrame" where
  "spinel_frame_from_bytes bytes =
     map_sum id (\<lambda>(h, c, p). \<lparr>sf_header = h, command_id = c, sf_payload = p\<rparr>) (parse_spinel_parts bytes)"

definition spinel_frame_to_bytes :: "SpinelFrame \<Rightarrow> u8 list" where
  "spinel_frame_to_bytes f = spinel_header_to_bytes (sf_header f) @ [command_id f] @ sf_payload f"

record SpinelFramePropValueIs =
  property_id :: SpinelPropertyId
  prop_value :: "u8 list"

definition prop_value_is_from_bytes :: "u8 list \<Rightarrow> SpinelFrameParsingError + SpinelFramePropValueIs" where
  "prop_value_is_from_bytes bytes =
     (case packed_uint21_deserialize bytes of
        Inl err \<Rightarrow> Inl err
      | Inr (p, remaining) \<Rightarrow>
          if p \<notin> set spinel_property_ids then Inl (InvalidPropertyId p)
          else Inr \<lparr>property_id = p, prop_value = remaining\<rparr>)"

definition prop_value_is_to_bytes :: "SpinelFramePropValueIs \<Rightarrow> u8 list run" where
  "prop_value_is_to_bytes f = run_bind (packed_uint21_to_bytes (property_id f)) (\<lambda>bs. Ret (bs @ prop_value f))"

section \<open>Packed integers parse back\<close>

text \<open>The chunks with the continuation bit of the last one cleared.\<close>

definition closed_chunks :: "u32 \<Rightarrow> u8 list" where
  "closed_chunks v = (let chunks = packed_uint21_chunks v in
     chunks[length chunks - 1 := chunks ! (length chunks - 1) AND 0b01111111])"

lemma chunk_masks: "bit (0b01111111 :: int) n \<longleftrightarrow> n < 7" "bit (0b10000000 :: int) n \<longleftrightarrow> n = 7"
proof -
  have eq: "(0b01111111 :: int) = mask 7" "(0b10000000 :: int) = push_bit 7 1"
    by (simp_all add: mask_eq_exp_minus_1)
  show "bit (0b01111111 :: int) n \<longleftrightarrow> n < 7" unfolding eq by (simp add: bit_mask_iff)
  show "bit (0b10000000 :: int) n \<longleftrightarrow> n = 7" unfolding eq bit_push_bit_iff bit_1_iff by auto
qed

lemma chunk_bits:
  "((ucast v AND 0b01111111) OR 0b10000000 :: u8) AND 0b01111111 = ucast v AND 0b01111111"
  "((ucast v AND 0b01111111) OR 0b10000000 :: u8) AND 0b10000000 = 0b10000000"
  "(ucast v AND 0b01111111 :: u8) AND 0b10000000 = 0" for v :: u32
  by (auto intro!: bit_word_eqI simp: bit_simps chunk_masks)

lemma low_chunk: "ucast (ucast v AND 0b01111111 :: u8) = take_bit 7 v" for v :: u32
  by (auto intro!: bit_word_eqI simp: bit_simps chunk_masks)

lemma glue_chunks: "push_bit (7 * i) (take_bit 7 v) OR push_bit (7 * Suc i) (drop_bit 7 v) = push_bit (7 * i) v" for v :: u32
proof -
  have "v = take_bit 7 v OR push_bit 7 (drop_bit 7 v)" by (auto intro!: bit_word_eqI simp: bit_simps)
  then have "push_bit (7 * i) v = push_bit (7 * i) (take_bit 7 v) OR push_bit (7 * i) (push_bit 7 (drop_bit 7 v))"
    by (metis push_bit_or)
  then show ?thesis by (simp add: add.commute)
qed

lemma closed_chunks_rec:
  assumes "0 < v"
  shows "closed_chunks v = (if drop_bit 7 v = 0 then [ucast v AND 0b01111111]
    else ((ucast v AND 0b01111111) OR 0b10000000) # closed_chunks (drop_bit 7 v))"
proof (cases "drop_bit 7 v = 0")
  case True
  then show ?thesis
    using assms by (simp add: closed_chunks_def packed_uint21_chunks.simps [of v] packed_uint21_chunks.simps [of 0] chunk_bits Let_def)
next
  case False
  then have "packed_uint21_chunks (drop_bit 7 v) \<noteq> []"
    by (simp add: packed_uint21_chunks.simps [of "drop_bit 7 v"] word_gt_0)
  then show ?thesis
    using assms False by (cases "packed_uint21_chunks (drop_bit 7 v)")
      (simp_all add: closed_chunks_def packed_uint21_chunks.simps [of v] Let_def)
qed

lemma closed_chunks_parse:
  assumes "0 < v" "i \<le> 2" "unat v < 2 ^ (7 * (3 - i))"
  shows "packed_uint21_loop i r (closed_chunks v @ rest) = Inr (r OR push_bit (7 * i) v, rest)"
  using assms
proof (induction v arbitrary: i r rule: packed_uint21_chunks.induct)
  case (1 v)
  show ?case
  proof (cases "drop_bit 7 v = 0")
    case True
    then have "take_bit 7 v = v" using glue_chunks [of 0 v] by simp
    then show ?thesis using True 1(2) by (simp add: closed_chunks_rec chunk_bits low_chunk Let_def)
  next
    case False
    then have "0 < unat (drop_bit 7 v)" by (simp add: unat_gt_0)
    then have "2 ^ 7 \<le> unat v" unfolding unat_drop_bit_7 by (simp add: div_greater_zero_iff)
    with 1(3,4) have i: "Suc i \<le> 2" by (cases "i = 2") simp_all
    have less: "unat (drop_bit 7 v) < 2 ^ (7 * (3 - Suc i))"
    proof -
      have "7 * (3 - i) = 7 * (3 - Suc i) + 7" using i by simp
      then show ?thesis using 1(4) unfolding unat_drop_bit_7 by (simp add: div_less_iff_less_mult power_add)
    qed
    have pos: "0 < drop_bit 7 v" using False by (simp add: word_gt_0)
    have "packed_uint21_loop i r (closed_chunks v @ rest) =
        packed_uint21_loop (Suc i) (r OR push_bit (7 * i) (take_bit 7 v)) (closed_chunks (drop_bit 7 v) @ rest)"
      using 1(2) i False by (simp add: closed_chunks_rec chunk_bits low_chunk Let_def)
    also have "\<dots> = Inr ((r OR push_bit (7 * i) (take_bit 7 v)) OR push_bit (7 * Suc i) (drop_bit 7 v), rest)"
      by (rule 1(1) [OF 1(2) pos i less])
    finally show ?thesis unfolding or.assoc glue_chunks .
  qed
qed

lemma chunks_length: "unat v < 2 ^ (7 * n) \<Longrightarrow> length (packed_uint21_chunks v) \<le> n"
proof (induction n arbitrary: v)
  case 0
  then have "v = 0" by (simp add: unsigned_eq_0_iff)
  then show ?case by (simp add: packed_uint21_chunks.simps [of 0])
next
  case (Suc n)
  have "unat (drop_bit 7 v) < 2 ^ (7 * n)"
    using Suc.prems unfolding unat_drop_bit_7 by (simp add: div_less_iff_less_mult power_add)
  from Suc.IH [OF this] show ?case by (simp add: packed_uint21_chunks.simps [of v])
qed

lemma U21_MAX_eq: "U21_MAX = 0x200000"
  by (simp add: U21_MAX_def push_bit_eq_mult)

text \<open>
  A packed integer below \<open>2 ^ 21\<close> is written without a panic in one to three bytes, and read back from them whatever
  follows.
\<close>

theorem packed_uint21_roundtrip:
  assumes "v < 0x200000"
  shows "\<exists>bs. packed_uint21_to_bytes v = Ret bs \<and> 1 \<le> length bs \<and> length bs \<le> 3 \<and>
    packed_uint21_deserialize (bs @ rest) = Inr (v, rest)"
proof (cases "v = 0")
  case True
  then show ?thesis by (simp add: packed_uint21_to_bytes_def packed_uint21_deserialize_def)
next
  case False
  then have pos: "0 < v" by (simp add: word_gt_0)
  have small: "unat v < 2 ^ 21" using assms by (simp add: word_less_nat_alt)
  have bytes: "packed_uint21_to_bytes v = Ret (closed_chunks v)"
    using False assms by (auto simp: packed_uint21_to_bytes_def closed_chunks_def U21_MAX_eq Let_def)
  have parse: "packed_uint21_deserialize (closed_chunks v @ rest) = Inr (v, rest)"
    using closed_chunks_parse [OF pos, of 0 0 rest] small by (simp add: packed_uint21_deserialize_def)
  have "length (closed_chunks v) = length (packed_uint21_chunks v)" by (simp add: closed_chunks_def Let_def)
  moreover have "length (packed_uint21_chunks v) \<le> 3"
    using chunks_length [of v 3] small by simp
  moreover have "packed_uint21_chunks v \<noteq> []" using pos by (simp add: packed_uint21_chunks.simps [of v])
  ultimately show ?thesis using bytes parse by (cases "closed_chunks v") auto
qed

theorem packed_uint21_roundtrip_witness:
  "\<exists>bs. packed_uint21_to_bytes 0x1FD7FC = Ret bs \<and> 1 \<le> length bs \<and> length bs \<le> 3 \<and>
    packed_uint21_deserialize (bs @ [0xAB, 0xCD]) = Inr (0x1FD7FC, [0xAB, 0xCD])"
  by (rule packed_uint21_roundtrip) simp


section \<open>HDLC-lite frames parse back\<close>

lemma unescape_escaped:
  "hdlc_unescape_loop False data (concat (map escape_byte xs) @ rest) = hdlc_unescape_loop False (data @ xs) rest"
proof (induction xs arbitrary: data)
  case (Cons x xs)
  have "(x XOR 0x20) XOR 0x20 = x" by (simp add: xor.assoc)
  with Cons show ?case by (auto simp: escape_byte_def hdlc_special_def Let_def)
qed simp

lemma escaped_no_flag: "HdlcFlag \<notin> set (concat (map escape_byte xs))"
  by (induction xs) (auto simp: escape_byte_def hdlc_special_def)

lemma escaped_length: "length xs \<le> length (concat (map escape_byte xs))" "length (concat (map escape_byte xs)) \<le> 2 * length xs"
  by (induction xs) (auto simp: escape_byte_def)

lemma u16_le_roundtrip: "u16_from_le_bytes (ucast w) (ucast (drop_bit 8 w)) = w"
  by (auto intro!: bit_word_eqI simp: u16_from_le_bytes_def bit_simps)

lemma hdlc_escape_facts:
  "HdlcFlag \<notin> set (hdlc_escape_into kermit data)"
  "2 \<le> length (hdlc_escape_into kermit data)"
  "length (hdlc_escape_into kermit data) \<le> 2 * length data + 4"
proof -
  let ?data = "data @ u16_to_le_bytes (hdlc_crc kermit data)"
  show "HdlcFlag \<notin> set (hdlc_escape_into kermit data)" unfolding hdlc_escape_into_def by (rule escaped_no_flag)
  have "length ?data = length data + 2" by (simp add: u16_to_le_bytes_def)
  with escaped_length [of ?data]
  show "2 \<le> length (hdlc_escape_into kermit data)" "length (hdlc_escape_into kermit data) \<le> 2 * length data + 4"
    unfolding hdlc_escape_into_def by linarith+
qed

lemma hdlc_unescape_escape: "hdlc_unescape_into kermit (hdlc_escape_into kermit data) = Inr data"
proof -
  let ?crc = "hdlc_crc kermit data" and ?data = "data @ u16_to_le_bytes (hdlc_crc kermit data)"
  have loop: "hdlc_unescape_loop False [] (hdlc_escape_into kermit data) = Inr ?data"
    using unescape_escaped [of "[]" ?data "[]"] by (simp add: hdlc_escape_into_def)
  have len: "\<not> length (hdlc_escape_into kermit data) < 2" using hdlc_escape_facts(2) [of kermit data] by simp
  show ?thesis
    using len by (simp add: hdlc_unescape_into_def loop u16_to_le_bytes_def u16_le_roundtrip Let_def nth_append)
qed

section \<open>Frames parse back\<close>

definition spinel_frame_ok :: "SpinelFrame \<Rightarrow> bool" where
  "spinel_frame_ok f \<longleftrightarrow> flag (sf_header f) = 0b10 \<and> network_link_id (sf_header f) < 4 \<and> transaction_id (sf_header f) < 16 \<and>
     command_id f \<in> set spinel_command_ids \<and> sf_payload f \<noteq> []"

lemma header_masks:
  "bit (0b11000000 :: int) n \<longleftrightarrow> n = 6 \<or> n = 7" "bit (0b00110000 :: int) n \<longleftrightarrow> n = 4 \<or> n = 5"
  "bit (0b00001111 :: int) n \<longleftrightarrow> n < 4" "bit (0b00000011 :: int) n \<longleftrightarrow> n < 2"
proof -
  have eq: "(0b11000000 :: int) = push_bit 6 (mask 2)" "(0b00110000 :: int) = push_bit 4 (mask 2)" "(0b00001111 :: int) = mask 4"
      "(0b00000011 :: int) = mask 2"
    by (simp_all add: mask_eq_exp_minus_1 push_bit_eq_mult)
  show "bit (0b11000000 :: int) n \<longleftrightarrow> n = 6 \<or> n = 7" "bit (0b00110000 :: int) n \<longleftrightarrow> n = 4 \<or> n = 5"
    "bit (0b00001111 :: int) n \<longleftrightarrow> n < 4" "bit (0b00000011 :: int) n \<longleftrightarrow> n < 2"
    unfolding eq bit_push_bit_iff bit_mask_iff by auto
qed

lemma small_bits: "unat w < 2 ^ k \<Longrightarrow> bit w n \<Longrightarrow> n < k" for w :: u8
proof -
  assume "unat w < 2 ^ k" "bit w n"
  then have "take_bit k (unat w) = unat w" by (intro take_bit_nat_eq_self)
  moreover have "bit (unat w) n" using \<open>bit w n\<close> by (simp add: bit_unsigned_iff bit_imp_le_length)
  ultimately show "n < k" by (metis bit_take_bit_iff)
qed

lemma spinel_header_roundtrip:
  assumes "flag h < 4" "network_link_id h < 4" "transaction_id h < 16"
  shows "spinel_header_from_bytes (spinel_header_to_bytes h) = Inr h"
proof -
  have f: "bit (flag h) n \<Longrightarrow> n < 2" and l: "bit (network_link_id h) n \<Longrightarrow> n < 2" and t: "bit (transaction_id h) n \<Longrightarrow> n < 4" for n
    using assms small_bits [of "flag h" 2] small_bits [of "network_link_id h" 2] small_bits [of "transaction_id h" 4]
    by (auto simp: word_less_nat_alt)
  let ?b = "push_bit 6 (flag h) OR push_bit 4 (network_link_id h) OR transaction_id h"
  have "drop_bit 6 (?b AND 0b11000000) = flag h" "drop_bit 4 (?b AND 0b00110000) = network_link_id h" "?b AND 0b00001111 = transaction_id h"
    by (auto intro!: bit_word_eqI simp: bit_simps header_masks dest: f l t) (fastforce dest: f l t)+
  then show ?thesis by (simp add: spinel_header_from_bytes_def spinel_header_to_bytes_def)
qed

lemma spinel_frame_roundtrip:
  assumes "spinel_frame_ok f"
  shows "spinel_frame_from_bytes (spinel_frame_to_bytes f) = Inr f"
proof -
  have "spinel_header_from_bytes (spinel_header_to_bytes (sf_header f)) = Inr (sf_header f)"
    using assms by (intro spinel_header_roundtrip) (simp_all add: spinel_frame_ok_def)
  moreover have "length (spinel_header_to_bytes (sf_header f)) = 1" by (simp add: spinel_header_to_bytes_def)
  moreover have "2 < length (spinel_frame_to_bytes f)"
    using assms by (cases "sf_payload f") (simp_all add: spinel_frame_ok_def spinel_frame_to_bytes_def spinel_header_to_bytes_def)
  ultimately show ?thesis
    using assms
    by (simp add: spinel_frame_from_bytes_def parse_spinel_parts_def spinel_frame_to_bytes_def spinel_frame_ok_def nth_append)
qed

end
