(* ===== verification/Spinel_Protocol.thy ===== *)
theory Spinel_Protocol
  imports Spinel
begin

text \<open>
  The Spinel link (\<^verbatim>\<open>SpinelProtocol\<close> of \<^verbatim>\<open>ziggurat-spinel/src/lib.rs\<close>): reassembly of HDLC frames from the
  serial stream, transaction identifiers, and the routing of inbound frames to the channel that waits for them.
  Senders of channels are values of a type \<open>'c\<close>; what is offered to a channel is returned as a delivery.
\<close>

section \<open>Model\<close>

definition MAX_HDLC_BUFFER_SIZE :: nat where "MAX_HDLC_BUFFER_SIZE = 4096"

record 'c SpinelProtocol =
  sp_buffer :: "u8 list"
  ignoring_until_next_flag :: bool
  next_tid :: u8
  pending_frames :: "u8 \<rightharpoonup> 'c"
  unsolicited_frame_receiver :: "'c option"
  property_update_receivers :: "SpinelPropertyId \<rightharpoonup> 'c"
  reset_notification_receiver :: "'c option"

definition spinel_protocol_new :: "'c SpinelProtocol" where
  "spinel_protocol_new =
     \<lparr>sp_buffer = [], ignoring_until_next_flag = True, next_tid = 1, pending_frames = Map.empty,
      unsolicited_frame_receiver = None, property_update_receivers = Map.empty, reset_notification_receiver = None\<rparr>"

definition set_unsolicited_frame_receiver :: "'c SpinelProtocol \<Rightarrow> 'c \<Rightarrow> 'c SpinelProtocol" where
  "set_unsolicited_frame_receiver p tx = p\<lparr>unsolicited_frame_receiver := Some tx\<rparr>"

definition set_property_update_receiver :: "'c SpinelProtocol \<Rightarrow> SpinelPropertyId \<Rightarrow> 'c \<Rightarrow> 'c SpinelProtocol" where
  "set_property_update_receiver p i tx = p\<lparr>property_update_receivers := (property_update_receivers p)(i \<mapsto> tx)\<rparr>"

definition set_reset_notification_receiver :: "'c SpinelProtocol \<Rightarrow> 'c \<Rightarrow> 'c SpinelProtocol" where
  "set_reset_notification_receiver p tx = p\<lparr>reset_notification_receiver := Some tx\<rparr>"

datatype 'c delivery =
    ToPending 'c SpinelFrame | ToProperty 'c SpinelFramePropValueIs | ToReset 'c SpinelStatus

definition fail_all_pending_requests :: "'c SpinelProtocol \<Rightarrow> 'c SpinelProtocol" where
  "fail_all_pending_requests p = p\<lparr>pending_frames := Map.empty\<rparr>"

definition notify_reset :: "'c SpinelProtocol \<Rightarrow> SpinelStatus \<Rightarrow> 'c delivery list \<times> 'c SpinelProtocol" where
  "notify_reset p status =
     ((case reset_notification_receiver p of Some tx \<Rightarrow> [ToReset tx status] | None \<Rightarrow> []), fail_all_pending_requests p)"

text \<open>The bytes before the first flag of the buffer, and those after it.\<close>

definition cut_at_flag :: "u8 list \<Rightarrow> (u8 list \<times> u8 list) option" where
  "cut_at_flag buf =
     (case dropWhile (\<lambda>x. x \<noteq> HdlcFlag) buf of [] \<Rightarrow> None | _ # rest \<Rightarrow> Some (takeWhile (\<lambda>x. x \<noteq> HdlcFlag) buf, rest))"

lemma cut_at_flag_None: "cut_at_flag buf = None \<longleftrightarrow> HdlcFlag \<notin> set buf"
proof -
  have "cut_at_flag buf = None \<longleftrightarrow> dropWhile (\<lambda>x. x \<noteq> HdlcFlag) buf = []"
    unfolding cut_at_flag_def by (cases "dropWhile (\<lambda>x. x \<noteq> HdlcFlag) buf") (simp_all del: dropWhile_eq_Nil_conv)
  then show ?thesis by auto
qed

lemma cut_at_flag_Some: "cut_at_flag buf = Some (chunk, rest) \<longleftrightarrow> buf = chunk @ HdlcFlag # rest \<and> HdlcFlag \<notin> set chunk"
proof
  assume cut: "cut_at_flag buf = Some (chunk, rest)"
  then obtain x where x: "dropWhile (\<lambda>x. x \<noteq> HdlcFlag) buf = x # rest" "chunk = takeWhile (\<lambda>x. x \<noteq> HdlcFlag) buf"
    by (auto simp: cut_at_flag_def split: list.splits)
  then have "x = HdlcFlag" using hd_dropWhile [of "\<lambda>x. x \<noteq> HdlcFlag" buf] by simp
  then show "buf = chunk @ HdlcFlag # rest \<and> HdlcFlag \<notin> set chunk"
    using x takeWhile_dropWhile_id [of "\<lambda>x. x \<noteq> HdlcFlag" buf] by (auto dest: set_takeWhileD)
next
  assume buf: "buf = chunk @ HdlcFlag # rest \<and> HdlcFlag \<notin> set chunk"
  then have "\<forall>x \<in> set chunk. x \<noteq> HdlcFlag" by auto
  with buf show "cut_at_flag buf = Some (chunk, rest)" by (simp add: cut_at_flag_def)
qed

function next_frame_into :: "(u8 list \<Rightarrow> u16) \<Rightarrow> 'c SpinelProtocol \<Rightarrow> u8 list option \<times> 'c SpinelProtocol" where
  "next_frame_into kermit p =
     (case cut_at_flag (sp_buffer p) of
        None \<Rightarrow>
          (None, if MAX_HDLC_BUFFER_SIZE < length (sp_buffer p)
                 then p\<lparr>sp_buffer := [], ignoring_until_next_flag := True\<rparr> else p)
      | Some (chunk, rest) \<Rightarrow>
          (let p1 = p\<lparr>sp_buffer := rest, ignoring_until_next_flag := False\<rparr> in
           if \<not> ignoring_until_next_flag p \<and> chunk \<noteq> [] \<and> \<not> isl (hdlc_unescape_into kermit chunk)
           then (Some (projr (hdlc_unescape_into kermit chunk)), p1)
           else next_frame_into kermit p1))"
  by pat_completeness auto

termination next_frame_into
  by (relation "measure (\<lambda>(kermit, p). length (sp_buffer p))") (auto simp: cut_at_flag_Some)

declare next_frame_into.simps [simp del]

lemma next_frame_shrinks: "next_frame_into kermit p = (Some data, p') \<Longrightarrow> length (sp_buffer p') < length (sp_buffer p)"
proof (induction kermit p rule: next_frame_into.induct)
  case (1 kermit p)
  show ?case
  proof (cases "cut_at_flag (sp_buffer p)")
    case None
    then show ?thesis using 1(2) by (simp add: next_frame_into.simps [of kermit p])
  next
    case (Some cut)
    obtain chunk rest where cut: "cut = (chunk, rest)" by (cases cut)
    have "length rest < length (sp_buffer p)" using Some by (auto simp: cut cut_at_flag_Some)
    with 1 Some show ?thesis
      by (fastforce simp: cut next_frame_into.simps [of kermit p] Let_def split: if_splits)
  qed
qed

text \<open>The loop of \<^verbatim>\<open>parse_frames_from_bytes\<close>.\<close>

function frames_loop :: "(u8 list \<Rightarrow> u16) \<Rightarrow> 'c SpinelProtocol \<Rightarrow> SpinelFrame list \<times> 'c SpinelProtocol" where
  "frames_loop kermit p =
     (case next_frame_into kermit p of
        (None, p1) \<Rightarrow> ([], p1)
      | (Some data, p1) \<Rightarrow>
          (case frames_loop kermit p1 of (fs, p2) \<Rightarrow>
             ((case spinel_frame_from_bytes data of Inr f \<Rightarrow> [f] | Inl _ \<Rightarrow> []) @ fs, p2)))"
  by pat_completeness auto

termination frames_loop
  by (relation "measure (\<lambda>(kermit, p). length (sp_buffer p))") (auto dest!: next_frame_shrinks [OF sym])

declare frames_loop.simps [simp del]

definition parse_frames_from_bytes ::
  "(u8 list \<Rightarrow> u16) \<Rightarrow> 'c SpinelProtocol \<Rightarrow> u8 list \<Rightarrow> SpinelFrame list \<times> 'c SpinelProtocol" where
  "parse_frames_from_bytes kermit p bytes = frames_loop kermit (p\<lparr>sp_buffer := sp_buffer p @ bytes\<rparr>)"

definition handle_unsolicited_last_status ::
  "'c SpinelProtocol \<Rightarrow> u8 list \<Rightarrow> 'c delivery list \<times> 'c SpinelProtocol" where
  "handle_unsolicited_last_status p v =
     (case packed_uint21_deserialize v of
        Inl _ \<Rightarrow> ([], p)
      | Inr (status_int, _) \<Rightarrow>
          if unat status_int < 2 ^ 8 \<and> ucast status_int \<in> set spinel_statuses then
            (let status = ucast status_int in if is_reset status then notify_reset p status else ([], p))
          else ([], p))"

definition handle_inbound_frame ::
  "'c SpinelProtocol \<Rightarrow> SpinelHeader \<Rightarrow> SpinelCommandId \<Rightarrow> u8 list \<Rightarrow> 'c delivery list \<times> 'c SpinelProtocol" where
  "handle_inbound_frame p header command payload =
     (let tid = transaction_id header in
      if tid = 0 then
        if command = PropValueIs then
          (case packed_uint21_deserialize payload of
             Inl _ \<Rightarrow> ([], p)
           | Inr (i, v) \<Rightarrow>
               if i \<notin> set spinel_property_ids then ([], p)
               else if i = LastStatus then handle_unsolicited_last_status p v
               else
                 (case property_update_receivers p i of
                    Some tx \<Rightarrow> ([ToProperty tx \<lparr>property_id = i, prop_value = v\<rparr>], p)
                  | None \<Rightarrow> ([], p)))
        else ([], p)
      else
        (case pending_frames p tid of
           Some tx \<Rightarrow> ([ToPending tx \<lparr>sf_header = header, command_id = command, sf_payload = payload\<rparr>],
                       p\<lparr>pending_frames := (pending_frames p)(tid := None)\<rparr>)
         | None \<Rightarrow> ([], p)))"

lemma handle_inbound_frame_buffer: "sp_buffer (snd (handle_inbound_frame p h c payload)) = sp_buffer p"
  by (auto simp: handle_inbound_frame_def handle_unsolicited_last_status_def notify_reset_def fail_all_pending_requests_def
      Let_def split: option.splits sum.splits)

function inbound_loop :: "(u8 list \<Rightarrow> u16) \<Rightarrow> 'c SpinelProtocol \<Rightarrow> 'c delivery list \<times> 'c SpinelProtocol" where
  "inbound_loop kermit p =
     (case next_frame_into kermit p of
        (None, p1) \<Rightarrow> ([], p1)
      | (Some data, p1) \<Rightarrow>
          (case parse_spinel_parts data of
             Inl _ \<Rightarrow> inbound_loop kermit p1
           | Inr (h, c, payload) \<Rightarrow>
               (let r = handle_inbound_frame p1 h c payload; s = inbound_loop kermit (snd r)
                in (fst r @ fst s, snd s))))"
  by pat_completeness auto

termination inbound_loop
  by (relation "measure (\<lambda>(kermit, p). length (sp_buffer p))")
     (auto dest!: next_frame_shrinks [OF sym] simp: handle_inbound_frame_buffer)

declare inbound_loop.simps [simp del]

definition handle_inbound_bytes ::
  "(u8 list \<Rightarrow> u16) \<Rightarrow> 'c SpinelProtocol \<Rightarrow> u8 list \<Rightarrow> 'c delivery list \<times> 'c SpinelProtocol" where
  "handle_inbound_bytes kermit p bytes = inbound_loop kermit (p\<lparr>sp_buffer := sp_buffer p @ bytes\<rparr>)"

text \<open>The search for a free transaction identifier; it has a value only where the loop ends.\<close>

partial_function (option) tid_loop :: "(u8 \<rightharpoonup> 'c) \<Rightarrow> u8 \<Rightarrow> u8 \<Rightarrow> u8 run option" where
  "tid_loop pending start tid =
     (if pending tid \<noteq> None then
        (let tid1 = 1 + tid mod 7 in if tid1 = start then Some Panic else tid_loop pending start tid1)
      else Some (Ret tid))"

definition prepare_request ::
  "'c SpinelProtocol \<Rightarrow> SpinelCommandId \<Rightarrow> u8 list \<Rightarrow> 'c \<Rightarrow> (SpinelFrame \<times> 'c SpinelProtocol) run option" where
  "prepare_request p command payload tx =
     map_option (\<lambda>res. run_bind res (\<lambda>tid.
       Ret (\<lparr>sf_header = \<lparr>flag = 0b10, network_link_id = 0, transaction_id = tid\<rparr>, command_id = command, sf_payload = payload\<rparr>,
            p\<lparr>next_tid := 1 + tid mod 7, pending_frames := (pending_frames p)(tid \<mapsto> tx)\<rparr>)))
       (tid_loop (pending_frames p) (next_tid p) (next_tid p))"

definition cancel_request :: "'c SpinelProtocol \<Rightarrow> u8 \<Rightarrow> 'c SpinelProtocol" where
  "cancel_request p tid = p\<lparr>pending_frames := (pending_frames p)(tid := None)\<rparr>"

section \<open>The stream\<close>

text \<open>A stream cut at its flags; the last piece is not complete.\<close>

fun pieces :: "u8 list \<Rightarrow> u8 list list" where
  "pieces [] = [[]]"
| "pieces (b # bs) = (if b = HdlcFlag then [] # pieces bs else (b # hd (pieces bs)) # tl (pieces bs))"

lemma pieces_not_Nil [simp]: "pieces bs \<noteq> []"
  by (cases bs) auto

lemma pieces_flagless [simp]: "HdlcFlag \<notin> set bs \<Longrightarrow> pieces bs = [bs]"
  by (induction bs) auto

lemma pieces_cut: "HdlcFlag \<notin> set chunk \<Longrightarrow> pieces (chunk @ HdlcFlag # rest) = chunk # pieces rest"
  by (induction chunk) auto

lemma last_piece: "HdlcFlag \<notin> set (last (pieces bs))"
proof (induction bs)
  case (Cons b bs)
  then show ?case by (cases "pieces bs") (auto split: if_splits)
qed simp

lemma pieces_append: "pieces (xs @ ys) = butlast (pieces xs) @ pieces (last (pieces xs) @ ys)"
proof (induction xs)
  case (Cons x xs)
  show ?case
  proof (cases "x = HdlcFlag")
    case False
    show ?thesis
    proof (cases "tl (pieces xs)")
      case Nil
      then obtain q where "pieces xs = [q]" by (cases "pieces xs") auto
      with Cons False show ?thesis by simp
    next
      case (Cons r rs)
      then obtain q where "pieces xs = q # r # rs" by (cases "pieces xs") auto
      with Cons.IH False show ?thesis by simp
    qed
  qed (use Cons in simp)
qed simp

text \<open>The frame in a piece, if there is one.\<close>

definition decode_piece :: "(u8 list \<Rightarrow> u16) \<Rightarrow> u8 list \<Rightarrow> SpinelFrame list" where
  "decode_piece kermit chunk =
     (if chunk = [] then []
      else case hdlc_unescape_into kermit chunk of
             Inl _ \<Rightarrow> []
           | Inr data \<Rightarrow> (case spinel_frame_from_bytes data of Inr f \<Rightarrow> [f] | Inl _ \<Rightarrow> []))"

lemma frames_loop_step:
  "frames_loop kermit p =
     (case cut_at_flag (sp_buffer p) of
        None \<Rightarrow> ([], if MAX_HDLC_BUFFER_SIZE < length (sp_buffer p) then p\<lparr>sp_buffer := [], ignoring_until_next_flag := True\<rparr> else p)
      | Some (chunk, rest) \<Rightarrow>
          (case frames_loop kermit (p\<lparr>sp_buffer := rest, ignoring_until_next_flag := False\<rparr>) of (fs, p2) \<Rightarrow>
             ((if ignoring_until_next_flag p then [] else decode_piece kermit chunk) @ fs, p2)))"
proof (cases "cut_at_flag (sp_buffer p)")
  case None
  then show ?thesis by (simp add: frames_loop.simps [of kermit p] next_frame_into.simps [of kermit p])
next
  case (Some cut)
  obtain chunk rest where cut: "cut = (chunk, rest)" by (cases cut)
  let ?p1 = "p\<lparr>sp_buffer := rest, ignoring_until_next_flag := False\<rparr>"
  show ?thesis
  proof (cases "\<not> ignoring_until_next_flag p \<and> chunk \<noteq> [] \<and> \<not> isl (hdlc_unescape_into kermit chunk)")
    case True
    then obtain data where "hdlc_unescape_into kermit chunk = Inr data" by (auto simp: isl_def) (metis sum.exhaust)
    with True Some show ?thesis
      by (simp add: cut frames_loop.simps [of kermit p] next_frame_into.simps [of kermit p] decode_piece_def Let_def)
  next
    case False
    then have "next_frame_into kermit p = next_frame_into kermit ?p1"
      using Some by (subst next_frame_into.simps) (auto simp: cut Let_def)
    then have "frames_loop kermit p = frames_loop kermit ?p1"
      by (simp add: frames_loop.simps [of kermit p] frames_loop.simps [of kermit ?p1])
    moreover have "(if ignoring_until_next_flag p then [] else decode_piece kermit chunk) = []"
      using False by (auto simp: decode_piece_def isl_def split: sum.splits)
    ultimately show ?thesis using Some by (simp add: cut split: prod.splits)
  qed
qed

text \<open>What a reassembly pass yields, as long as the incomplete piece fits the buffer.\<close>

lemma frames_loop_spec:
  assumes "length (last (pieces (sp_buffer p))) \<le> MAX_HDLC_BUFFER_SIZE"
  shows "frames_loop kermit p =
    (concat (map (decode_piece kermit) (drop (of_bool (ignoring_until_next_flag p)) (butlast (pieces (sp_buffer p))))),
     p\<lparr>sp_buffer := last (pieces (sp_buffer p)),
       ignoring_until_next_flag := ignoring_until_next_flag p \<and> butlast (pieces (sp_buffer p)) = []\<rparr>)"
  using assms
proof (induction "length (sp_buffer p)" arbitrary: p rule: less_induct)
  case less
  show ?case
  proof (cases "cut_at_flag (sp_buffer p)")
    case None
    then have "pieces (sp_buffer p) = [sp_buffer p]" by (simp add: cut_at_flag_None)
    then show ?thesis using less.prems None by (subst frames_loop_step) simp
  next
    case (Some cut)
    obtain chunk rest where cut: "cut = (chunk, rest)" by (cases cut)
    then have buf: "sp_buffer p = chunk @ HdlcFlag # rest" "HdlcFlag \<notin> set chunk" using Some by (auto simp: cut_at_flag_Some)
    let ?p1 = "p\<lparr>sp_buffer := rest, ignoring_until_next_flag := False\<rparr>"
    have "length (last (pieces (sp_buffer ?p1))) \<le> MAX_HDLC_BUFFER_SIZE" using less.prems by (simp add: buf pieces_cut)
    from less.hyps [OF _ this] Some show ?thesis
      by (subst frames_loop_step) (simp add: cut buf pieces_cut)
  qed
qed

text \<open>The reads of the serial port, one after the other.\<close>

fun feed :: "(u8 list \<Rightarrow> u16) \<Rightarrow> 'c SpinelProtocol \<Rightarrow> u8 list list \<Rightarrow> SpinelFrame list \<times> 'c SpinelProtocol" where
  "feed kermit p [] = ([], p)"
| "feed kermit p (bytes # reads) =
     (case parse_frames_from_bytes kermit p bytes of (fs, p1) \<Rightarrow>
        (case feed kermit p1 reads of (gs, p2) \<Rightarrow> (fs @ gs, p2)))"

text \<open>The link after it has read a stream, and the frames of the stream: what comes before the first flag is dropped.\<close>

definition link_after :: "'c SpinelProtocol \<Rightarrow> u8 list \<Rightarrow> 'c SpinelProtocol" where
  "link_after p S = p\<lparr>sp_buffer := last (pieces S), ignoring_until_next_flag := (butlast (pieces S) = [])\<rparr>"

definition stream_frames :: "(u8 list \<Rightarrow> u16) \<Rightarrow> u8 list \<Rightarrow> SpinelFrame list" where
  "stream_frames kermit S = concat (map (decode_piece kermit) (drop 1 (butlast (pieces S))))"

lemma pieces_longer: "\<exists>q \<in> set (pieces (xs @ ys)). length (last (pieces xs)) \<le> length q"
proof -
  let ?l = "last (pieces xs)"
  have "\<exists>zs. hd (pieces (l @ ys)) = l @ zs" if "HdlcFlag \<notin> set l" for l
    using that by (induction l) auto
  from this [OF last_piece] obtain zs where "hd (pieces (?l @ ys)) = ?l @ zs" by blast
  then have "?l @ zs \<in> set (pieces (xs @ ys))" unfolding pieces_append [of xs ys] by (metis Un_iff hd_in_set pieces_not_Nil set_append)
  then show ?thesis by (rule bexI [rotated]) simp
qed

lemma parse_link_after:
  assumes "length (last (pieces (S @ bytes))) \<le> MAX_HDLC_BUFFER_SIZE"
  shows "\<exists>fs. parse_frames_from_bytes kermit (link_after p S) bytes = (fs, link_after p (S @ bytes)) \<and>
    stream_frames kermit (S @ bytes) = stream_frames kermit S @ fs"
proof -
  let ?B = "last (pieces S) @ bytes"
  have last: "last (pieces (S @ bytes)) = last (pieces ?B)" "butlast (pieces (S @ bytes)) = butlast (pieces S) @ butlast (pieces ?B)"
    by (simp_all add: pieces_append [of S bytes] butlast_append)
  have "length (last (pieces (sp_buffer (link_after p S\<lparr>sp_buffer := ?B\<rparr>)))) \<le> MAX_HDLC_BUFFER_SIZE" using assms last by simp
  from frames_loop_spec [OF this, of kermit] show ?thesis
    by (cases "butlast (pieces S)") (auto simp: parse_frames_from_bytes_def link_after_def stream_frames_def last)
qed

lemma feed_link_after:
  assumes "\<forall>q \<in> set (pieces (S @ concat reads)). length q \<le> MAX_HDLC_BUFFER_SIZE"
  shows "\<exists>fs. feed kermit (link_after p S) reads = (fs, link_after p (S @ concat reads)) \<and>
    stream_frames kermit (S @ concat reads) = stream_frames kermit S @ fs"
  using assms
proof (induction reads arbitrary: S)
  case (Cons bytes reads)
  have "length (last (pieces (S @ bytes))) \<le> MAX_HDLC_BUFFER_SIZE"
    using pieces_longer [of "S @ bytes" "concat reads"] Cons.prems by fastforce
  from parse_link_after [OF this, of kermit p] Cons.IH [of "S @ bytes"] Cons.prems show ?case by fastforce
qed simp

lemma link_after_new: "link_after spinel_protocol_new [] = spinel_protocol_new"
  by (simp add: link_after_def spinel_protocol_new_def)

section \<open>Properties\<close>

text \<open>
  C14: How the serial port splits the stream does not matter: as long as no more than the buffer bound lies between two
  flags, reading a stream in any pieces yields the frames that reading it at once does, and leaves the same state.
\<close>

theorem reads_irrelevant:
  assumes "\<forall>q \<in> set (pieces (concat reads)). length q \<le> MAX_HDLC_BUFFER_SIZE"
  shows "feed kermit (spinel_protocol_new :: 'c SpinelProtocol) reads = parse_frames_from_bytes kermit spinel_protocol_new (concat reads)"
proof -
  let ?n = "spinel_protocol_new :: 'c SpinelProtocol"
  have "\<exists>fs. feed kermit ?n reads = (fs, link_after ?n (concat reads)) \<and>
      stream_frames kermit (concat reads) = fs"
    using feed_link_after [of "[]" reads kermit ?n] assms
    by (auto simp: link_after_new stream_frames_def)
  moreover have "\<exists>fs. parse_frames_from_bytes kermit ?n (concat reads) = (fs, link_after ?n (concat reads)) \<and>
      stream_frames kermit (concat reads) = fs"
    using parse_link_after [of "[]" "concat reads" kermit ?n] assms
    by (auto simp: link_after_new stream_frames_def)
  ultimately show ?thesis by auto
qed

text \<open>
  C13: The serial link is faithful: any sequence of well-formed frames, each framed and escaped and written to the wire one
  after the other, is read back frame by frame, however the reads split the bytes and whatever the checksum.
\<close>

theorem spinel_stream_roundtrip:
  assumes "\<forall>f \<in> set fs. spinel_frame_ok f \<and> length (spinel_frame_to_bytes f) \<le> 2046"
    and "concat reads = concat (map (\<lambda>f. hdlc_to_bytes_with_flags kermit (spinel_frame_to_bytes f)) fs)"
  shows "fst (feed kermit (spinel_protocol_new :: 'c SpinelProtocol) reads) = fs"
proof -
  let ?E = "\<lambda>f. hdlc_escape_into kermit (spinel_frame_to_bytes f)"
  let ?S = "\<lambda>fs. concat (map (\<lambda>f. hdlc_to_bytes_with_flags kermit (spinel_frame_to_bytes f)) fs)"
  have pieces: "pieces (?S fs) = concat (map (\<lambda>f. [[], ?E f]) fs) @ [[]]" for fs
  proof (induction fs)
    case (Cons f fs)
    then show ?case
      using pieces_cut [OF hdlc_escape_facts(1), of kermit "spinel_frame_to_bytes f" "?S fs"]
      by (simp add: hdlc_to_bytes_with_flags_def)
  qed simp
  have small: "\<forall>q \<in> set (pieces (?S fs)). length q \<le> MAX_HDLC_BUFFER_SIZE"
  proof
    fix q assume "q \<in> set (pieces (?S fs))"
    then consider "q = []" | f where "f \<in> set fs" "q = ?E f" unfolding pieces by (auto split: if_splits)
    then show "length q \<le> MAX_HDLC_BUFFER_SIZE"
    proof cases
      case 2
      then have "length q \<le> 2 * length (spinel_frame_to_bytes f) + 4" "length (spinel_frame_to_bytes f) \<le> 2046"
        using assms(1) hdlc_escape_facts(3) by auto
      then show ?thesis unfolding MAX_HDLC_BUFFER_SIZE_def by linarith
    qed simp
  qed
  have decode: "decode_piece kermit (?E f) = [f]" if "f \<in> set fs" for f
    using that assms(1) hdlc_escape_facts(2) [of kermit "spinel_frame_to_bytes f"]
    by (auto simp: decode_piece_def hdlc_unescape_escape spinel_frame_roundtrip)
  have "\<exists>gs. feed kermit (spinel_protocol_new :: 'c SpinelProtocol) reads = (gs, link_after spinel_protocol_new (?S fs)) \<and> stream_frames kermit (?S fs) = gs"
    using feed_link_after [of "[]" reads kermit spinel_protocol_new] small assms(2)
    by (auto simp: link_after_new stream_frames_def)
  moreover have "stream_frames kermit (?S fs) = fs"
  proof -
    have all: "concat (map (decode_piece kermit) (concat (map (\<lambda>f. [[], ?E f]) gs))) = gs" if "set gs \<subseteq> set fs" for gs
      using that decode by (induction gs) (auto simp: decode_piece_def [of kermit "[]"])
    have drop: "concat (map (decode_piece kermit) (drop 1 ps)) = concat (map (decode_piece kermit) ps)"
      if "ps = [] \<or> hd ps = []" for ps
      using that by (cases ps) (auto simp: decode_piece_def)
    have "concat (map (\<lambda>f. [[], ?E f]) fs) = [] \<or> hd (concat (map (\<lambda>f. [[], ?E f]) fs)) = []" by (cases fs) auto
    from drop [OF this] all [OF subset_refl] show ?thesis unfolding stream_frames_def pieces butlast_snoc by (rule trans)
  qed
  ultimately show ?thesis by auto
qed


lemma crc_zero_frame:
  "hdlc_to_bytes_with_flags (\<lambda>_. 0xFFFF) (spinel_frame_to_bytes \<lparr>sf_header = \<lparr>flag = 2, network_link_id = 0, transaction_id = 1\<rparr>,
     command_id = 2, sf_payload = [0x7E]\<rparr>) = [0x7E, 0x81, 2, 0x7D, 0x5E, 0, 0, 0x7E]"
  by code_simp

theorem reads_irrelevant_witness:
  "feed (\<lambda>_. 0) (spinel_protocol_new :: nat SpinelProtocol) [[0x7E, 0x81], [0]] =
     parse_frames_from_bytes (\<lambda>_. 0) spinel_protocol_new [0x7E, 0x81, 0]"
proof -
  have "\<forall>q \<in> set (pieces (concat [[0x7E, 0x81 :: u8], [0]])). length q \<le> MAX_HDLC_BUFFER_SIZE"
    by (simp add: MAX_HDLC_BUFFER_SIZE_def)
  from reads_irrelevant [OF this, of "\<lambda>_. 0"] show ?thesis by simp
qed

theorem spinel_stream_roundtrip_witness:
  "fst (feed (\<lambda>_. 0xFFFF) (spinel_protocol_new :: nat SpinelProtocol) [[0x7E, 0x81, 2, 0x7D], [0x5E, 0, 0, 0x7E]]) =
     [\<lparr>sf_header = \<lparr>flag = 2, network_link_id = 0, transaction_id = 1\<rparr>, command_id = 2, sf_payload = [0x7E]\<rparr>]"
  by (rule spinel_stream_roundtrip) (simp only: list.set ball_simps, code_simp, simp add: crc_zero_frame)

section \<open>Transactions\<close>

text \<open>The identifiers in the order the search visits them.\<close>

fun tid_chain :: "u8 \<Rightarrow> u8 list \<Rightarrow> bool" where
  "tid_chain start [] \<longleftrightarrow> False"
| "tid_chain start [t] \<longleftrightarrow> 1 + t mod 7 = start"
| "tid_chain start (t # u # ts) \<longleftrightarrow> 1 + t mod 7 = u \<and> u \<noteq> start \<and> tid_chain start (u # ts)"

lemma tid_loop_chain:
  "tid_chain start ts \<Longrightarrow>
     tid_loop pending start (hd ts) = Some (case find (\<lambda>t. pending t = None) ts of Some t \<Rightarrow> Ret t | None \<Rightarrow> Panic)"
proof (induction start ts rule: tid_chain.induct)
  case (2 start t)
  then show ?case by (subst tid_loop.simps) (simp add: Let_def)
next
  case (3 start t u ts)
  then show ?case by (subst tid_loop.simps) (simp add: Let_def)
qed simp

lemma tid_chain_exists:
  assumes "1 \<le> start" "start \<le> (7 :: u8)"
  shows "\<exists>ts. tid_chain start ts \<and> hd ts = start \<and> set ts = {1..7}"
proof -
  have seven: "{1..7 :: u8} = {1, 2, 3, 4, 5, 6, 7}"
  proof (rule set_eqI)
    fix x :: u8
    have "x \<in> {1..7} \<longleftrightarrow> unat x \<in> {1..7}" by (simp add: word_le_nat_alt)
    also have "{1..7 :: nat} = {1, 2, 3, 4, 5, 6, 7}" by auto
    also have "unat x \<in> {1, 2, 3, 4, 5, 6, 7} \<longleftrightarrow> x \<in> {1, 2, 3, 4, 5, 6, 7}"
      by (simp add: word_unat_eq_iff)
    finally show "x \<in> {1..7} \<longleftrightarrow> x \<in> {1, 2, 3, 4, 5, 6, 7}" .
  qed
  have "start \<in> {1..7}" using assms by simp
  then consider "start = 1" | "start = 2" | "start = 3" | "start = 4" | "start = 5" | "start = 6" | "start = 7" unfolding seven by blast
  then show ?thesis
  proof cases
    case 1 show ?thesis unfolding 1 seven by (rule exI [of _ "[1, 2, 3, 4, 5, 6, 7]"]) code_simp
  next
    case 2 show ?thesis unfolding 2 seven by (rule exI [of _ "[2, 3, 4, 5, 6, 7, 1]"]) code_simp
  next
    case 3 show ?thesis unfolding 3 seven by (rule exI [of _ "[3, 4, 5, 6, 7, 1, 2]"]) code_simp
  next
    case 4 show ?thesis unfolding 4 seven by (rule exI [of _ "[4, 5, 6, 7, 1, 2, 3]"]) code_simp
  next
    case 5 show ?thesis unfolding 5 seven by (rule exI [of _ "[5, 6, 7, 1, 2, 3, 4]"]) code_simp
  next
    case 6 show ?thesis unfolding 6 seven by (rule exI [of _ "[6, 7, 1, 2, 3, 4, 5]"]) code_simp
  next
    case 7 show ?thesis unfolding 7 seven by (rule exI [of _ "[7, 1, 2, 3, 4, 5, 6]"]) code_simp
  qed
qed


lemma next_tid_range: "1 \<le> 1 + t mod 7 \<and> 1 + t mod 7 \<le> (7 :: u8)"
proof -
  have "unat (t mod 7) < 7" by (simp add: unat_mod)
  then have "unat (1 + t mod 7) = 1 + unat (t mod 7)" by (simp add: unat_word_ariths)
  then show ?thesis using \<open>unat (t mod 7) < 7\<close> by (simp add: word_le_nat_alt)
qed

text \<open>
  C15: Allocating a transaction always returns: it panics exactly when all seven identifiers are in flight, and otherwise it
  picks one from 1 to 7 that no earlier command still waits on, keeps the counter in that range, and the next frame that
  carries the identifier is handed to this command and to no other, after which the table is what it was before.
\<close>

theorem prepare_request_returns:
  assumes "1 \<le> next_tid p" "next_tid p \<le> 7"
  shows "if \<forall>t. 1 \<le> t \<and> t \<le> 7 \<longrightarrow> pending_frames p t \<noteq> None then prepare_request p command payload tx = Some Panic
    else \<exists>f p'. prepare_request p command payload tx = Some (Ret (f, p')) \<and>
      1 \<le> transaction_id (sf_header f) \<and> transaction_id (sf_header f) \<le> 7 \<and>
      pending_frames p (transaction_id (sf_header f)) = None \<and> 1 \<le> next_tid p' \<and> next_tid p' \<le> 7 \<and>
      (\<forall>answer body. handle_inbound_frame p' (sf_header f) answer body =
        ([ToPending tx \<lparr>sf_header = sf_header f, command_id = answer, sf_payload = body\<rparr>], p'\<lparr>pending_frames := pending_frames p\<rparr>))"
proof -
  obtain ts where ts: "tid_chain (next_tid p) ts" "hd ts = next_tid p" "set ts = {1..7}"
    using tid_chain_exists [OF assms] by blast
  have loop: "tid_loop (pending_frames p) (next_tid p) (next_tid p) =
      Some (case find (\<lambda>t. pending_frames p t = None) ts of Some t \<Rightarrow> Ret t | None \<Rightarrow> Panic)"
    using tid_loop_chain [OF ts(1), of "pending_frames p"] ts(2) by simp
  show ?thesis
  proof (cases "find (\<lambda>t. pending_frames p t = None) ts")
    case None
    then have "\<forall>t. 1 \<le> t \<and> t \<le> 7 \<longrightarrow> pending_frames p t \<noteq> None" using ts(3) by (auto simp: find_None_iff)
    moreover have "prepare_request p command payload tx = Some Panic" using None by (simp add: prepare_request_def loop)
    ultimately show ?thesis by - (subst if_P)
  next
    case (Some t)
    then have "t \<in> set ts \<and> pending_frames p t = None" unfolding find_Some_iff by auto
    then have t: "1 \<le> t" "t \<le> 7" "pending_frames p t = None" by (simp_all add: ts(3))
    then have again: "(pending_frames p)(t := None) = pending_frames p" by (simp add: fun_upd_idem)
    have "t \<noteq> 0" using t(1) by (auto simp: word_le_nat_alt)
    let ?f = "\<lparr>sf_header = \<lparr>flag = 0b10, network_link_id = 0, transaction_id = t\<rparr>, command_id = command, sf_payload = payload\<rparr>"
    let ?p = "p\<lparr>next_tid := 1 + t mod 7, pending_frames := (pending_frames p)(t \<mapsto> tx)\<rparr>"
    have "prepare_request p command payload tx = Some (Ret (?f, ?p))" using Some by (simp add: prepare_request_def loop)
    moreover have "handle_inbound_frame ?p (sf_header ?f) answer body =
        ([ToPending tx \<lparr>sf_header = sf_header ?f, command_id = answer, sf_payload = body\<rparr>], ?p\<lparr>pending_frames := pending_frames p\<rparr>)"
      for answer body using \<open>t \<noteq> 0\<close> by (simp add: handle_inbound_frame_def again)
    moreover have "1 \<le> transaction_id (sf_header ?f)" "transaction_id (sf_header ?f) \<le> 7"
        "pending_frames p (transaction_id (sf_header ?f)) = None" "1 \<le> next_tid ?p" "next_tid ?p \<le> 7"
      using t next_tid_range [of t] by simp_all
    moreover have "\<not> (\<forall>t. 1 \<le> t \<and> t \<le> 7 \<longrightarrow> pending_frames p t \<noteq> None)" using t by blast
    ultimately show ?thesis by - (subst if_not_P, assumption, rule exI [of _ ?f], rule exI [of _ ?p], intro conjI allI)
  qed
qed

theorem prepare_request_returns_witness:
  "\<exists>f p'. prepare_request (spinel_protocol_new :: nat SpinelProtocol) 2 [2] 5 = Some (Ret (f, p')) \<and>
     1 \<le> transaction_id (sf_header f) \<and> transaction_id (sf_header f) \<le> 7"
proof -
  have "1 \<le> next_tid (spinel_protocol_new :: nat SpinelProtocol)" "next_tid (spinel_protocol_new :: nat SpinelProtocol) \<le> 7"
      "\<not> (\<forall>t. 1 \<le> t \<and> t \<le> 7 \<longrightarrow> pending_frames (spinel_protocol_new :: nat SpinelProtocol) t \<noteq> None)"
    by (simp_all add: spinel_protocol_new_def) (rule exI [of _ 1], simp)
  from prepare_request_returns [OF this(1,2), of 2 "[2]" 5] this(3) show ?thesis by (subst (asm) if_not_P) auto
qed

end
