(* ===== verification/Bit_Layout.thy ===== *)
theory Bit_Layout
  imports Address_Types
begin

text \<open>
  Bit fields packed least significant first into bytes: a concrete layout, for the witnesses of the properties that take
  the generated bit readers and writers as arguments, and the codec laws those properties rely on.
\<close>

fun pack :: "(nat \<times> nat) list \<Rightarrow> nat" where
  "pack [] = 0"
| "pack ((w, v) # fs) = v + 2 ^ w * pack fs"

fun fields :: "nat list \<Rightarrow> nat \<Rightarrow> nat list" where
  "fields [] n = []"
| "fields (w # ws) n = n mod 2 ^ w # fields ws (n div 2 ^ w)"

definition fitting :: "(nat \<times> nat) list \<Rightarrow> bool" where
  "fitting fs \<longleftrightarrow> (\<forall>(w, v) \<in> set fs. v < 2 ^ w)"

lemma fitting_simps [simp]: "fitting []" "fitting ((w, v) # fs) \<longleftrightarrow> v < 2 ^ w \<and> fitting fs"
  by (auto simp: fitting_def)

lemma fields_pack: "fitting fs \<Longrightarrow> fields (map fst fs) (pack fs) = map snd fs"
  by (induction fs rule: pack.induct) auto

lemma pack_less: "fitting fs \<Longrightarrow> pack fs < 2 ^ sum_list (map fst fs)"
proof (induction fs rule: pack.induct)
  case (2 w v fs)
  then have "Suc (pack fs) \<le> 2 ^ sum_list (map fst fs)" "v < 2 ^ w" by auto
  then have "2 ^ w * Suc (pack fs) \<le> 2 ^ w * 2 ^ sum_list (map fst fs)" by (intro mult_le_mono2)
  then show ?case using \<open>v < 2 ^ w\<close> by (simp add: power_add)
qed simp

text \<open>The number a byte string holds, least significant byte first, and back.\<close>

fun bytes_nat :: "u8 list \<Rightarrow> nat" where
  "bytes_nat [] = 0"
| "bytes_nat (b # bs) = unat b + 256 * bytes_nat bs"

fun nat_bytes :: "nat \<Rightarrow> nat \<Rightarrow> u8 list" where
  "nat_bytes 0 n = []"
| "nat_bytes (Suc k) n = of_nat n # nat_bytes k (n div 256)"

lemma length_nat_bytes [simp]: "length (nat_bytes k n) = k"
  by (induction k n rule: nat_bytes.induct) auto

lemma bytes_nat_bytes: "n < 256 ^ k \<Longrightarrow> bytes_nat (nat_bytes k n) = n"
proof (induction k n rule: nat_bytes.induct)
  case (2 k n)
  then have "n div 256 < 256 ^ k" by (simp add: less_mult_imp_div_less mult.commute)
  with 2 show ?case by (simp add: unat_of_nat)
qed simp

section \<open>Codecs of fixed size\<close>

text \<open>
  What is documented of the generated code for a structure of fixed size: the writer succeeds and the reader returns what
  it wrote, whatever follows; a reader fails on fewer bytes than the structure has. The predicate holds of the values the
  source's type has, where the model's type has more.
\<close>

definition fixed_codec :: "('a \<Rightarrow> bool) \<Rightarrow> nat \<Rightarrow> (u8 list \<Rightarrow> 'a option) \<Rightarrow> ('a \<Rightarrow> u8 list option) \<Rightarrow> bool" where
  "fixed_codec P n rd wr \<longleftrightarrow>
     (\<forall>v. P v \<longrightarrow> (\<exists>bs. wr v = Some bs \<and> length bs = n \<and> (\<forall>rest. rd (bs @ rest) = Some v))) \<and>
     (\<forall>bytes v. rd bytes = Some v \<longrightarrow> n \<le> length bytes \<and> P v)"

abbreviation any :: "'a \<Rightarrow> bool" where
  "any \<equiv> \<lambda>_. True"

lemma fixed_codecD:
  assumes "fixed_codec P n rd wr" "P v"
  obtains bs where "wr v = Some bs" "length bs = n" "\<And>rest. rd (bs @ rest) = Some v"
  using assms unfolding fixed_codec_def by blast

lemma fixed_codec_whole: "fixed_codec P n rd wr \<Longrightarrow> P v \<Longrightarrow> \<exists>bs. wr v = Some bs \<and> length bs = n \<and> rd bs = Some v"
  unfolding fixed_codec_def by (metis append.right_neutral)

lemma fixed_codec_length: "fixed_codec P n rd wr \<Longrightarrow> rd bytes = Some v \<Longrightarrow> n \<le> length bytes \<and> P v"
  unfolding fixed_codec_def by blast

lemma fixed_codec_rewrite:
  "fixed_codec P n rd wr \<Longrightarrow> rd bytes = Some v \<Longrightarrow> \<exists>bs. wr v = Some bs \<and> length bs \<le> length bytes"
  using fixed_codec_whole [of P n rd wr v] fixed_codec_length [of P n rd wr bytes v] by auto

text \<open>A codec from the fields of a value and a reading of the fields.\<close>

definition read_fields :: "nat list \<Rightarrow> (nat list \<Rightarrow> 'a option) \<Rightarrow> u8 list \<Rightarrow> 'a option" where
  "read_fields ws mk bytes =
     (let n = sum_list ws div 8 in if length bytes < n then None else mk (fields ws (bytes_nat (take n bytes))))"

definition write_fields :: "nat list \<Rightarrow> ('a \<Rightarrow> nat list) \<Rightarrow> 'a \<Rightarrow> u8 list option" where
  "write_fields ws vs x = Some (nat_bytes (sum_list ws div 8) (pack (zip ws (vs x))))"

lemma fixed_codec_fields:
  assumes "\<And>x. length (vs x) = length ws" "\<And>x. fitting (zip ws (vs x))" "\<And>x. mk (vs x) = Some x" "8 dvd sum_list ws"
  shows "fixed_codec any (sum_list ws div 8) (read_fields ws mk) (write_fields ws vs)"
proof -
  have "read_fields ws mk (nat_bytes (sum_list ws div 8) (pack (zip ws (vs x))) @ rest) = Some x" for x rest
  proof -
    have maps: "map fst (zip ws (vs x)) = ws" "map snd (zip ws (vs x)) = vs x" using assms(1) by simp_all
    have "pack (zip ws (vs x)) < 2 ^ (8 * (sum_list ws div 8))" using pack_less [OF assms(2) [of x]] assms(4) by (simp add: maps)
    then have "pack (zip ws (vs x)) < 256 ^ (sum_list ws div 8)" by (simp add: power_mult)
    then show ?thesis using fields_pack [OF assms(2), of x] maps assms(3)
      by (simp add: read_fields_def bytes_nat_bytes)
  qed
  then show ?thesis by (auto simp: fixed_codec_def write_fields_def read_fields_def Let_def split: if_splits)
qed

end
