(* ===== verification/Mac_Fcs.thy ===== *)
theory Mac_Fcs
  imports Mac_Frame
begin

unbundle bit_operations_syntax

text \<open>
  The frame check sequence of \<^verbatim>\<open>ziggurat-ieee-802154/src/lib.rs\<close> (\<^verbatim>\<open>compute_fcs\<close>): it is linear, its step is injective,
  and a change within two adjacent bytes of a packet, the sequence itself included, is always detected.
\<close>

section \<open>The step is linear and injective\<close>

definition crc_step :: "u16 \<Rightarrow> u16" where
  "crc_step s = drop_bit 4 s XOR ((s AND 0x0F) * 0x1081)"

lemma nibble_cases:
  assumes "q < (16 :: u16)"
  shows "q \<in> set (map of_nat [0..<16])"
proof -
  have "unat q < 16" using assms by (simp add: word_less_nat_alt)
  then show ?thesis by (auto intro!: image_eqI [of _ _ "unat q"])
qed

lemma nibble_mult:
  assumes "q < (16 :: u16)"
  shows "q * 0x1081 = q XOR push_bit 7 q XOR push_bit 12 q"
proof -
  have "\<forall>q \<in> set (map of_nat [0..<16]). q * 0x1081 = q XOR push_bit 7 q XOR push_bit 12 (q :: u16)" by code_simp
  then show ?thesis using nibble_cases [OF assms] by blast
qed

lemma and_15: "s AND 0x0F = take_bit 4 (s :: 'a :: len word)"
  by (simp add: take_bit_eq_mask mask_eq_exp_minus_1)

lemma take_4_less: "take_bit 4 s < (16 :: u16)"
  using word_and_le1 [of s 15] by (simp add: and_15 word_less_nat_alt word_le_nat_alt)

lemma crc_step_eq: "crc_step s = drop_bit 4 s XOR (take_bit 4 s XOR push_bit 7 (take_bit 4 s) XOR push_bit 12 (take_bit 4 s))"
  by (simp add: crc_step_def and_15 nibble_mult [OF take_4_less])

lemma crc_step_xor: "crc_step (a XOR b) = crc_step a XOR crc_step b"
  unfolding crc_step_eq by (simp only: drop_bit_xor take_bit_xor push_bit_xor ac_simps)

lemma word_xor_eq_0: "a XOR b = 0 \<longleftrightarrow> a = (b :: 'a :: len word)"
  by (auto simp: bit_eq_iff bit_xor_iff)

lemma crc_step_0 [simp]: "crc_step 0 = 0"
  by (simp add: crc_step_def)

lemma crc_step_zero: "crc_step s = 0 \<longleftrightarrow> s = 0"
proof
  assume z: "crc_step s = 0"
  have "bit (crc_step s) (n + 12) \<longleftrightarrow> bit s n" if "n < 4" for n
  proof -
    have "\<not> bit s (n + 16)" using bit_imp_le_length [of s "n + 16"] by auto
    with that show ?thesis
      by (simp only: crc_step_eq bit_xor_iff bit_drop_bit_eq bit_push_bit_iff bit_take_bit_iff) (simp add: add.commute)
  qed
  then have low: "take_bit 4 s = 0" using z by (intro bit_word_eqI) (auto simp: bit_take_bit_iff)
  then have "drop_bit 4 s = 0" using z by (simp add: crc_step_eq)
  then show "s = 0" using bits_ident [of 4 s] low by simp
qed (simp add: crc_step_def)

lemma crc_step_inj: "crc_step a = crc_step b \<longleftrightarrow> a = b"
proof -
  have "crc_step a = crc_step b \<longleftrightarrow> crc_step (a XOR b) = 0" by (simp add: crc_step_xor word_xor_eq_0)
  then show ?thesis by (simp add: crc_step_zero word_xor_eq_0)
qed

lemma fcs_nibble_eq: "fcs_nibble crc n = crc_step (crc XOR ucast (take_bit 4 n))"
proof -
  have "drop_bit 4 (ucast (take_bit 4 n) :: u16) = 0"
    by (rule bit_word_eqI) (simp add: bit_drop_bit_eq bit_ucast_iff bit_take_bit_iff)
  moreover have "take_bit 4 (crc XOR ucast (take_bit 4 n)) = ucast (take_bit 4 (ucast (take_bit 4 crc) XOR n))"
    by (rule bit_word_eqI) (auto simp: bit_xor_iff bit_ucast_iff bit_take_bit_iff)
  ultimately show ?thesis by (simp add: fcs_nibble_def crc_step_def and_15 Let_def)
qed

lemma crc_step_push: "crc_step (push_bit 4 (ucast (take_bit 4 n))) = ucast (take_bit 4 (n :: u8))"
proof -
  have "drop_bit 4 (push_bit 4 (ucast (take_bit 4 n))) = (ucast (take_bit 4 n) :: u16)"
    by (rule bit_word_eqI) (auto simp: bit_drop_bit_eq bit_push_bit_iff bit_ucast_iff bit_take_bit_iff)
  then show ?thesis by (simp add: crc_step_def and_15 take_bit_push_bit)
qed

lemma fcs_byte_eq: "fcs_byte crc c = crc_step (crc_step (crc XOR ucast c))"
proof -
  let ?h = "ucast (take_bit 4 (drop_bit 4 c)) :: u16"
  have split: "ucast c = ucast (take_bit 4 c) XOR push_bit 4 ?h"
    by (rule bit_word_eqI)
       (auto simp: bit_xor_iff bit_ucast_iff bit_take_bit_iff bit_push_bit_iff bit_drop_bit_eq dest: bit_imp_le_length)
  show ?thesis
    unfolding fcs_byte_def fcs_nibble_eq split by (simp add: crc_step_xor crc_step_push xor.assoc)
qed

lemma low_byte_steps:
  assumes "z < 256" "crc_step (crc_step z) < 256"
  shows "z = 0"
proof -
  have all: "\<forall>n \<in> set [1..<256]. \<not> crc_step (crc_step (of_nat n)) < 256" by code_simp
  have "unat z < 256" using assms(1) by (simp add: word_less_nat_alt)
  show ?thesis
  proof (rule ccontr)
    assume "z \<noteq> 0"
    then have "unat z \<in> set [1..<256]" using \<open>unat z < 256\<close> by (simp add: Suc_le_eq unat_gt_0)
    then show False using all assms(2) by fastforce
  qed
qed

lemma ucast_u8_less: "ucast (c :: u8) < (256 :: u16)"
  using unat_bound [of c] by (simp add: word_less_nat_alt unsigned_ucast_eq take_bit_nat_eq_self)

lemma ucast_u8_inject: "ucast a = (ucast b :: u16) \<longleftrightarrow> a = (b :: u8)"
proof
  assume "ucast a = (ucast b :: u16)"
  then have "bit (ucast a :: u16) n = bit (ucast b :: u16) n" for n by simp
  then have "n < 16 \<and> bit a n \<longleftrightarrow> n < 16 \<and> bit b n" for n by (simp add: bit_ucast_iff)
  then show "a = b" 
  proof (intro bit_word_eqI)
    fix n assume "\<And>n. n < 16 \<and> bit a n \<longleftrightarrow> n < 16 \<and> bit b n" and n: "n < LENGTH(8)"
    from this(1) [of n] n show "bit a n \<longleftrightarrow> bit b n" by simp
  qed
qed simp

section \<open>Detection\<close>

lemma fcs_byte_inj: "fcs_byte s c = fcs_byte t c \<longleftrightarrow> s = t"
proof -
  have "s XOR w = t XOR w \<longleftrightarrow> s = t" for w :: u16 by (auto simp: bit_eq_iff bit_xor_iff)
  then show ?thesis by (simp add: fcs_byte_eq crc_step_inj)
qed

lemma fcs_fold_inj: "foldl fcs_byte s cs = foldl fcs_byte t cs \<longleftrightarrow> s = t"
  by (induction cs arbitrary: s t) (simp_all add: fcs_byte_inj)

lemma fcs_window:
  assumes "fcs_byte (fcs_byte s a) b = fcs_byte (fcs_byte s a') b'"
  shows "a = a' \<and> b = b'"
proof -
  let ?d = "ucast a XOR ucast a' :: u16"
  have "crc_step (crc_step (s XOR ucast a)) XOR ucast b = crc_step (crc_step (s XOR ucast a')) XOR ucast b'"
    using assms by (simp add: fcs_byte_eq crc_step_inj)
  then have "crc_step (crc_step (s XOR ucast a)) XOR crc_step (crc_step (s XOR ucast a')) = ucast b XOR ucast b'"
    by (auto simp: bit_eq_iff bit_xor_iff)
  moreover have "(s XOR ucast a) XOR (s XOR ucast a') = ?d" by (auto simp: bit_eq_iff bit_xor_iff)
  ultimately have d: "crc_step (crc_step ?d) = ucast b XOR ucast b'" by (metis crc_step_xor)
  have small: "ucast x XOR ucast y < (256 :: u16)" for x y :: u8
  proof -
    have "ucast x XOR ucast y = (ucast (x XOR y) :: u16)" by (rule bit_word_eqI) (auto simp: bit_xor_iff bit_ucast_iff)
    then show ?thesis using ucast_u8_less by simp
  qed
  have "?d = 0" using low_byte_steps [OF small, of a a'] d small [of b b'] by simp
  moreover from this have "ucast b XOR ucast b' = (0 :: u16)" using d by simp
  ultimately show ?thesis by (simp add: word_xor_eq_0 ucast_u8_inject)
qed

text \<open>A packet carries its own check sequence exactly when the sequence of the whole packet is zero.\<close>

lemma fcs_residue: "compute_fcs (bytes @ [lo, hi]) = 0 \<longleftrightarrow> compute_fcs bytes = from_le [lo, hi]"
proof -
  have zero: "fcs_byte (fcs_byte (from_le [lo, hi]) lo) hi = 0"
  proof -
    have "from_le [lo, hi] XOR ucast lo = (push_bit 8 (ucast hi) :: u16)"
      by (rule bit_word_eqI) (auto simp: bit_xor_iff bit_or_iff bit_push_bit_iff bit_ucast_iff dest: bit_imp_le_length)
    moreover have "crc_step (crc_step (push_bit 8 (ucast hi))) = ucast hi"
    proof -
      have "crc_step w = drop_bit 4 w" if "take_bit 4 w = 0" for w using that by (simp add: crc_step_def and_15)
      moreover have "take_bit 4 (push_bit 8 (ucast hi :: u16)) = 0" "take_bit 4 (drop_bit 4 (push_bit 8 (ucast hi :: u16))) = 0"
          "drop_bit 4 (drop_bit 4 (push_bit 8 (ucast hi :: u16))) = ucast hi"
        by (rule bit_word_eqI, auto simp: bit_take_bit_iff bit_drop_bit_eq bit_push_bit_iff bit_ucast_iff dest: bit_imp_le_length)+
      ultimately show ?thesis by simp
    qed
    ultimately show ?thesis by (simp add: fcs_byte_eq)
  qed
  have "compute_fcs (bytes @ [lo, hi]) = fcs_byte (fcs_byte (compute_fcs bytes) lo) hi" by (simp add: compute_fcs_def)
  then show ?thesis using zero by (metis fcs_byte_inj)
qed

lemma last_two: "4 \<le> length packet \<Longrightarrow> packet = take (length packet - 2) packet @ [packet ! (length packet - 2), packet ! (length packet - 1)]"
proof -
  assume "4 \<le> length packet"
  then have "drop (length packet - 2) packet = [packet ! (length packet - 2), packet ! (length packet - 1)]"
    by (intro nth_equalityI) (auto simp: less_Suc_eq numeral_2_eq_2 Suc_diff_Suc)
  then show ?thesis by (metis append_take_drop_id)
qed

text \<open>
  C10: The check sequence protects the whole packet against short bursts: if a packet is not refused for its check sequence,
  any packet that differs from it in two adjacent bytes at most, the sequence itself included, is refused for it.
\<close>

theorem fcs_detects_bursts:
  assumes "mac_from_bytes bits (xs @ [a, b] @ ys) \<noteq> Ret (Inl InvalidFcs)"
    and "4 \<le> length (xs @ [a, b] @ ys)" "length (xs @ [a, b] @ ys) \<le> MAX_PHY_PACKET_SIZE" "(a, b) \<noteq> (a', b')"
  shows "mac_from_bytes bits (xs @ [a', b'] @ ys) = Ret (Inl InvalidFcs)"
proof -
  have checked: "mac_from_bytes bits packet = Ret (Inl InvalidFcs)"
    if "4 \<le> length packet" "length packet \<le> MAX_PHY_PACKET_SIZE" "compute_fcs packet \<noteq> 0" for packet
  proof -
    let ?n = "length packet"
    have "packet = take (?n - 2) packet @ [packet ! (?n - 2), packet ! (?n - 1)]"
      using that(1) by (rule last_two)
    then have "compute_fcs (take (?n - 2) packet) \<noteq> from_le [packet ! (?n - 2), packet ! (?n - 1)]"
      using that(3) fcs_residue by metis
    then show ?thesis using that(1,2) by (simp add: mac_from_bytes_def Let_def not_less)
  qed
  have "compute_fcs (xs @ [a, b] @ ys) = 0" using checked [OF assms(2,3)] assms(1) by blast
  moreover have "compute_fcs (xs @ [a, b] @ ys) \<noteq> compute_fcs (xs @ [a', b'] @ ys)"
    using fcs_window assms(4) by (auto simp: compute_fcs_def fcs_fold_inj)
  ultimately show ?thesis using assms(2,3) by (intro checked) auto
qed

text \<open>The acknowledgement frame of the repository's own tests, with its frame control damaged.\<close>

theorem fcs_detects_bursts_witness:
  "mac_from_bytes sample_mac_bits [0x03, 0x40, 0xd1, 0xbc, 0x72] = Ret (Inl InvalidFcs)"
proof -
  have "mac_from_bytes sample_mac_bits ([] @ [0x02, 0x00] @ [0xd1, 0xbc, 0x72]) \<noteq> Ret (Inl InvalidFcs)"
    using ack_frame_parses by auto
  from fcs_detects_bursts [OF this, of "0x03" "0x40"] show ?thesis by (simp add: MAX_PHY_PACKET_SIZE_def)
qed

end
