(* ===== verification/Aps_Frame.thy ===== *)
theory Aps_Frame
  imports Security_Headers Mac_Frame
begin

unbundle bit_operations_syntax

text \<open>
  \<^verbatim>\<open>ziggurat-zigbee/src/aps/frame.rs\<close>: the data, acknowledgement and command frames of the application layer, their byte
  forms in the clear and protected, and the encryption and decryption of each. The bit-packed structures are read and
  written by code that the \<^verbatim>\<open>abstract_bits\<close> crate generates; it enters as the record \<open>aps_codecs\<close>. The auxiliary header is
  in \<open>Security_Headers\<close>.
\<close>

section \<open>Data\<close>

datatype ApsFrameType = ApsDataType | ApsCommandType | ApsAckType | ApsInterpanType

datatype ApsDeliveryMode = ApsUnicast | ApsBroadcast | ApsMulticast

record ApsFrameControl =
  aps_frame_type :: ApsFrameType
  aps_delivery_mode :: ApsDeliveryMode
  aps_reserved1 :: "1 word"
  aps_security :: bool
  aps_ack_request :: bool
  aps_extended_header :: bool

record ApsAckFrameControl =
  ack_frame_type :: ApsFrameType
  ack_delivery_mode :: ApsDeliveryMode
  ack_format :: bool
  ack_security :: bool
  ack_ack_request :: bool
  ack_extended_header :: bool

datatype ApsFragmentation = NotFragmented | FirstBlock | Block

record ApsExtendedFrameControl =
  fragmentation :: ApsFragmentation

record ApsAckFrame =
  ack_frame_control :: ApsAckFrameControl
  ack_destination_endpoint :: "u8 option"
  ack_cluster_id :: "u16 option"
  ack_profile_id :: "u16 option"
  ack_source_endpoint :: "u8 option"
  ack_counter :: u8

record ApsDataHeader =
  data_frame_control :: ApsFrameControl
  group_id :: "u16 option"
  destination_endpoint :: "u8 option"
  cluster_id :: u16
  profile_id :: u16
  source_endpoint :: u8
  data_counter :: u8

text \<open>A data frame has the fields of its header and the payload.\<close>

record ApsDataFrame = ApsDataHeader +
  asdu :: "u8 list"

definition aps_command_ids :: "u8 list" where
  "aps_command_ids = [0x05, 0x06, 0x07, 0x08, 0x09, 0x0E, 0x0F, 0x10, 0x11, 0x12]"

abbreviation "TransportKeyId \<equiv> 0x05 :: u8"
abbreviation "UpdateDeviceId \<equiv> 0x06 :: u8"
abbreviation "RemoveDeviceId \<equiv> 0x07 :: u8"
abbreviation "RequestKeyId \<equiv> 0x08 :: u8"
abbreviation "SwitchKeyId \<equiv> 0x09 :: u8"
abbreviation "TunnelId \<equiv> 0x0E :: u8"
abbreviation "VerifyKeyId \<equiv> 0x0F :: u8"
abbreviation "ConfirmKeyId \<equiv> 0x10 :: u8"

datatype ApsStandardKeyType = StandardNetworkKey | ApplicationLinkKey | TrustCenterLinkKey

definition standard_key_code :: "ApsStandardKeyType \<Rightarrow> u8" where
  "standard_key_code t = (case t of StandardNetworkKey \<Rightarrow> 0x01 | ApplicationLinkKey \<Rightarrow> 0x03 | TrustCenterLinkKey \<Rightarrow> 0x04)"

definition standard_key_of :: "u8 \<Rightarrow> ApsStandardKeyType option" where
  "standard_key_of b =
     (if b = 0x01 then Some StandardNetworkKey else if b = 0x03 then Some ApplicationLinkKey
      else if b = 0x04 then Some TrustCenterLinkKey else None)"

record ApsTrustCenterLinkKeyDescriptor =
  tc_key :: Key
  tc_destination_address :: Eui64
  tc_source_address :: Eui64

record ApsNetworkKeyDescriptor =
  nk_key :: Key
  nk_sequence_number :: u8
  nk_destination_address :: Eui64
  nk_source_address :: Eui64

record ApsApplicationLinkKeyDescriptor =
  al_key :: Key
  al_partner_address :: Eui64
  initiator_flag :: u8

datatype ApsTransportKeyDescriptor =
    TcLinkKey ApsTrustCenterLinkKeyDescriptor
  | NwkKey ApsNetworkKeyDescriptor
  | AppLinkKey ApsApplicationLinkKeyDescriptor

record ApsTransportKeyCommandFrame =
  tk_standard_key_type :: ApsStandardKeyType
  key_descriptor :: ApsTransportKeyDescriptor

datatype ApsUpdateDeviceStatus =
    StandardDeviceSecuredRejoin | StandardDeviceUnsecuredJoin | DeviceLeft | StandardDeviceTrustCenterRejoin

record ApsUpdateDeviceCommandFrame =
  device_address :: Eui64
  device_short_address :: Nwk
  update_status :: ApsUpdateDeviceStatus

record ApsRemoveDeviceCommandFrame =
  target_address :: Eui64

datatype ApsRequestKeyType = RequestApplicationLinkKey | RequestTrustCenterLinkKey

definition request_key_code :: "ApsRequestKeyType \<Rightarrow> u8" where
  "request_key_code t = (case t of RequestApplicationLinkKey \<Rightarrow> 0x02 | RequestTrustCenterLinkKey \<Rightarrow> 0x04)"

definition request_key_of :: "u8 \<Rightarrow> ApsRequestKeyType option" where
  "request_key_of b = (if b = 0x02 then Some RequestApplicationLinkKey else if b = 0x04 then Some RequestTrustCenterLinkKey else None)"

record ApsRequestKeyCommandFrame =
  key_type :: ApsRequestKeyType
  partner_address :: "Eui64 option"

record ApsSwitchKeyCommandFrame =
  sk_sequence_number :: u8

record ApsTunnelCommandFrame =
  tunnel_destination_address :: Eui64
  tunneled_frame :: "u8 list"

record ApsVerifyKeyCommandFrame =
  vk_standard_key_type :: ApsStandardKeyType
  vk_source_address :: Eui64
  initiator_verify_key_hash :: Key

record ApsConfirmKeyCommandFrame =
  ck_status :: u8
  ck_standard_key_type :: ApsStandardKeyType
  ck_destination_address :: Eui64

datatype ApsCommandFrameCommand =
    TransportKey ApsTransportKeyCommandFrame
  | UpdateDevice ApsUpdateDeviceCommandFrame
  | RemoveDevice ApsRemoveDeviceCommandFrame
  | RequestKey ApsRequestKeyCommandFrame
  | SwitchKey ApsSwitchKeyCommandFrame
  | Tunnel ApsTunnelCommandFrame
  | VerifyKey ApsVerifyKeyCommandFrame
  | ConfirmKey ApsConfirmKeyCommandFrame

record ApsCommandFrame =
  cmd_frame_control :: ApsFrameControl
  cmd_counter :: u8
  aps_command :: ApsCommandFrameCommand

record EncryptedApsCommandFrame =
  ec_frame_control :: ApsFrameControl
  ec_counter :: u8
  ec_aux_header :: ApsAuxHeader
  ec_ciphertext :: "u8 list"

record EncryptedApsDataFrame =
  ed_header :: ApsDataHeader
  ed_aux_header :: ApsAuxHeader
  ed_ciphertext :: "u8 list"

record EncryptedApsAckFrame =
  ea_header :: ApsAckFrame
  ea_aux_header :: ApsAuxHeader
  ea_ciphertext :: "u8 list"

datatype ApsFrame =
    ApsData ApsDataFrame
  | ApsEncryptedData EncryptedApsDataFrame
  | ApsAck ApsAckFrame
  | ApsEncryptedAck EncryptedApsAckFrame
  | ApsCommand ApsCommandFrame
  | ApsEncryptedCommand EncryptedApsCommandFrame

text \<open>The generated readers and writers.\<close>

record aps_codecs =
  read_afc :: "u8 list \<Rightarrow> ApsFrameControl option"
  write_afc :: "ApsFrameControl \<Rightarrow> u8 list option"
  read_ack_fc :: "u8 list \<Rightarrow> ApsAckFrameControl option"
  write_ack_fc :: "ApsAckFrameControl \<Rightarrow> u8 list option"
  read_efc :: "u8 list \<Rightarrow> ApsExtendedFrameControl option"
  read_tc_key :: "u8 list \<Rightarrow> ApsTrustCenterLinkKeyDescriptor option"
  write_tc_key :: "ApsTrustCenterLinkKeyDescriptor \<Rightarrow> u8 list option"
  read_nwk_key :: "u8 list \<Rightarrow> ApsNetworkKeyDescriptor option"
  write_nwk_key :: "ApsNetworkKeyDescriptor \<Rightarrow> u8 list option"
  read_app_key :: "u8 list \<Rightarrow> ApsApplicationLinkKeyDescriptor option"
  write_app_key :: "ApsApplicationLinkKeyDescriptor \<Rightarrow> u8 list option"
  read_update :: "u8 list \<Rightarrow> ApsUpdateDeviceCommandFrame option"
  write_update :: "ApsUpdateDeviceCommandFrame \<Rightarrow> u8 list option"
  read_remove :: "u8 list \<Rightarrow> ApsRemoveDeviceCommandFrame option"
  write_remove :: "ApsRemoveDeviceCommandFrame \<Rightarrow> u8 list option"
  read_switch :: "u8 list \<Rightarrow> ApsSwitchKeyCommandFrame option"
  write_switch :: "ApsSwitchKeyCommandFrame \<Rightarrow> u8 list option"
  read_verify :: "u8 list \<Rightarrow> ApsVerifyKeyCommandFrame option"
  write_verify :: "ApsVerifyKeyCommandFrame \<Rightarrow> u8 list option"
  read_confirm :: "u8 list \<Rightarrow> ApsConfirmKeyCommandFrame option"
  write_confirm :: "ApsConfirmKeyCommandFrame \<Rightarrow> u8 list option"
  aps_read_ctl :: ctl_reader
  aps_write_ctl :: ctl_writer

definition bits_result :: "'a option \<Rightarrow> 'a parse" where
  "bits_result x = Ret (case x of None \<Rightarrow> Inl ParseBits | Some v \<Rightarrow> Inr v)"

definition address_result :: "MacParseError + 'a \<Rightarrow> 'a parse" where
  "address_result x = Ret (case x of Inl e \<Rightarrow> Inl (ParseAddress e) | Inr v \<Rightarrow> Inr v)"

text \<open>\<^verbatim>\<open>FrameBytes::from_slice\<close>, with the error its callers give.\<close>

definition frame_bytes :: "string \<Rightarrow> u8 list \<Rightarrow> u8 list parse" where
  "frame_bytes ty bytes = Ret (if length bytes \<le> MAX_PHY_PACKET_SIZE then Inr bytes else Inl (ParseTooLong ty))"

section \<open>Acknowledgements\<close>

definition ack_from_bytes :: "aps_codecs \<Rightarrow> u8 list \<Rightarrow> ApsAckFrame parse" where
  "ack_from_bytes ac bytes =
     (if bytes = [] then Ret (Inl (ParseUnexpectedEnd ''ApsAckFrame''))
      else
        parse_bind (bits_result (read_ack_fc ac bytes)) (\<lambda>fc.
        let r = drop 1 bytes in
        if ack_frame_type fc \<noteq> ApsAckType then Ret (Inl (ParseUnsupported ''non-Ack frame type for ApsAckFrame''))
        else if ack_format fc then
          if r = [] then Ret (Inl (ParseUnexpectedEnd ''ApsAckFrame''))
          else Ret (Inr \<lparr>ack_frame_control = fc, ack_destination_endpoint = None, ack_cluster_id = None, ack_profile_id = None,
                         ack_source_endpoint = None, ack_counter = r ! 0\<rparr>)
        else if length r < 7 then Ret (Inl (ParseUnexpectedEnd ''ApsAckFrame''))
        else Ret (Inr \<lparr>ack_frame_control = fc, ack_destination_endpoint = Some (r ! 0),
                       ack_cluster_id = Some (from_le [r ! 1, r ! 2]), ack_profile_id = Some (from_le [r ! 3, r ! 4]),
                       ack_source_endpoint = Some (r ! 5), ack_counter = r ! 6\<rparr>)))"

definition ack_to_bytes :: "aps_codecs \<Rightarrow> ApsAckFrame \<Rightarrow> u8 list run" where
  "ack_to_bytes ac f =
     run_bind (extend_abstract_bits (write_ack_fc ac (ack_frame_control f))) (\<lambda>fc.
       Ret (fc @ opt_bytes (\<lambda>b. [b]) (ack_destination_endpoint f) @ opt_bytes (to_le 2) (ack_cluster_id f) @
         opt_bytes (to_le 2) (ack_profile_id f) @ opt_bytes (\<lambda>b. [b]) (ack_source_endpoint f) @ [ack_counter f]))"

section \<open>Data frames\<close>

definition data_header_deserialize :: "aps_codecs \<Rightarrow> u8 list \<Rightarrow> (ApsDataHeader \<times> u8 list) parse" where
  "data_header_deserialize ac bytes =
     (if length bytes < 8 then Ret (Inl (ParseUnexpectedEnd ''ApsDataFrame''))
      else
        parse_bind (bits_result (read_afc ac bytes)) (\<lambda>fc.
        let r0 = drop 1 bytes in
        if aps_reserved1 fc \<noteq> 0 then Ret (Inl (ParseUnsupported ''APS frame control reserved bits''))
        else
          parse_bind
            (if aps_delivery_mode fc = ApsMulticast then
               if length r0 < 8 then Ret (Inl (ParseUnexpectedEnd ''multicast ApsDataFrame''))
               else Ret (Inr (Some (from_le [r0 ! 0, r0 ! 1]), None, drop 2 r0))
             else Ret (Inr (None, Some (r0 ! 0), drop 1 r0))) (\<lambda>(grp, endpoint, r).
          let h = \<lparr>data_frame_control = fc, group_id = grp, destination_endpoint = endpoint,
                   cluster_id = from_le [r ! 0, r ! 1], profile_id = from_le [r ! 2, r ! 3], source_endpoint = r ! 4,
                   data_counter = r ! 5\<rparr>;
              remaining = drop 6 r
          in if aps_extended_header fc then
               parse_bind (bits_result (read_efc ac remaining)) (\<lambda>e.
                 if length remaining < (case fragmentation e of NotFragmented \<Rightarrow> 1 | _ \<Rightarrow> 2)
                 then Ret (Inl (ParseUnexpectedEnd ''APS extended header''))
                 else Ret (Inl (ParseUnsupported ''APS fragmentation'')))
             else Ret (Inr (h, remaining)))))"

definition data_header_to_bytes :: "aps_codecs \<Rightarrow> ApsDataHeader \<Rightarrow> u8 list run" where
  "data_header_to_bytes ac h =
     run_bind (extend_abstract_bits (write_afc ac (data_frame_control h))) (\<lambda>fc.
       Ret (fc @ opt_bytes (to_le 2) (group_id h) @ opt_bytes (\<lambda>b. [b]) (destination_endpoint h) @
         to_le 2 (cluster_id h) @ to_le 2 (profile_id h) @ [source_endpoint h, data_counter h]))"

definition into_frame :: "ApsDataHeader \<Rightarrow> u8 list \<Rightarrow> ApsDataFrame" where
  "into_frame h plain = ApsDataHeader.extend h \<lparr>asdu = plain\<rparr>"

definition data_header :: "ApsDataFrame \<Rightarrow> ApsDataHeader" where
  "data_header f = ApsDataHeader.truncate f"

definition data_from_bytes :: "aps_codecs \<Rightarrow> u8 list \<Rightarrow> ApsDataFrame parse" where
  "data_from_bytes ac bytes =
     parse_bind (data_header_deserialize ac bytes) (\<lambda>(h, remaining).
     parse_bind (frame_bytes ''ASDU'' remaining) (\<lambda>plain. Ret (Inr (into_frame h plain))))"

definition data_to_bytes :: "aps_codecs \<Rightarrow> ApsDataFrame \<Rightarrow> u8 list run" where
  "data_to_bytes ac f = run_bind (data_header_to_bytes ac (data_header f)) (\<lambda>h. Ret (h @ asdu f))"

section \<open>Commands\<close>

definition transport_key_from_bytes :: "aps_codecs \<Rightarrow> u8 list \<Rightarrow> ApsTransportKeyCommandFrame parse" where
  "transport_key_from_bytes ac bytes =
     (if length bytes < 2 then Ret (Inl (ParseUnexpectedEnd ''ApsTransportKeyCommandFrame''))
      else case standard_key_of (bytes ! 0) of
        None \<Rightarrow> Ret (Inl (ParseInvalidDiscriminant ''ApsStandardKeyType'' (bytes ! 0)))
      | Some ty \<Rightarrow>
          parse_bind
            (case ty of
               StandardNetworkKey \<Rightarrow> bits_result (map_option NwkKey (read_nwk_key ac (drop 1 bytes)))
             | ApplicationLinkKey \<Rightarrow> bits_result (map_option AppLinkKey (read_app_key ac (drop 1 bytes)))
             | TrustCenterLinkKey \<Rightarrow> bits_result (map_option TcLinkKey (read_tc_key ac (drop 1 bytes))))
            (\<lambda>d. Ret (Inr \<lparr>tk_standard_key_type = ty, key_descriptor = d\<rparr>)))"

definition transport_key_to_bytes :: "aps_codecs \<Rightarrow> ApsTransportKeyCommandFrame \<Rightarrow> u8 list run" where
  "transport_key_to_bytes ac c =
     run_bind (unwrap (case key_descriptor c of
                         TcLinkKey d \<Rightarrow> write_tc_key ac d | NwkKey d \<Rightarrow> write_nwk_key ac d | AppLinkKey d \<Rightarrow> write_app_key ac d))
       (\<lambda>bytes. Ret (standard_key_code (tk_standard_key_type c) # bytes))"

definition request_key_from_bytes :: "u8 list \<Rightarrow> ApsRequestKeyCommandFrame parse" where
  "request_key_from_bytes bytes =
     (if bytes = [] then Ret (Inl (ParseUnexpectedEnd ''ApsRequestKeyCommandFrame''))
      else case request_key_of (bytes ! 0) of
        None \<Rightarrow> Ret (Inl (ParseInvalidDiscriminant ''ApsRequestKeyType'' (bytes ! 0)))
      | Some ty \<Rightarrow>
          parse_bind
            (case ty of
               RequestApplicationLinkKey \<Rightarrow>
                 parse_bind (address_result (eui64_deserialize (drop 1 bytes))) (\<lambda>(a, _). Ret (Inr (Some a)))
             | RequestTrustCenterLinkKey \<Rightarrow> Ret (Inr None))
            (\<lambda>a. Ret (Inr \<lparr>key_type = ty, partner_address = a\<rparr>)))"

definition request_key_to_bytes :: "ApsRequestKeyCommandFrame \<Rightarrow> u8 list" where
  "request_key_to_bytes c = request_key_code (key_type c) # opt_bytes eui64_to_bytes (partner_address c)"

definition tunnel_from_bytes :: "u8 list \<Rightarrow> ApsTunnelCommandFrame parse" where
  "tunnel_from_bytes bytes =
     parse_bind (address_result (eui64_deserialize bytes)) (\<lambda>(a, remaining).
     parse_bind (frame_bytes ''tunneled frame'' remaining) (\<lambda>f.
       Ret (Inr \<lparr>tunnel_destination_address = a, tunneled_frame = f\<rparr>)))"

definition tunnel_to_bytes :: "ApsTunnelCommandFrame \<Rightarrow> u8 list" where
  "tunnel_to_bytes c = eui64_to_bytes (tunnel_destination_address c) @ tunneled_frame c"

definition aps_command_id :: "ApsCommandFrameCommand \<Rightarrow> u8" where
  "aps_command_id c =
     (case c of TransportKey _ \<Rightarrow> TransportKeyId | UpdateDevice _ \<Rightarrow> UpdateDeviceId | RemoveDevice _ \<Rightarrow> RemoveDeviceId
      | RequestKey _ \<Rightarrow> RequestKeyId | SwitchKey _ \<Rightarrow> SwitchKeyId | Tunnel _ \<Rightarrow> TunnelId | VerifyKey _ \<Rightarrow> VerifyKeyId
      | ConfirmKey _ \<Rightarrow> ConfirmKeyId)"

definition parse_map :: "('a \<Rightarrow> 'b) \<Rightarrow> 'a parse \<Rightarrow> 'b parse" where
  "parse_map f p = parse_bind p (\<lambda>x. Ret (Inr (f x)))"

definition command_body_from_bytes :: "aps_codecs \<Rightarrow> u8 \<Rightarrow> u8 list \<Rightarrow> ApsCommandFrameCommand parse" where
  "command_body_from_bytes ac i body =
     (if i = TransportKeyId then parse_map TransportKey (transport_key_from_bytes ac body)
      else if i = UpdateDeviceId then bits_result (map_option UpdateDevice (read_update ac body))
      else if i = RemoveDeviceId then bits_result (map_option RemoveDevice (read_remove ac body))
      else if i = RequestKeyId then parse_map RequestKey (request_key_from_bytes body)
      else if i = SwitchKeyId then bits_result (map_option SwitchKey (read_switch ac body))
      else if i = TunnelId then parse_map Tunnel (tunnel_from_bytes body)
      else if i = VerifyKeyId then bits_result (map_option VerifyKey (read_verify ac body))
      else if i = ConfirmKeyId then bits_result (map_option ConfirmKey (read_confirm ac body))
      else Ret (Inl (ParseUnsupported ''command ID for ApsCommandFrame'')))"

definition command_from_bytes :: "aps_codecs \<Rightarrow> u8 list \<Rightarrow> ApsCommandFrame parse" where
  "command_from_bytes ac bytes =
     (if length bytes < 3 then Ret (Inl (ParseUnexpectedEnd ''ApsCommandFrame''))
      else
        parse_bind (bits_result (read_afc ac bytes)) (\<lambda>fc.
        if bytes ! 2 \<notin> set aps_command_ids then Ret (Inl (ParseInvalidDiscriminant ''ApsCommandId'' (bytes ! 2)))
        else
          parse_bind (command_body_from_bytes ac (bytes ! 2) (drop 3 bytes)) (\<lambda>c.
            Ret (Inr \<lparr>cmd_frame_control = fc, cmd_counter = bytes ! 1, aps_command = c\<rparr>))))"

definition command_payload_to_bytes :: "aps_codecs \<Rightarrow> ApsCommandFrameCommand \<Rightarrow> u8 list run" where
  "command_payload_to_bytes ac c =
     run_bind
       (case c of
          TransportKey t \<Rightarrow> transport_key_to_bytes ac t
        | UpdateDevice u \<Rightarrow> unwrap (write_update ac u)
        | RemoveDevice r \<Rightarrow> unwrap (write_remove ac r)
        | RequestKey r \<Rightarrow> Ret (request_key_to_bytes r)
        | SwitchKey s \<Rightarrow> unwrap (write_switch ac s)
        | Tunnel t \<Rightarrow> Ret (tunnel_to_bytes t)
        | VerifyKey v \<Rightarrow> unwrap (write_verify ac v)
        | ConfirmKey k \<Rightarrow> unwrap (write_confirm ac k))
       (\<lambda>body. Ret (aps_command_id c # body))"

definition command_header_to_bytes :: "aps_codecs \<Rightarrow> ApsFrameControl \<Rightarrow> u8 \<Rightarrow> u8 list run" where
  "command_header_to_bytes ac control counter =
     run_bind (extend_abstract_bits (write_afc ac control)) (\<lambda>fc. Ret (fc @ [counter]))"

definition command_to_bytes :: "aps_codecs \<Rightarrow> ApsCommandFrame \<Rightarrow> u8 list run" where
  "command_to_bytes ac f =
     run_bind (command_header_to_bytes ac (cmd_frame_control f) (cmd_counter f)) (\<lambda>h.
     run_bind (command_payload_to_bytes ac (aps_command f)) (\<lambda>p. Ret (h @ p)))"

section \<open>Protection\<close>

definition encrypt_aps_payload ::
  "aps_codecs \<Rightarrow> ccm_seal \<Rightarrow> Key \<Rightarrow> ApsAuxHeader \<Rightarrow> u8 list \<Rightarrow> u8 list \<Rightarrow> u8 list run" where
  "encrypt_aps_payload ac seal key aux header plaintext =
     (let modified = aps_aux_get_modified EncMic32 aux in
      run_bind (unwrap (extended_source aux)) (\<lambda>src.
        if length plaintext \<le> MAX_PHY_PACKET_SIZE
        then encrypt_ccm seal key (aps_get_nonce (aps_write_ctl ac) modified src)
               (header @ aps_aux_to_bytes (aps_write_ctl ac) modified) plaintext
        else Panic))"

definition decrypt_aps_payload ::
  "aps_codecs \<Rightarrow> ccm_open \<Rightarrow> Key \<Rightarrow> ApsAuxHeader \<Rightarrow> Eui64 \<Rightarrow> u8 list \<Rightarrow> u8 list \<Rightarrow> u8 list parse" where
  "decrypt_aps_payload ac open_detached key aux src header tagged =
     (let modified = aps_aux_get_modified EncMic32 aux;
          nonce = aps_get_nonce (aps_write_ctl ac) modified (case extended_source aux of Some s \<Rightarrow> s | None \<Rightarrow> src) in
      if length tagged \<le> MAX_PHY_PACKET_SIZE
      then Ret (case decrypt_ccm open_detached key nonce (header @ aps_aux_to_bytes (aps_write_ctl ac) modified) tagged of
                  Inl e \<Rightarrow> Inl (ParseDecrypt e) | Inr plain \<Rightarrow> Inr plain)
      else Panic)"

definition command_encrypt ::
  "aps_codecs \<Rightarrow> ccm_seal \<Rightarrow> ApsCommandFrame \<Rightarrow> Key \<Rightarrow> ApsAuxHeader \<Rightarrow> EncryptedApsCommandFrame run" where
  "command_encrypt ac seal f key aux =
     run_bind (command_header_to_bytes ac (cmd_frame_control f) (cmd_counter f)) (\<lambda>h.
     run_bind (command_payload_to_bytes ac (aps_command f)) (\<lambda>p.
     run_bind (encrypt_aps_payload ac seal key aux h p) (\<lambda>c.
       Ret \<lparr>ec_frame_control = cmd_frame_control f, ec_counter = cmd_counter f, ec_aux_header = aux, ec_ciphertext = c\<rparr>)))"

definition aux_result :: "aps_codecs \<Rightarrow> u8 list \<Rightarrow> (ApsAuxHeader \<times> u8 list) parse" where
  "aux_result ac bytes = Ret (aps_aux_deserialize (aps_read_ctl ac) bytes)"

definition encrypted_command_from_bytes :: "aps_codecs \<Rightarrow> u8 list \<Rightarrow> EncryptedApsCommandFrame parse" where
  "encrypted_command_from_bytes ac bytes =
     (if length bytes < 7 then Ret (Inl (ParseUnexpectedEnd ''EncryptedApsCommandFrame''))
      else
        parse_bind (bits_result (read_afc ac bytes)) (\<lambda>fc.
        parse_bind (aux_result ac (drop 2 bytes)) (\<lambda>(aux, remaining).
        parse_bind (frame_bytes ''ciphertext'' remaining) (\<lambda>c.
          Ret (Inr \<lparr>ec_frame_control = fc, ec_counter = bytes ! 1, ec_aux_header = aux, ec_ciphertext = c\<rparr>)))))"

definition encrypted_command_to_bytes :: "aps_codecs \<Rightarrow> EncryptedApsCommandFrame \<Rightarrow> u8 list run" where
  "encrypted_command_to_bytes ac f =
     run_bind (command_header_to_bytes ac (ec_frame_control f) (ec_counter f)) (\<lambda>h.
       Ret (h @ aps_aux_to_bytes (aps_write_ctl ac) (ec_aux_header f) @ ec_ciphertext f))"

definition command_decrypt ::
  "aps_codecs \<Rightarrow> ccm_open \<Rightarrow> EncryptedApsCommandFrame \<Rightarrow> Key \<Rightarrow> ApsCommandFrame parse" where
  "command_decrypt ac open_detached f key =
     (case extended_source (ec_aux_header f) of
        None \<Rightarrow> Ret (Inl (ParseUnsupported ''APS command frames without an extended nonce''))
      | Some src \<Rightarrow>
          run_bind (command_header_to_bytes ac (ec_frame_control f) (ec_counter f)) (\<lambda>header.
          parse_bind (decrypt_aps_payload ac open_detached key (ec_aux_header f) src header (ec_ciphertext f)) (\<lambda>plain.
            command_from_bytes ac (header @ plain))))"

definition data_encrypt :: "aps_codecs \<Rightarrow> ccm_seal \<Rightarrow> ApsDataFrame \<Rightarrow> Key \<Rightarrow> ApsAuxHeader \<Rightarrow> EncryptedApsDataFrame run" where
  "data_encrypt ac seal f key aux =
     run_bind (data_header_to_bytes ac (data_header f)) (\<lambda>h.
     run_bind (encrypt_aps_payload ac seal key aux h (asdu f)) (\<lambda>c.
       Ret \<lparr>ed_header = data_header f, ed_aux_header = aux, ed_ciphertext = c\<rparr>))"

definition encrypted_data_from_bytes :: "aps_codecs \<Rightarrow> u8 list \<Rightarrow> EncryptedApsDataFrame parse" where
  "encrypted_data_from_bytes ac bytes =
     parse_bind (data_header_deserialize ac bytes) (\<lambda>(h, r1).
     parse_bind (aux_result ac r1) (\<lambda>(aux, r2).
     parse_bind (frame_bytes ''ciphertext'' r2) (\<lambda>c.
       Ret (Inr \<lparr>ed_header = h, ed_aux_header = aux, ed_ciphertext = c\<rparr>))))"

definition encrypted_data_to_bytes :: "aps_codecs \<Rightarrow> EncryptedApsDataFrame \<Rightarrow> u8 list run" where
  "encrypted_data_to_bytes ac f =
     run_bind (data_header_to_bytes ac (ed_header f)) (\<lambda>h.
       Ret (h @ aps_aux_to_bytes (aps_write_ctl ac) (ed_aux_header f) @ ed_ciphertext f))"

definition data_decrypt :: "aps_codecs \<Rightarrow> ccm_open \<Rightarrow> EncryptedApsDataFrame \<Rightarrow> Key \<Rightarrow> Eui64 \<Rightarrow> ApsDataFrame parse" where
  "data_decrypt ac open_detached f key src =
     run_bind (data_header_to_bytes ac (ed_header f)) (\<lambda>h.
     parse_bind (decrypt_aps_payload ac open_detached key (ed_aux_header f) src h (ed_ciphertext f)) (\<lambda>plain.
       Ret (Inr (into_frame (ed_header f) plain))))"

definition ack_encrypt :: "aps_codecs \<Rightarrow> ccm_seal \<Rightarrow> ApsAckFrame \<Rightarrow> Key \<Rightarrow> ApsAuxHeader \<Rightarrow> EncryptedApsAckFrame run" where
  "ack_encrypt ac seal f key aux =
     run_bind (ack_to_bytes ac f) (\<lambda>h.
     run_bind (encrypt_aps_payload ac seal key aux h []) (\<lambda>c.
       Ret \<lparr>ea_header = f, ea_aux_header = aux, ea_ciphertext = c\<rparr>))"

definition encrypted_ack_from_bytes :: "aps_codecs \<Rightarrow> u8 list \<Rightarrow> EncryptedApsAckFrame parse" where
  "encrypted_ack_from_bytes ac bytes =
     parse_bind (ack_from_bytes ac bytes) (\<lambda>h.
     let header_len = (if ack_format (ack_frame_control h) then 2 else 8) in
     if length bytes < header_len then Panic
     else
       parse_bind (aux_result ac (drop header_len bytes)) (\<lambda>(aux, remaining).
       parse_bind (frame_bytes ''ciphertext'' remaining) (\<lambda>c.
         Ret (Inr \<lparr>ea_header = h, ea_aux_header = aux, ea_ciphertext = c\<rparr>))))"

definition encrypted_ack_to_bytes :: "aps_codecs \<Rightarrow> EncryptedApsAckFrame \<Rightarrow> u8 list run" where
  "encrypted_ack_to_bytes ac f =
     run_bind (ack_to_bytes ac (ea_header f)) (\<lambda>h.
       Ret (h @ aps_aux_to_bytes (aps_write_ctl ac) (ea_aux_header f) @ ea_ciphertext f))"

definition ack_decrypt :: "aps_codecs \<Rightarrow> ccm_open \<Rightarrow> EncryptedApsAckFrame \<Rightarrow> Key \<Rightarrow> Eui64 \<Rightarrow> ApsAckFrame parse" where
  "ack_decrypt ac open_detached f key src =
     run_bind (ack_to_bytes ac (ea_header f)) (\<lambda>h.
     parse_bind (decrypt_aps_payload ac open_detached key (ea_aux_header f) src h (ea_ciphertext f)) (\<lambda>_.
       Ret (Inr (ea_header f))))"

definition parse_aps_frame :: "aps_codecs \<Rightarrow> u8 list \<Rightarrow> ApsFrame parse" where
  "parse_aps_frame ac bytes =
     (case bytes of
        [] \<Rightarrow> Ret (Inl (ParseUnexpectedEnd ''ApsFrame''))
      | b # _ \<Rightarrow>
          (let ty = b AND 0b11; security = (b AND 0b00100000 \<noteq> 0) in
           if ty = 0b01 then
             if security then parse_map ApsEncryptedCommand (encrypted_command_from_bytes ac bytes)
             else parse_map ApsCommand (command_from_bytes ac bytes)
           else if ty = 0b00 then
             if security then parse_map ApsEncryptedData (encrypted_data_from_bytes ac bytes)
             else parse_map ApsData (data_from_bytes ac bytes)
           else if ty = 0b10 then
             if security then parse_map ApsEncryptedAck (encrypted_ack_from_bytes ac bytes)
             else parse_map ApsAck (ack_from_bytes ac bytes)
           else Ret (Inl (ParseUnsupported ''Interpan''))))"

end
