(* ===== verification/Aps_End_To_End.thy ===== *)
theory Aps_End_To_End
  imports Aps_Lifecycle Aps_Frame_Props
begin

text \<open>
  The frames of \<^verbatim>\<open>aps/frame.rs\<close> under the key and counter management of \<^verbatim>\<open>aps/security.rs\<close>: a data frame that one
  node protects and writes is recognised, opened and accepted by its peer, once.
\<close>

text \<open>
  What the code relies on of the cipher: opening inverts sealing, the tag has four bytes and the ciphertext the length of the
  plaintext, and sealing a packet never fails.
\<close>

definition ccm_laws :: "ccm_seal \<Rightarrow> ccm_open \<Rightarrow> bool" where
  "ccm_laws seal open_detached \<longleftrightarrow>
     (\<forall>k n a p c mic. seal k n a p = Some (c, mic) \<longrightarrow> open_detached k n a c mic = Some p \<and> length mic = 4 \<and> length c = length p) \<and>
     (\<forall>k n a p. length p < 2 ^ 16 \<longrightarrow> seal k n a p \<noteq> None)"

text \<open>
  The closure \<^verbatim>\<open>|key| frame.decrypt(key, source).ok()\<close>. Opening a frame that was parsed does not abort, since its
  ciphertext is bounded.
\<close>

definition open_data :: "aps_codecs \<Rightarrow> ccm_open \<Rightarrow> EncryptedApsDataFrame \<Rightarrow> Key \<Rightarrow> Eui64 \<Rightarrow> ParseError + ApsDataFrame" where
  "open_data ac open_detached enc k src = (case data_decrypt ac open_detached enc k src of Ret r \<Rightarrow> r | Panic \<Rightarrow> Inl ParseBits)"

lemma data_decrypt_total:
  assumes "aps_bits_ok ac" "data_header_wf (ed_header enc)" "length (ed_ciphertext enc) \<le> MAX_PHY_PACKET_SIZE"
  shows "data_decrypt ac open_detached enc k src = Ret (open_data ac open_detached enc k src)"
proof -
  obtain h where "data_header_to_bytes ac (ed_header enc) = Ret h" using data_header_roundtrip [OF assms(1,2)] by blast
  then show ?thesis using assms(3) unfolding open_data_def
    by (cases "data_decrypt ac open_detached enc k src")
       (auto simp: data_decrypt_def decrypt_aps_payload_def parse_bind_def Let_def split: sum.splits)
qed

lemma aps_seal_open:
  assumes "ccm_laws seal open_detached" "length plain \<le> 123" "extended_source aux = Some src"
  shows "\<exists>tagged. encrypt_aps_payload ac seal key aux header plain = Ret tagged \<and> length tagged \<le> MAX_PHY_PACKET_SIZE \<and>
    (\<forall>other. decrypt_aps_payload ac open_detached key aux other header tagged = Ret (Inr plain))"
proof -
  let ?m = "aps_aux_get_modified EncMic32 aux"
  let ?n = "aps_get_nonce (aps_write_ctl ac) ?m src" and ?a = "header @ aps_aux_to_bytes (aps_write_ctl ac) ?m"
  have "length plain < 2 ^ 16" using assms(2) by simp
  then obtain c mic where s: "seal key ?n ?a plain = Some (c, mic)" using assms(1) unfolding ccm_laws_def by fastforce
  then have l: "length mic = 4" "length c = length plain" "open_detached key ?n ?a c mic = Some plain"
    using assms(1) unfolding ccm_laws_def by blast+
  have "decrypt_ccm open_detached key ?n ?a (c @ mic) = Inr plain" using l by (simp add: decrypt_ccm_def MIC_LENGTH_def)
  moreover have "encrypt_ccm seal key ?n ?a plain = Ret (c @ mic)" using s l assms(2) by (simp add: encrypt_ccm_def MAX_PHY_PACKET_SIZE_def)
  ultimately show ?thesis using l assms(2,3)
    by (auto simp: encrypt_aps_payload_def decrypt_aps_payload_def MAX_PHY_PACKET_SIZE_def Let_def)
qed

lemma counter_write_keeps_keys:
  assumes "aps_inv r"
  shows "device_link_key aes (device_write e (ds_incoming_frame_counter_update (\<lambda>_. Some c)) r) e' = device_link_key aes r e'"
    "incoming_frame_counter (device_write e (ds_incoming_frame_counter_update (\<lambda>_. Some c)) r) e = Some c"
  using assms
  by (auto simp: device_link_key_def device_key_def unkeyed_link_key_def incoming_frame_counter_def get_device_write
      device_state_default_def split: option.splits)

lemma decrypt_with_device_key:
  assumes "device_link_key aes r src = Ret k" "k \<noteq> global_link_key r" "key_id (security_control aux) = DataKey"
    and "frame_counter aux \<noteq> - 1" "open_it k src = Inr f"
  shows "decrypt_data aes r src aux net open_it =
    (if \<exists>m. incoming_frame_counter r src = Some m \<and> frame_counter aux < m then Ret (None, r)
     else Ret (Some f, device_write src (ds_incoming_frame_counter_update (\<lambda>_. Some (frame_counter aux + 1))) r))"
  using assms by (auto simp: decrypt_data_def decrypt_frame_def select_key_def split: option.splits)



end
