(* ===== verification/Act.thy ===== *)
theory Act
  imports Prelude
begin

text \<open>
  Operations on a shared state that may abort, for the driver: a handler takes the state and returns its result with the
  new state, or \<open>Panic\<close>. The locale \<open>contract\<close> is what the driver's handlers promise one another: every handler
  started in a state with the invariant returns, keeps the invariant, and relates the two states. Its lemmas compose handlers.
\<close>

section \<open>Operations\<close>

type_synonym ('s, 'a) act = "'s \<Rightarrow> ('a \<times> 's) run"

definition act_return :: "'a \<Rightarrow> ('s, 'a) act" where
  "act_return x = (\<lambda>s. Ret (x, s))"

definition act_bind :: "('s, 'a) act \<Rightarrow> ('a \<Rightarrow> ('s, 'b) act) \<Rightarrow> ('s, 'b) act" where
  "act_bind m f = (\<lambda>s. run_bind (m s) (\<lambda>(x, s'). f x s'))"

definition act_seq :: "('s, 'a) act \<Rightarrow> ('s, 'b) act \<Rightarrow> ('s, 'b) act" where
  "act_seq m k = act_bind m (\<lambda>_. k)"

definition act_gets :: "('s \<Rightarrow> 'a) \<Rightarrow> ('s, 'a) act" where
  "act_gets f = (\<lambda>s. Ret (f s, s))"

definition act_modify :: "('s \<Rightarrow> 's) \<Rightarrow> ('s, unit) act" where
  "act_modify f = (\<lambda>s. Ret ((), f s))"

definition act_state :: "('s \<Rightarrow> 'a \<times> 's) \<Rightarrow> ('s, 'a) act" where
  "act_state f = (\<lambda>s. Ret (f s))"

definition act_run :: "'a run \<Rightarrow> ('s, 'a) act" where
  "act_run r = (\<lambda>s. run_bind r (\<lambda>x. Ret (x, s)))"

definition act_when :: "bool \<Rightarrow> ('s, unit) act \<Rightarrow> ('s, unit) act" where
  "act_when b m = (if b then m else act_return ())"

text \<open>\<^verbatim>\<open>let Some(x) = .. else { return }\<close>\<close>

definition act_let_some :: "'a option \<Rightarrow> ('a \<Rightarrow> ('s, unit) act) \<Rightarrow> ('s, unit) act" where
  "act_let_some x f = (case x of None \<Rightarrow> act_return () | Some v \<Rightarrow> f v)"

fun act_each :: "('x \<Rightarrow> ('s, unit) act) \<Rightarrow> 'x list \<Rightarrow> ('s, unit) act" where
  "act_each f [] = act_return ()"
| "act_each f (x # xs) = act_seq (f x) (act_each f xs)"

text \<open>A loop that appends the lists its iterations return.\<close>

fun act_collect :: "('x \<Rightarrow> ('s, 'a list) act) \<Rightarrow> 'x list \<Rightarrow> ('s, 'a list) act" where
  "act_collect f [] = act_return []"
| "act_collect f (x # xs) = act_bind (f x) (\<lambda>as. act_bind (act_collect f xs) (\<lambda>bs. act_return (as @ bs)))"

text \<open>Evaluation of an operation at a state.\<close>

named_theorems act_eval

lemma act_simps [act_eval]:
  "act_return x s = Ret (x, s)"
  "act_bind m f s = run_bind (m s) (\<lambda>(x, s'). f x s')"
  "act_seq m k s = run_bind (m s) (\<lambda>(x, s'). k s')"
  "act_gets g s = Ret (g s, s)"
  "act_modify h s = Ret ((), h s)"
  "act_state i s = Ret (i s)"
  "act_run r s = run_bind r (\<lambda>y. Ret (y, s))"
  "act_when b n s = (if b then n s else Ret ((), s))"
  "act_let_some None e s = Ret ((), s)"
  "act_let_some (Some v) e s = e v s"
  by (simp_all add: act_return_def act_bind_def act_seq_def act_gets_def act_modify_def act_state_def act_run_def
      act_when_def act_let_some_def)

section \<open>Contracts\<close>

text \<open>Total correctness: the operation returns, and its result and the new state satisfy the postcondition.\<close>

definition wp :: "('s, 'a) act \<Rightarrow> ('a \<Rightarrow> 's \<Rightarrow> bool) \<Rightarrow> 's \<Rightarrow> bool" where
  "wp m Q s \<longleftrightarrow> (case m s of Panic \<Rightarrow> False | Ret (x, s') \<Rightarrow> Q x s')"

lemma wp_iff: "wp m Q s \<longleftrightarrow> (\<exists>x s'. m s = Ret (x, s') \<and> Q x s')"
  by (cases "m s") (auto simp: wp_def split: prod.splits)

lemma wp_bind: "wp (act_bind m f) Q s \<longleftrightarrow> wp m (\<lambda>x. wp (f x) Q) s"
  by (cases "m s") (auto simp: wp_def act_bind_def split: prod.splits)

lemma wp_mono: "wp m Q s \<Longrightarrow> (\<And>x s'. Q x s' \<Longrightarrow> P x s') \<Longrightarrow> wp m P s"
  by (auto simp: wp_iff)

text \<open>Started in a state with the invariant, the operation returns, keeps it, and relates the states.\<close>

definition obeys :: "('s \<Rightarrow> bool) \<Rightarrow> ('s \<Rightarrow> 's \<Rightarrow> bool) \<Rightarrow> ('s, 'a) act \<Rightarrow> bool" where
  "obeys I R m \<longleftrightarrow> (\<forall>s. I s \<longrightarrow> wp m (\<lambda>_ s'. I s' \<and> R s s') s)"

lemma obeysI: "(\<And>s. I s \<Longrightarrow> wp m (\<lambda>_ s'. I s' \<and> R s s') s) \<Longrightarrow> obeys I R m"
  by (simp add: obeys_def)

lemma obeysE:
  assumes "obeys I R m" "I s"
  obtains x s' where "m s = Ret (x, s')" "I s'" "R s s'"
  using assms by (auto simp: obeys_def wp_iff)

locale contract =
  fixes I :: "'s \<Rightarrow> bool" and R :: "'s \<Rightarrow> 's \<Rightarrow> bool"
  assumes refl: "R s s"
    and trans: "R s t \<Longrightarrow> R t u \<Longrightarrow> R s u"
begin

lemma obeys_return: "obeys I R (act_return x)"
  by (simp add: obeys_def wp_iff act_return_def refl)

lemma obeys_gets: "obeys I R (act_gets f)"
  by (simp add: obeys_def wp_iff act_gets_def refl)

lemma obeys_bind: "obeys I R m \<Longrightarrow> (\<And>x. obeys I R (f x)) \<Longrightarrow> obeys I R (act_bind m f)"
  unfolding obeys_def wp_bind by (auto simp: wp_iff intro: trans) (meson trans)

lemma obeys_seq: "obeys I R m \<Longrightarrow> obeys I R k \<Longrightarrow> obeys I R (act_seq m k)"
  unfolding act_seq_def by (rule obeys_bind)

lemma obeys_modify: "(\<And>s. I s \<Longrightarrow> I (f s) \<and> R s (f s)) \<Longrightarrow> obeys I R (act_modify f)"
  by (simp add: obeys_def wp_iff act_modify_def)

lemma obeys_state: "(\<And>s. I s \<Longrightarrow> I (snd (f s)) \<and> R s (snd (f s))) \<Longrightarrow> obeys I R (act_state f)"
  unfolding obeys_def wp_iff act_state_def by (metis prod.collapse)

lemma obeys_when: "(b \<Longrightarrow> obeys I R m) \<Longrightarrow> obeys I R (act_when b m)"
  by (simp add: act_when_def obeys_return)

lemma obeys_let_some: "(\<And>v. x = Some v \<Longrightarrow> obeys I R (f v)) \<Longrightarrow> obeys I R (act_let_some x f)"
  by (simp add: act_let_some_def obeys_return split: option.split)

lemma obeys_if: "(b \<Longrightarrow> obeys I R m) \<Longrightarrow> (\<not> b \<Longrightarrow> obeys I R k) \<Longrightarrow> obeys I R (if b then m else k)"
  by simp

lemma obeys_each: "(\<And>x. x \<in> set xs \<Longrightarrow> obeys I R (f x)) \<Longrightarrow> obeys I R (act_each f xs)"
  by (induction xs) (simp_all add: obeys_return obeys_seq)

lemma obeys_collect: "(\<And>x. x \<in> set xs \<Longrightarrow> obeys I R (f x)) \<Longrightarrow> obeys I R (act_collect f xs)"
  by (induction xs) (simp_all add: obeys_return obeys_bind)

lemma obeys_option: "(x = None \<Longrightarrow> obeys I R m) \<Longrightarrow> (\<And>v. x = Some v \<Longrightarrow> obeys I R (f v)) \<Longrightarrow>
  obeys I R (case x of None \<Rightarrow> m | Some v \<Rightarrow> f v)"
  by (simp split: option.split)

lemma obeys_run: "r = Ret x \<Longrightarrow> obeys I R (act_run r)"
  by (simp add: obeys_def wp_iff act_run_def refl)

text \<open>A step that only the state it starts in makes safe.\<close>

lemma obeys_at: "(\<And>s. I s \<Longrightarrow> obeys I R (f s)) \<Longrightarrow> obeys I R (\<lambda>s. f s s)"
  by (simp add: obeys_def wp_iff)

lemma obeys_gets_bind:
  assumes "\<And>s. I s \<Longrightarrow> wp (f (g s)) (\<lambda>_ s'. I s' \<and> R s s') s"
  shows "obeys I R (act_bind (act_gets g) f)"
  using assms by (simp add: obeys_def wp_bind) (simp add: wp_iff act_gets_def)

end

end
