(* ===== verification/Nwk_Commands.thy ===== *)
theory Nwk_Commands
  imports Nwk_Frame Routing Neighbors Tunables
begin

text \<open>
  \<^verbatim>\<open>ziggurat-zigbee/src/nwk/commands.rs\<close>: the commands of the network layer and their byte form, a command identifier
  followed by a body. The bodies are read and written by code that the \<^verbatim>\<open>abstract_bits\<close> crate generates from the
  structures; it enters as the record \<open>body_codecs\<close>, one reader and one writer per structure. Reserved and counted fields of the
  structures are part of that code.
\<close>

section \<open>Data\<close>

datatype NwkCommandId =
    IdRouteRequest | IdRouteReply | IdNetworkStatus | IdLeave | IdRouteRecord | IdRejoinRequest | IdRejoinResponse
  | IdLinkStatus | IdNetworkReport | IdNetworkUpdate | IdEndDeviceTimeoutRequest | IdEndDeviceTimeoutResponse
  | IdLinkPowerDelta | IdNetworkCommissioningRequest | IdNetworkCommissioningResponse

definition command_ids :: "NwkCommandId list" where
  "command_ids =
     [IdRouteRequest, IdRouteReply, IdNetworkStatus, IdLeave, IdRouteRecord, IdRejoinRequest, IdRejoinResponse,
      IdLinkStatus, IdNetworkReport, IdNetworkUpdate, IdEndDeviceTimeoutRequest, IdEndDeviceTimeoutResponse,
      IdLinkPowerDelta, IdNetworkCommissioningRequest, IdNetworkCommissioningResponse]"

text \<open>The discriminants run from 1 to 15 in the order of the list.\<close>

definition command_id_byte :: "NwkCommandId \<Rightarrow> u8" where
  "command_id_byte i = of_nat (Suc (length (takeWhile (\<lambda>x. x \<noteq> i) command_ids)))"

definition command_id_try_from :: "u8 \<Rightarrow> NwkCommandId option" where
  "command_id_try_from b =
     (if 1 \<le> unat b \<and> unat b \<le> length command_ids then Some (command_ids ! (unat b - 1)) else None)"

record NwkRouteRequestCommand =
  rreq_many_to_one :: NwkRouteRequestManyToOne
  rreq_identifier :: u8
  rreq_destination :: Nwk
  rreq_path_cost :: u8
  rreq_destination_eui64 :: "Eui64 option"

record NwkRouteReplyCommand =
  rrep_identifier :: u8
  rrep_originator :: Nwk
  rrep_responder :: Nwk
  rrep_path_cost :: u8
  rrep_originator_eui64 :: "Eui64 option"
  rrep_responder_eui64 :: "Eui64 option"

datatype NwkNetworkStatus =
    LegacyNoRouteAvailable | LegacyLinkFailure | LinkFailure | LowBatteryLevel | NoRoutingCapacity | NoIndirectCapacity
  | IndirectTransactionExpiry | TargetDeviceUnavailable | TargetAddressUnallocated | ParentLinkFailure | ValidateRoute
  | SourceRouteFailure | ManyToOneRouteFailure | StatusAddressConflict | VerifyAddresses | StatusPanIdentifierUpdate
  | NetworkAddressUpdate | BadFrameCounter | BadKeySequenceNumber | StatusUnknownCommand | PanIdConflictReport

record NwkNetworkStatusCommand =
  ns_status_code :: NwkNetworkStatus
  ns_address :: Nwk

record NwkRouteRecordCommand =
  rr_relays :: "Nwk list"

datatype NwkRejoinCapabilityInformationDeviceType = RejoinEndDevice | RejoinRouter

datatype NwkRejoinCapabilityInformationPowerSource = RejoinOtherPowerSource | RejoinMainsPowered

record NwkRejoinCapabilityInformation =
  rj_alternate_pan_coordinator :: bool
  rj_device_type :: NwkRejoinCapabilityInformationDeviceType
  rj_power_source :: NwkRejoinCapabilityInformationPowerSource
  rj_receiver_on_when_idle :: bool
  rj_reserved1 :: "1 word"
  rj_reserved2 :: "1 word"
  rj_security_capability :: bool
  rj_allocate_address :: bool

record NwkRejoinRequestCommand =
  rj_capability :: NwkRejoinCapabilityInformation

datatype Nwk802154AssociationStatus =
    RejoinSuccessful | RejoinPanAtCapacity | RejoinPanAccessDenied | RejoinHoppingSequenceOffsetDuplication
  | RejoinFastAssociationSuccessful | ZigbeeAddressConflict

record NwkRejoinResponseCommand =
  rjr_network_address :: Nwk
  rjr_status :: Nwk802154AssociationStatus

record NwkLeaveCommand =
  lv_rejoin :: bool
  lv_request :: bool
  lv_remove_children :: bool

datatype NwkReportCommandIdentifier = PanIdentifierConflict

record NwkNetworkReportCommand =
  nr_identifier :: NwkReportCommandIdentifier
  nr_epid :: Eui64
  nr_pan_ids :: "PanId list"

datatype NwkUpdateCommandIdentifier = PanIdentifierUpdate

text \<open>The count of this structure is a plain field: no list is bound to it.\<close>

record NwkNetworkUpdateCommand =
  nu_count :: "5 word"
  nu_identifier :: NwkUpdateCommandIdentifier
  nu_epid :: Eui64
  nu_update_id :: u8
  nu_new_pan_id :: Nwk

record NwkEndDeviceTimeoutRequestCommand =
  request_timeout_enum :: EndDeviceTimeout
  end_device_configuration :: u8

datatype NwkEndDeviceTimeoutResponseStatus = TimeoutSuccess | TimeoutIncorrectValue | TimeoutUnsupportedFeature

record NwkEndDeviceTimeoutResponseCommand =
  to_status :: NwkEndDeviceTimeoutResponseStatus
  mac_data_poll_keepalive_supported :: bool
  end_device_timeout_request_keepalive_supported :: bool
  power_negotation_support :: bool

datatype NwkLinkPowerDeltaType = DeltaNotification | DeltaRequest | DeltaResponse

record NwkPowerListEntry =
  pl_device_address :: Nwk
  pl_power_delta :: u8

record NwkLinkPowerDeltaCommand =
  lpd_type :: NwkLinkPowerDeltaType
  power_list :: "NwkPowerListEntry list"

datatype NwkCommissioningType = InitialJoin | CommissioningRejoin

record NwkNetworkCommissioningRequestCommand =
  commissioning_type :: NwkCommissioningType
  nc_capability :: NwkRejoinCapabilityInformation

record NwkNetworkCommissioningResponseCommand =
  ncr_network_address :: Nwk
  ncr_status :: Nwk802154AssociationStatus

datatype NwkCommand =
    RouteRequest NwkRouteRequestCommand
  | RouteReply NwkRouteReplyCommand
  | NetworkStatus NwkNetworkStatusCommand
  | Leave NwkLeaveCommand
  | RouteRecord NwkRouteRecordCommand
  | RejoinRequest NwkRejoinRequestCommand
  | RejoinResponse NwkRejoinResponseCommand
  | LinkStatus NwkLinkStatusCommand
  | NetworkReport NwkNetworkReportCommand
  | NetworkUpdate NwkNetworkUpdateCommand
  | EndDeviceTimeoutRequest NwkEndDeviceTimeoutRequestCommand
  | EndDeviceTimeoutResponse NwkEndDeviceTimeoutResponseCommand
  | LinkPowerDelta NwkLinkPowerDeltaCommand
  | NetworkCommissioningRequest NwkNetworkCommissioningRequestCommand
  | NetworkCommissioningResponse NwkNetworkCommissioningResponseCommand
  | Unparsed "u8 list"

section \<open>Bytes\<close>

type_synonym 'a body_codec = "(u8 list \<Rightarrow> 'a option) \<times> ('a \<Rightarrow> u8 list option)"

record body_codecs =
  bc_route_request :: "NwkRouteRequestCommand body_codec"
  bc_route_reply :: "NwkRouteReplyCommand body_codec"
  bc_network_status :: "NwkNetworkStatusCommand body_codec"
  bc_leave :: "NwkLeaveCommand body_codec"
  bc_route_record :: "NwkRouteRecordCommand body_codec"
  bc_rejoin_request :: "NwkRejoinRequestCommand body_codec"
  bc_rejoin_response :: "NwkRejoinResponseCommand body_codec"
  bc_link_status :: "NwkLinkStatusCommand body_codec"
  bc_network_report :: "NwkNetworkReportCommand body_codec"
  bc_network_update :: "NwkNetworkUpdateCommand body_codec"
  bc_timeout_request :: "NwkEndDeviceTimeoutRequestCommand body_codec"
  bc_timeout_response :: "NwkEndDeviceTimeoutResponseCommand body_codec"
  bc_link_power_delta :: "NwkLinkPowerDeltaCommand body_codec"
  bc_commissioning_request :: "NwkNetworkCommissioningRequestCommand body_codec"
  bc_commissioning_response :: "NwkNetworkCommissioningResponseCommand body_codec"

definition parse_body :: "'a body_codec \<Rightarrow> u8 list \<Rightarrow> 'a option" where
  "parse_body c body = fst c body"

definition command_id :: "NwkCommand \<Rightarrow> NwkCommandId option" where
  "command_id c =
     (case c of
        RouteRequest _ \<Rightarrow> Some IdRouteRequest
      | RouteReply _ \<Rightarrow> Some IdRouteReply
      | NetworkStatus _ \<Rightarrow> Some IdNetworkStatus
      | Leave _ \<Rightarrow> Some IdLeave
      | RouteRecord _ \<Rightarrow> Some IdRouteRecord
      | RejoinRequest _ \<Rightarrow> Some IdRejoinRequest
      | RejoinResponse _ \<Rightarrow> Some IdRejoinResponse
      | LinkStatus _ \<Rightarrow> Some IdLinkStatus
      | NetworkReport _ \<Rightarrow> Some IdNetworkReport
      | NetworkUpdate _ \<Rightarrow> Some IdNetworkUpdate
      | EndDeviceTimeoutRequest _ \<Rightarrow> Some IdEndDeviceTimeoutRequest
      | EndDeviceTimeoutResponse _ \<Rightarrow> Some IdEndDeviceTimeoutResponse
      | LinkPowerDelta _ \<Rightarrow> Some IdLinkPowerDelta
      | NetworkCommissioningRequest _ \<Rightarrow> Some IdNetworkCommissioningRequest
      | NetworkCommissioningResponse _ \<Rightarrow> Some IdNetworkCommissioningResponse
      | Unparsed raw \<Rightarrow> (case raw of [] \<Rightarrow> None | b # _ \<Rightarrow> command_id_try_from b))"

definition parse_command_body :: "body_codecs \<Rightarrow> NwkCommandId \<Rightarrow> u8 list \<Rightarrow> NwkCommand option" where
  "parse_command_body bc i body =
     (case i of
        IdRouteRequest \<Rightarrow> map_option RouteRequest (parse_body (bc_route_request bc) body)
      | IdRouteReply \<Rightarrow> map_option RouteReply (parse_body (bc_route_reply bc) body)
      | IdNetworkStatus \<Rightarrow> map_option NetworkStatus (parse_body (bc_network_status bc) body)
      | IdLeave \<Rightarrow> map_option Leave (parse_body (bc_leave bc) body)
      | IdRouteRecord \<Rightarrow> map_option RouteRecord (parse_body (bc_route_record bc) body)
      | IdRejoinRequest \<Rightarrow> map_option RejoinRequest (parse_body (bc_rejoin_request bc) body)
      | IdRejoinResponse \<Rightarrow> map_option RejoinResponse (parse_body (bc_rejoin_response bc) body)
      | IdLinkStatus \<Rightarrow> map_option LinkStatus (parse_body (bc_link_status bc) body)
      | IdNetworkReport \<Rightarrow> map_option NetworkReport (parse_body (bc_network_report bc) body)
      | IdNetworkUpdate \<Rightarrow> map_option NetworkUpdate (parse_body (bc_network_update bc) body)
      | IdEndDeviceTimeoutRequest \<Rightarrow> map_option EndDeviceTimeoutRequest (parse_body (bc_timeout_request bc) body)
      | IdEndDeviceTimeoutResponse \<Rightarrow> map_option EndDeviceTimeoutResponse (parse_body (bc_timeout_response bc) body)
      | IdLinkPowerDelta \<Rightarrow> map_option LinkPowerDelta (parse_body (bc_link_power_delta bc) body)
      | IdNetworkCommissioningRequest \<Rightarrow>
          map_option NetworkCommissioningRequest (parse_body (bc_commissioning_request bc) body)
      | IdNetworkCommissioningResponse \<Rightarrow>
          map_option NetworkCommissioningResponse (parse_body (bc_commissioning_response bc) body))"

definition try_parse :: "body_codecs \<Rightarrow> u8 list \<Rightarrow> NwkCommand option" where
  "try_parse bc bytes =
     (case bytes of
        [] \<Rightarrow> None
      | id_byte # body \<Rightarrow>
          (case command_id_try_from id_byte of None \<Rightarrow> None | Some i \<Rightarrow> parse_command_body bc i body))"

definition command_of_bytes :: "body_codecs \<Rightarrow> u8 list \<Rightarrow> NwkCommand run" where
  "command_of_bytes bc bytes =
     (case try_parse bc bytes of
        Some c \<Rightarrow> Ret c
      | None \<Rightarrow> if length bytes \<le> MAX_PHY_PACKET_SIZE then Ret (Unparsed bytes) else Panic)"

definition command_body_bytes :: "body_codecs \<Rightarrow> NwkCommand \<Rightarrow> (NwkCommandId \<times> u8 list option) + u8 list" where
  "command_body_bytes bc c =
     (case c of
        RouteRequest b \<Rightarrow> Inl (IdRouteRequest, snd (bc_route_request bc) b)
      | RouteReply b \<Rightarrow> Inl (IdRouteReply, snd (bc_route_reply bc) b)
      | NetworkStatus b \<Rightarrow> Inl (IdNetworkStatus, snd (bc_network_status bc) b)
      | Leave b \<Rightarrow> Inl (IdLeave, snd (bc_leave bc) b)
      | RouteRecord b \<Rightarrow> Inl (IdRouteRecord, snd (bc_route_record bc) b)
      | RejoinRequest b \<Rightarrow> Inl (IdRejoinRequest, snd (bc_rejoin_request bc) b)
      | RejoinResponse b \<Rightarrow> Inl (IdRejoinResponse, snd (bc_rejoin_response bc) b)
      | LinkStatus b \<Rightarrow> Inl (IdLinkStatus, snd (bc_link_status bc) b)
      | NetworkReport b \<Rightarrow> Inl (IdNetworkReport, snd (bc_network_report bc) b)
      | NetworkUpdate b \<Rightarrow> Inl (IdNetworkUpdate, snd (bc_network_update bc) b)
      | EndDeviceTimeoutRequest b \<Rightarrow> Inl (IdEndDeviceTimeoutRequest, snd (bc_timeout_request bc) b)
      | EndDeviceTimeoutResponse b \<Rightarrow> Inl (IdEndDeviceTimeoutResponse, snd (bc_timeout_response bc) b)
      | LinkPowerDelta b \<Rightarrow> Inl (IdLinkPowerDelta, snd (bc_link_power_delta bc) b)
      | NetworkCommissioningRequest b \<Rightarrow> Inl (IdNetworkCommissioningRequest, snd (bc_commissioning_request bc) b)
      | NetworkCommissioningResponse b \<Rightarrow> Inl (IdNetworkCommissioningResponse, snd (bc_commissioning_response bc) b)
      | Unparsed raw \<Rightarrow> Inr raw)"

definition command_bytes :: "body_codecs \<Rightarrow> NwkCommand \<Rightarrow> u8 list run" where
  "command_bytes bc c =
     (case command_body_bytes bc c of
        Inr raw \<Rightarrow> Ret raw
      | Inl (i, body) \<Rightarrow> run_bind (unwrap body) (\<lambda>body. Ret (command_id_byte i # body)))"

definition nwk_command_codec :: "body_codecs \<Rightarrow> NwkCommand command_codec" where
  "nwk_command_codec bc = \<lparr>cmd_to_bytes = command_bytes bc, cmd_from_bytes = command_of_bytes bc\<rparr>"

section \<open>Round trips\<close>

lemma command_id_byte_roundtrip [simp]: "command_id_try_from (command_id_byte i) = Some i"
  by (cases i) (simp_all add: command_id_try_from_def command_id_byte_def command_ids_def)

text \<open>What is documented of the generated code: a body that is written is read back.\<close>

definition body_inverse :: "'a body_codec \<Rightarrow> 'a \<Rightarrow> bool" where
  "body_inverse c b \<longleftrightarrow> (case snd c b of None \<Rightarrow> False | Some bs \<Rightarrow> fst c bs = Some b)"

definition command_body_ok :: "body_codecs \<Rightarrow> NwkCommand \<Rightarrow> bool" where
  "command_body_ok bc c \<longleftrightarrow>
     (case c of
        RouteRequest b \<Rightarrow> body_inverse (bc_route_request bc) b
      | RouteReply b \<Rightarrow> body_inverse (bc_route_reply bc) b
      | NetworkStatus b \<Rightarrow> body_inverse (bc_network_status bc) b
      | Leave b \<Rightarrow> body_inverse (bc_leave bc) b
      | RouteRecord b \<Rightarrow> body_inverse (bc_route_record bc) b
      | RejoinRequest b \<Rightarrow> body_inverse (bc_rejoin_request bc) b
      | RejoinResponse b \<Rightarrow> body_inverse (bc_rejoin_response bc) b
      | LinkStatus b \<Rightarrow> body_inverse (bc_link_status bc) b
      | NetworkReport b \<Rightarrow> body_inverse (bc_network_report bc) b
      | NetworkUpdate b \<Rightarrow> body_inverse (bc_network_update bc) b
      | EndDeviceTimeoutRequest b \<Rightarrow> body_inverse (bc_timeout_request bc) b
      | EndDeviceTimeoutResponse b \<Rightarrow> body_inverse (bc_timeout_response bc) b
      | LinkPowerDelta b \<Rightarrow> body_inverse (bc_link_power_delta bc) b
      | NetworkCommissioningRequest b \<Rightarrow> body_inverse (bc_commissioning_request bc) b
      | NetworkCommissioningResponse b \<Rightarrow> body_inverse (bc_commissioning_response bc) b
      | Unparsed raw \<Rightarrow> try_parse bc raw = None \<and> length raw \<le> MAX_PHY_PACKET_SIZE)"

text \<open>Every command is written and read back; an undecodable one keeps its bytes.\<close>

lemma command_roundtrip:
  assumes "command_body_ok bc c"
  obtains bytes where "command_bytes bc c = Ret bytes" "command_of_bytes bc bytes = Ret c"
  using assms
  by (cases c) (auto simp: command_body_ok_def body_inverse_def command_bytes_def command_body_bytes_def
      command_of_bytes_def try_parse_def parse_command_body_def parse_body_def split: option.splits)

text \<open>A received payload is never refused: it decodes, or is kept as it is, and then is relayed unchanged.\<close>

lemma command_of_bytes_total:
  assumes "length bytes \<le> MAX_PHY_PACKET_SIZE"
  shows "\<exists>c. command_of_bytes bc bytes = Ret c \<and> (\<forall>raw. c = Unparsed raw \<longrightarrow> raw = bytes) \<and>
    (bytes \<noteq> [] \<longrightarrow> command_id c = command_id_try_from (hd bytes))"
  using assms
  by (cases bytes) (auto simp: command_of_bytes_def try_parse_def parse_command_body_def command_id_def
      split: option.splits NwkCommandId.splits)

end
