(* ===== verification/Zdp.thy ===== *)
theory Zdp
  imports Nwk_Commands
begin

text \<open>
  The Zigbee device profile (\<^verbatim>\<open>ziggurat-zigbee/src/zdp.rs\<close>), the beacon payload (\<^verbatim>\<open>beacon.rs\<close>) and the frame control of a
  green power frame (\<^verbatim>\<open>gp.rs\<close>). The generated bit codecs of the bodies are parameters (\<open>zdp_codecs\<close>): a writer gives the
  bytes of a body, or fails when it does not fit the buffer it is given the size of; a reader gives the body it reads.
\<close>

section \<open>Types\<close>

definition MAC_PAYLOAD_MAX_LEN :: nat where
  "MAC_PAYLOAD_MAX_LEN = 104"

definition ZDP_PROFILE_ID :: u16 where
  "ZDP_PROFILE_ID = 0"

datatype ZdpClusterId =
    DeviceAnnceId | ParentAnnceId | MgmtLqiReqId | MgmtRtgReqId | ParentAnnceRspId | MgmtLqiRspId | MgmtRtgRspId

fun zdp_cluster_id :: "ZdpClusterId \<Rightarrow> u16" where
  "zdp_cluster_id DeviceAnnceId = 0x0013"
| "zdp_cluster_id ParentAnnceId = 0x001F"
| "zdp_cluster_id MgmtLqiReqId = 0x0031"
| "zdp_cluster_id MgmtRtgReqId = 0x0032"
| "zdp_cluster_id ParentAnnceRspId = 0x801F"
| "zdp_cluster_id MgmtLqiRspId = 0x8031"
| "zdp_cluster_id MgmtRtgRspId = 0x8032"

definition zdp_cluster_of :: "u16 \<Rightarrow> ZdpClusterId option" where
  "zdp_cluster_of n =
     find (\<lambda>c. zdp_cluster_id c = n)
       [DeviceAnnceId, ParentAnnceId, MgmtLqiReqId, MgmtRtgReqId, ParentAnnceRspId, MgmtLqiRspId, MgmtRtgRspId]"

datatype ZdpStatus = ZdpSuccess | ZdpNotSupported

record DeviceAnnce =
  da_nwk_addr :: Nwk
  da_ieee_addr :: Eui64
  da_capability :: NwkRejoinCapabilityInformation

record ParentAnnce =
  pa_children :: "Eui64 list"

record ParentAnnceRsp =
  pr_status :: ZdpStatus
  pr_children :: "Eui64 list"

record MgmtLqiReq =
  lq_start_index :: u8

datatype ZdpDeviceType = ZdpCoordinator | ZdpRouter | ZdpEndDevice | ZdpUnknownDevice

datatype ZdpRxOnWhenIdle = ZdpIdleOff | ZdpIdleOn | ZdpIdleUnknown

datatype ZdpAffinity = ZdpParent | ZdpChild | ZdpSibling | ZdpNoneOfTheAbove

datatype ZdpPermitJoining = ZdpNotAccepting | ZdpAccepting | ZdpPermitUnknown

record NeighborDescriptor =
  nd_extended_pan_id :: Eui64
  nd_extended_address :: Eui64
  nd_network_address :: Nwk
  nd_device_type :: ZdpDeviceType
  nd_rx_on_when_idle :: ZdpRxOnWhenIdle
  nd_affinity :: ZdpAffinity
  nd_permit_joining :: ZdpPermitJoining
  nd_depth :: u8
  nd_lqa :: u8

record MgmtLqiRsp =
  lr_status :: ZdpStatus
  lr_neighbor_table_entries :: u8
  lr_start_index :: u8
  lr_neighbor_table_list :: "NeighborDescriptor list"

record MgmtRtgReq =
  rq_start_index :: u8

datatype ZdpRouteStatus = ZdpActive | ZdpDiscoveryUnderway | ZdpDiscoveryFailed | ZdpInactive

record RoutingDescriptor =
  rd_destination_address :: Nwk
  rd_status :: ZdpRouteStatus
  rd_memory_constrained :: bool
  rd_many_to_one :: bool
  rd_route_record_required :: bool
  rd_next_hop_address :: Nwk

record MgmtRtgRsp =
  rt_status :: ZdpStatus
  rt_routing_table_entries :: u8
  rt_start_index :: u8
  rt_routing_table_list :: "RoutingDescriptor list"

datatype ZdpBody =
    DeviceAnnceBody DeviceAnnce
  | ParentAnnceBody ParentAnnce
  | ParentAnnceRspBody ParentAnnceRsp
  | MgmtLqiReqBody MgmtLqiReq
  | MgmtLqiRspBody MgmtLqiRsp
  | MgmtRtgReqBody MgmtRtgReq
  | MgmtRtgRspBody MgmtRtgRsp

text \<open>The constant \<^verbatim>\<open>ZdpCommand::CLUSTER_ID\<close> of each command.\<close>

fun zdp_body_cluster :: "ZdpBody \<Rightarrow> ZdpClusterId" where
  "zdp_body_cluster (DeviceAnnceBody _) = DeviceAnnceId"
| "zdp_body_cluster (ParentAnnceBody _) = ParentAnnceId"
| "zdp_body_cluster (ParentAnnceRspBody _) = ParentAnnceRspId"
| "zdp_body_cluster (MgmtLqiReqBody _) = MgmtLqiReqId"
| "zdp_body_cluster (MgmtLqiRspBody _) = MgmtLqiRspId"
| "zdp_body_cluster (MgmtRtgReqBody _) = MgmtRtgReqId"
| "zdp_body_cluster (MgmtRtgRspBody _) = MgmtRtgRspId"

record zdp_codecs =
  write_zdp :: "nat \<Rightarrow> ZdpBody \<Rightarrow> u8 list option"
  read_zdp :: "ZdpClusterId \<Rightarrow> u8 list \<Rightarrow> ZdpBody option"

section \<open>Serialization\<close>

datatype ZdpError = ZdpSerializeError | ZdpPayloadError | ZdpZeroBytes

definition zdp_serialize :: "zdp_codecs \<Rightarrow> ZdpBody \<Rightarrow> u8 \<Rightarrow> ZdpError + u8 list" where
  "zdp_serialize zc body tsn =
     (case write_zdp zc (MAC_PAYLOAD_MAX_LEN - 1) body of
        None \<Rightarrow> Inl ZdpSerializeError
      | Some bytes \<Rightarrow> Inr (tsn # bytes))"

fun zdp_deserialize :: "zdp_codecs \<Rightarrow> ZdpClusterId \<Rightarrow> u8 list \<Rightarrow> ZdpError + u8 \<times> ZdpBody" where
  "zdp_deserialize zc c [] = Inl ZdpZeroBytes"
| "zdp_deserialize zc c (tsn # bytes) =
     (case read_zdp zc c bytes of
        None \<Rightarrow> Inl ZdpPayloadError
      | Some body \<Rightarrow> Inr (tsn, body))"

section \<open>Beacons and green power\<close>

record ZigbeeBeacon =
  zb_protocol_id :: u8
  zb_stack_profile :: "4 word"
  zb_protocol_version :: "4 word"
  zb_reserved1 :: "2 word"
  zb_router_capacity :: bool
  zb_device_depth :: "4 word"
  zb_end_device_capacity :: bool
  zb_extended_pan_id :: Eui64
  zb_tx_offset :: "24 word"
  zb_update_id :: u8

datatype GpFrameType = GpData | GpMaintenance

record GpNwkFrameControl =
  gp_frame_type :: GpFrameType
  gp_protocol_version :: "4 word"
  gp_auto_commissioning :: bool
  gp_extended :: bool

definition GP_PROTOCOL_VERSION :: "4 word" where
  "GP_PROTOCOL_VERSION = 3"

section \<open>Facts\<close>

text \<open>What the driver relies on: a body that fits is read back, and only a body of its own kind is read.\<close>

definition zdp_codecs_ok :: "zdp_codecs \<Rightarrow> bool" where
  "zdp_codecs_ok zc \<longleftrightarrow>
     (\<forall>n body bytes. write_zdp zc n body = Some bytes \<longrightarrow>
        length bytes \<le> n \<and> read_zdp zc (zdp_body_cluster body) bytes = Some body) \<and>
     (\<forall>c bytes body. read_zdp zc c bytes = Some body \<longrightarrow> zdp_body_cluster body = c)"

lemma zdp_cluster_roundtrip [simp]: "zdp_cluster_of (zdp_cluster_id c) = Some c"
  by (cases c) (simp_all add: zdp_cluster_of_def)

lemma zdp_roundtrip:
  "zdp_codecs_ok zc \<Longrightarrow> zdp_serialize zc body tsn = Inr bytes \<Longrightarrow>
   length bytes \<le> MAC_PAYLOAD_MAX_LEN \<and> zdp_deserialize zc (zdp_body_cluster body) bytes = Inr (tsn, body)"
  by (fastforce simp: zdp_serialize_def zdp_codecs_ok_def MAC_PAYLOAD_MAX_LEN_def split: option.splits)

end
