(* ===== verification/Stack_State.thy ===== *)
theory Stack_State
  imports Act Nwk_Commands Zdp Addresses Nwk_Broadcasts Next_Hop Sends_Facts Broadcast_Budget Send_Tracker Mac_Frame Aps_Frame Aps_Security Nwk_Security
begin

text \<open>
  The state of the driver (\<^verbatim>\<open>ziggurat-driver/src/zigbee_stack.rs\<close>): the protocol core with its tables, the settings, the
  queue of notifications and the flows in progress. The core is behind one lock that is never held across an await, so a
  handler is one operation on the state (\<open>Act\<close>). Within a handler the clock is read once: it is the argument \<open>now\<close>.

  The generated bit codecs, the cipher and the hash of third-party crates are the fields of the record \<open>libs\<close>. Random
  numbers are read from a tape: the n-th draw is the entry n of \<open>entropy\<close>. A \<^verbatim>\<open>Notify\<close> is its permit.
\<close>

section \<open>Types\<close>

datatype TxResult = TxAcked | TxNoAck | TxChannelAccessFailure | TxAborted | TxFailed

datatype RadioError = RadioTimeout | TransportClosed | RadioRejected string | RadioOther string

type_synonym delivery_error = "(TxResult, RadioError) DeliveryError"

datatype EnqueueError =
    RateLimited duration | PayloadTooLong | SecurityUnavailable | RouteDiscoverySuppressed | NotStarted

record TxPolicy =
  tp_priority :: TxPriority
  tp_class :: TrafficClass

definition STACK_CRITICAL :: TxPolicy where
  "STACK_CRITICAL = \<lparr>tp_priority = StackCritical, tp_class = Critical\<rparr>"

datatype NwkSecurityMode = WithNetworkKey | Unsecured

datatype ApsAckMode = AckRequest | NoAck

datatype JoinKind = JoinNew | JoinAgain

datatype AddrConflictSource = ConflictLocal | ConflictNetwork

record ParentInformation =
  mac_data_poll_keepalive :: bool
  end_device_timeout_request_keepalive :: bool
  power_negotiation :: bool

record NetworkConfig =
  cf_role :: NwkDeviceType
  cf_channel :: u8
  cf_update_id :: u8
  cf_pan_id :: PanId
  cf_extended_pan_id :: Eui64
  cf_network_address :: Nwk
  cf_ieee_address :: Eui64
  cf_network_key :: Key
  cf_network_key_seq_number :: u8
  cf_network_key_tx_counter :: u32
  cf_tc_link_key :: Key
  cf_tclk_seed :: "TclkSeed option"
  cf_source_routing :: bool

record AddressConflict =
  handled_at :: instant
  heard_from_network :: bool
  report_at :: "instant option"

datatype Frame = FrameNwk "NwkCommand NwkFrame" NwkSecurityMode | FrameRaw "u8 list Ieee802154Frame"

text \<open>A waiter is the address of its slot.\<close>

type_synonym SendTable = "(Frame, nat, delivery_error) Sends"
type_synonym SendActions = "(Frame, nat, delivery_error) Actions"

record UnicastSend =
  us_nwk_frame :: "NwkCommand NwkFrame"
  us_security :: NwkSecurityMode
  us_mode :: SendMode
  us_policy :: TxPolicy
  us_confirmation :: Confirm

record BroadcastSend =
  bs_nwk_frame :: "NwkCommand NwkFrame"
  bs_security :: NwkSecurityMode
  bs_policy :: TxPolicy

record SendHandle =
  sh_id :: SendId
  sh_slot :: nat

record Nib =
  nib_sequence_number :: u8
  nib_update_id :: u8
  tx_total :: u16
  nib_neighbors :: Neighbors
  nib_routing :: Routing
  nib_broadcasts :: Broadcasts
  nib_security :: NwkSecurity
  nib_addresses :: AddressMap

record Aib =
  aib_counter :: u8
  aib_security :: ApsSecurity

record MacState =
  ms_channel :: u8
  ms_sequence_number :: u8
  ms_pan_id :: PanId

record ZigbeeCore =
  nib :: Nib
  aib :: Aib
  mac :: MacState
  sends :: SendTable
  permitting_joins_until :: "instant option"
  trust_center_joins_until :: "instant option"
  beacon_spam_until :: "instant option"

text \<open>The settings; those that no operation reads are left out.\<close>

record State =
  hack_ignore_broadcast_startup_wait_period :: bool
  hack_disable_tx :: bool
  hack_force_route_discovery :: bool
  hack_beacon_spam_duration :: duration
  role :: NwkDeviceType
  ieee_address :: Eui64
  network_address :: Nwk
  extended_pan_id :: Eui64
  concentrator :: bool
  parent_information :: ParentInformation

datatype DeviceLeaveReason = LeaveAnnounced bool | RouterReported Nwk "Eui64 option" | KeepaliveTimeout

datatype ZigbeeNotification =
    ReceivedApsCommand Nwk Nwk "u16 option" u16 u16 u8 u8 u8 u8 bool "u8 list"
  | ReceivedGpdf u8 "Eui64 option" u8 u8 "u8 list"
  | FrameCounterUpdate u32
  | LinkKeyUpdate Eui64 Key
  | NotifyDeviceJoined Nwk Eui64 Nwk "NwkDeviceType option" bool
  | RouteRecordUpdate Nwk "Nwk list"
  | ApsFrameCounterUpdate u32
  | NotifyDeviceLeft Nwk "Eui64 option" DeviceLeaveReason
  | ApsDecryptionFailure Nwk Eui64 u32 NwkSecurityHeaderKeyId

datatype Wake =
    WakeNotification | WakeSender | WakeSendTimer | WakeSrcMatch | WakeMtorr | WakeLinkStatus | WakeAddressConflict
  | WakeBeaconSpam | WakeMaintenance | WakeTracker | WakeScanBeacon

text \<open>The flows that await a send: a join from the association response on, and the delivery of the network key.\<close>

datatype Tasklet =
    JoinStart Eui64 Nwk
  | JoinAwaitExtraction nat Eui64 Nwk
  | DeliverKeyStart Nwk Eui64 JoinKind
  | DeliverKeyAwait nat Nwk Eui64

record NetworkBeacon =
  nbc_channel :: u8
  nbc_source :: "Nwk option"
  nbc_pan_id :: PanId
  nbc_extended_pan_id :: Eui64
  nbc_permit_joining :: bool
  nbc_stack_profile :: u8
  nbc_protocol_version :: u8
  nbc_router_capacity :: bool
  nbc_end_device_capacity :: bool
  nbc_device_depth :: u8
  nbc_update_id :: u8
  nbc_lqi :: u8
  nbc_rssi :: u8

record entropy =
  scaled :: "nat \<Rightarrow> duration \<Rightarrow> duration"
  random_addresses :: "nat \<Rightarrow> Nwk list"
  random_keys :: "nat \<Rightarrow> Key"

record libs =
  lib_aes :: block_cipher
  lib_seal :: ccm_seal
  lib_open :: ccm_open
  lib_bits :: bit_codecs
  lib_bodies :: body_codecs
  lib_aps :: aps_codecs
  lib_mac :: mac_codecs
  lib_zdp :: zdp_codecs
  lib_write_beacon :: "ZigbeeBeacon \<Rightarrow> u8 list option"
  lib_read_beacon :: "u8 list \<Rightarrow> ZigbeeBeacon option"
  lib_gp :: "u8 list \<Rightarrow> GpNwkFrameControl option"

record ZigbeeStack =
  zs_core :: ZigbeeCore
  zs_address_conflicts :: "(Nwk, AddressConflict) flat_map"
  zs_aps_duplicates :: "(Nwk \<times> u8, instant) flat_map"
  zs_state :: State
  zs_tunables :: Tunables
  zs_notifications :: "ZigbeeNotification list"
  zs_slots :: "nat \<Rightarrow> delivery_error SendSlot"
  zs_next_slot :: nat
  zs_src_match_written :: SrcMatchTable
  zs_parent_annce_received :: "instant option"
  zs_broadcast_budget :: BroadcastBudget
  zs_last_persisted_aps_counter :: u32
  zs_tasklets :: "Tasklet list"
  zs_wakes :: "Wake \<Rightarrow> bool"
  zs_entropy :: entropy
  zs_draws :: nat
  zs_scan_active :: bool
  zs_scan_beacon_frames :: u32
  zs_scan_beacons :: "NetworkBeacon list"

type_synonym 'a stack_act = "(ZigbeeStack, 'a) act"

section \<open>Access\<close>

abbreviation "stack_nib s \<equiv> nib (zs_core s)"
abbreviation "stack_neighbors s \<equiv> nib_neighbors (stack_nib s)"
abbreviation "stack_routing s \<equiv> nib_routing (stack_nib s)"
abbreviation "stack_transactions s \<equiv> nib_broadcasts (stack_nib s)"
abbreviation "stack_nwk_security s \<equiv> nib_security (stack_nib s)"
abbreviation "stack_addresses s \<equiv> nib_addresses (stack_nib s)"
abbreviation "stack_aps_security s \<equiv> aib_security (aib (zs_core s))"
abbreviation "stack_sends s \<equiv> sends (zs_core s)"
abbreviation "own_nwk s \<equiv> network_address (zs_state s)"
abbreviation "own_eui64 s \<equiv> ieee_address (zs_state s)"

definition on_core :: "(ZigbeeCore \<Rightarrow> ZigbeeCore) \<Rightarrow> ZigbeeStack \<Rightarrow> ZigbeeStack" where
  "on_core f s = s\<lparr>zs_core := f (zs_core s)\<rparr>"

definition on_nib :: "(Nib \<Rightarrow> Nib) \<Rightarrow> ZigbeeStack \<Rightarrow> ZigbeeStack" where
  "on_nib f = on_core (\<lambda>c. c\<lparr>nib := f (nib c)\<rparr>)"

definition set_neighbors :: "Neighbors \<Rightarrow> ZigbeeStack \<Rightarrow> ZigbeeStack" where
  "set_neighbors x = on_nib (\<lambda>n. n\<lparr>nib_neighbors := x\<rparr>)"

definition set_routing :: "Routing \<Rightarrow> ZigbeeStack \<Rightarrow> ZigbeeStack" where
  "set_routing x = on_nib (\<lambda>n. n\<lparr>nib_routing := x\<rparr>)"

definition set_transactions :: "Broadcasts \<Rightarrow> ZigbeeStack \<Rightarrow> ZigbeeStack" where
  "set_transactions x = on_nib (\<lambda>n. n\<lparr>nib_broadcasts := x\<rparr>)"

definition set_nwk_security :: "NwkSecurity \<Rightarrow> ZigbeeStack \<Rightarrow> ZigbeeStack" where
  "set_nwk_security x = on_nib (\<lambda>n. n\<lparr>nib_security := x\<rparr>)"

definition set_addresses :: "AddressMap \<Rightarrow> ZigbeeStack \<Rightarrow> ZigbeeStack" where
  "set_addresses x = on_nib (\<lambda>n. n\<lparr>nib_addresses := x\<rparr>)"

definition set_aps_security :: "ApsSecurity \<Rightarrow> ZigbeeStack \<Rightarrow> ZigbeeStack" where
  "set_aps_security x = on_core (\<lambda>c. c\<lparr>aib := (aib c)\<lparr>aib_security := x\<rparr>\<rparr>)"

definition set_sends :: "SendTable \<Rightarrow> ZigbeeStack \<Rightarrow> ZigbeeStack" where
  "set_sends x = on_core (\<lambda>c. c\<lparr>sends := x\<rparr>)"

text \<open>A method call on one table of the core: its result, and the table it leaves.\<close>

definition call_neighbors :: "(Neighbors \<Rightarrow> 'a \<times> Neighbors) \<Rightarrow> 'a stack_act" where
  "call_neighbors f = act_state (\<lambda>s. case f (stack_neighbors s) of (x, n) \<Rightarrow> (x, set_neighbors n s))"

definition call_routing :: "(Routing \<Rightarrow> 'a \<times> Routing) \<Rightarrow> 'a stack_act" where
  "call_routing f = act_state (\<lambda>s. case f (stack_routing s) of (x, r) \<Rightarrow> (x, set_routing r s))"

definition modify_neighbors :: "(Neighbors \<Rightarrow> Neighbors) \<Rightarrow> unit stack_act" where
  "modify_neighbors f = act_modify (\<lambda>s. set_neighbors (f (stack_neighbors s)) s)"

definition modify_routing :: "(Routing \<Rightarrow> Routing) \<Rightarrow> unit stack_act" where
  "modify_routing f = act_modify (\<lambda>s. set_routing (f (stack_routing s)) s)"

definition modify_addresses :: "(AddressMap \<Rightarrow> AddressMap) \<Rightarrow> unit stack_act" where
  "modify_addresses f = act_modify (\<lambda>s. set_addresses (f (stack_addresses s)) s)"

definition call_sends :: "(SendTable \<Rightarrow> ('a \<times> SendTable) run) \<Rightarrow> 'a stack_act" where
  "call_sends f = (\<lambda>s. run_bind (f (stack_sends s)) (\<lambda>(x, t). Ret (x, set_sends t s)))"

definition call_aps_security :: "(ApsSecurity \<Rightarrow> ('a \<times> ApsSecurity) run) \<Rightarrow> 'a stack_act" where
  "call_aps_security f = (\<lambda>s. run_bind (f (stack_aps_security s)) (\<lambda>(x, a). Ret (x, set_aps_security a s)))"

lemmas stack_access = on_core_def on_nib_def set_neighbors_def set_routing_def set_transactions_def set_nwk_security_def
  set_addresses_def set_aps_security_def set_sends_def

section \<open>Basic operations\<close>

definition notify :: "Wake \<Rightarrow> unit stack_act" where
  "notify w = act_modify (\<lambda>s. s\<lparr>zs_wakes := (zs_wakes s)(w := True)\<rparr>)"

definition NOTIFICATION_QUEUE_CAP :: nat where
  "NOTIFICATION_QUEUE_CAP = 64"

text \<open>The loop drops the oldest events until one more fits.\<close>

definition push_notification :: "ZigbeeNotification \<Rightarrow> unit stack_act" where
  "push_notification n =
     act_seq (act_modify (\<lambda>s. s\<lparr>zs_notifications :=
                drop (Suc (length (zs_notifications s)) - NOTIFICATION_QUEUE_CAP) (zs_notifications s) @ [n]\<rparr>))
       (notify WakeNotification)"

definition next_notifications :: "ZigbeeNotification list stack_act" where
  "next_notifications = act_state (\<lambda>s. (zs_notifications s, s\<lparr>zs_notifications := []\<rparr>))"

definition next_nwk_sequence_number :: "u8 stack_act" where
  "next_nwk_sequence_number =
     act_state (\<lambda>s. let n = nib_sequence_number (stack_nib s) + 1 in (n, on_nib (\<lambda>b. b\<lparr>nib_sequence_number := n\<rparr>) s))"

definition next_aps_counter :: "u8 stack_act" where
  "next_aps_counter =
     act_state (\<lambda>s. let n = aib_counter (aib (zs_core s)) + 1
                    in (n, on_core (\<lambda>c. c\<lparr>aib := (aib c)\<lparr>aib_counter := n\<rparr>\<rparr>) s))"

definition next_nwk_frame_counter :: "u32 stack_act" where
  "next_nwk_frame_counter =
     act_bind (\<lambda>s. run_bind (nwk_next_outgoing_frame_counter (stack_nwk_security s)) (\<lambda>(a, n). Ret (a, set_nwk_security n s)))
       (\<lambda>advance.
          act_seq (act_when (should_persist advance) (push_notification (FrameCounterUpdate (advance_value advance))))
            (act_return (advance_value advance)))"

definition FRAME_COUNTER_NOTIFY_INTERVAL :: u32 where
  "FRAME_COUNTER_NOTIFY_INTERVAL = 100"

definition maybe_notify_aps_frame_counter :: "unit stack_act" where
  "maybe_notify_aps_frame_counter =
     act_bind (act_gets (\<lambda>s. (aps_counter (stack_aps_security s), zs_last_persisted_aps_counter s))) (\<lambda>(counter, last).
       act_when (FRAME_COUNTER_NOTIFY_INTERVAL \<le> counter - last)
         (act_seq (act_modify (\<lambda>s. s\<lparr>zs_last_persisted_aps_counter := counter\<rparr>))
            (push_notification (ApsFrameCounterUpdate counter))))"

definition device_join_capability :: "Eui64 \<Rightarrow> ZigbeeStack \<Rightarrow> NwkDeviceType option \<times> bool" where
  "device_join_capability ieee s =
     (case device_capability (stack_neighbors s) ieee of
        Some (ty, idle) \<Rightarrow> (Some ty, idle)
      | None \<Rightarrow> (None, True))"

definition set_tunable :: "string \<Rightarrow> u64 \<Rightarrow> (TunableError + unit) stack_act" where
  "set_tunable name raw =
     act_state (\<lambda>s. case tunables_set (zs_tunables s) name raw of
                      Inl e \<Rightarrow> (Inl e, s)
                    | Inr t \<Rightarrow> (Inr (), s\<lparr>zs_tunables := t\<rparr>))"

definition set_nwk_update_id :: "u8 \<Rightarrow> unit stack_act" where
  "set_nwk_update_id u = act_modify (on_nib (\<lambda>n. n\<lparr>nib_update_id := u\<rparr>))"

text \<open>Random numbers: each draw reads the next entry of the tape.\<close>

definition draw :: "(entropy \<Rightarrow> nat \<Rightarrow> 'a) \<Rightarrow> 'a stack_act" where
  "draw f = act_state (\<lambda>s. (f (zs_entropy s) (zs_draws s), s\<lparr>zs_draws := Suc (zs_draws s)\<rparr>))"

text \<open>A fresh slot (\<^verbatim>\<open>Arc::new(SendSlot::default())\<close>).\<close>

definition new_slot :: "nat stack_act" where
  "new_slot = act_state (\<lambda>s. (zs_next_slot s,
     s\<lparr>zs_slots := (zs_slots s)(zs_next_slot s := slot_default), zs_next_slot := Suc (zs_next_slot s)\<rparr>))"

definition update_slot :: "nat \<Rightarrow> (delivery_error SendSlot \<Rightarrow> delivery_error SendSlot \<times> bool) \<Rightarrow> unit stack_act" where
  "update_slot a f =
     act_bind (act_state (\<lambda>s. case f (zs_slots s a) of (p, wake) \<Rightarrow> (wake, s\<lparr>zs_slots := (zs_slots s)(a := p)\<rparr>)))
       (\<lambda>wake. act_when wake (notify WakeTracker))"

section \<open>Start\<close>

definition state_new :: "NetworkConfig \<Rightarrow> State" where
  "state_new c =
     \<lparr>hack_ignore_broadcast_startup_wait_period = True, hack_disable_tx = False, hack_force_route_discovery = False,
      hack_beacon_spam_duration = 100000, role = cf_role c, ieee_address = cf_ieee_address c,
      network_address = cf_network_address c, extended_pan_id = cf_extended_pan_id c, concentrator = cf_source_routing c,
      parent_information = \<lparr>mac_data_poll_keepalive = True, end_device_timeout_request_keepalive = False,
        power_negotiation = False\<rparr>\<rparr>"

definition core_new :: "NetworkConfig \<Rightarrow> u8 \<Rightarrow> ZigbeeCore" where
  "core_new c random_counter =
     \<lparr>nib = \<lparr>nib_sequence_number = 0, nib_update_id = cf_update_id c, tx_total = 0, nib_neighbors = neighbors_default,
        nib_routing = routing_default, nib_broadcasts = broadcasts_default,
        nib_security = nwk_security_new (cf_network_key c) (cf_network_key_seq_number c) (cf_network_key_tx_counter c)
          FRAME_COUNTER_NOTIFY_INTERVAL,
        nib_addresses = address_map_new (cf_network_address c) (cf_ieee_address c)\<rparr>,
      aib = \<lparr>aib_counter = random_counter,
        aib_security = aps_security_new (cf_tc_link_key c) (cf_ieee_address c) (cf_tclk_seed c)\<rparr>,
      mac = \<lparr>ms_channel = cf_channel c, ms_sequence_number = 0, ms_pan_id = cf_pan_id c\<rparr>,
      sends = sends_default, permitting_joins_until = None, trust_center_joins_until = None, beacon_spam_until = None\<rparr>"

definition stack_new :: "NetworkConfig \<Rightarrow> Tunables \<Rightarrow> u8 \<Rightarrow> entropy \<Rightarrow> ZigbeeStack" where
  "stack_new c t random_counter rng =
     \<lparr>zs_core = core_new c random_counter, zs_address_conflicts = fm_new, zs_aps_duplicates = fm_new,
      zs_state = state_new c, zs_tunables = t, zs_notifications = [], zs_slots = (\<lambda>_. slot_default), zs_next_slot = 0,
      zs_src_match_written = \<lparr>short_addresses = fs_new, extended_addresses = fs_new\<rparr>, zs_parent_annce_received = None,
      zs_broadcast_budget = budget_new (get_u8 t ''broadcast_budget_tokens''), zs_last_persisted_aps_counter = 0,
      zs_tasklets = [], zs_wakes = (\<lambda>_. False), zs_entropy = rng, zs_draws = 0,
      zs_scan_active = False, zs_scan_beacon_frames = 0, zs_scan_beacons = []\<rparr>"

end
