(* ===== verification/Stack_Sends.thy ===== *)
theory Stack_Sends
  imports Stack_State
begin

text \<open>
  The sending half of the driver: \<^verbatim>\<open>zigbee_stack/sends.rs\<close> and the operations of \<^verbatim>\<open>nwk.rs\<close> and \<^verbatim>\<open>route.rs\<close> that put
  frames into the send tables. The mutations that enqueue return no actions (\<^verbatim>\<open>Actions::new()\<close>), so committing them only
  notifies the tasks; the actions of the other mutations are carried out by \<open>run_send_actions\<close>. A transmission is split at
  the await of the radio: \<open>sender_begin\<close> hands the frame over and \<open>sender_end\<close> takes the radio's answer.
\<close>

section \<open>Frames we originate\<close>

definition PROTOCOL_VERSION :: "4 word" where
  "PROTOCOL_VERSION = 2"

definition MAX_DEPTH :: u8 where
  "MAX_DEPTH = 15"

definition BROADCAST_ALL_DEVICES :: Nwk where
  "BROADCAST_ALL_DEVICES = 0xFFFF"

definition BROADCAST_RX_ON_WHEN_IDLE :: Nwk where
  "BROADCAST_RX_ON_WHEN_IDLE = 0xFFFD"

definition nwk_command_frame :: "State \<Rightarrow> Nwk \<Rightarrow> NwkCommand \<Rightarrow> NwkCommand NwkFrame" where
  "nwk_command_frame st dest command =
     \<lparr>nwk_header =
        \<lparr>frame_control = \<lparr>frame_type = NwkCommandFrame, protocol_version = PROTOCOL_VERSION, discover_route = Suppress,
           multicast = False, fc_security = True, fc_source_route = False, fc_destination = False,
           fc_extended_source = True, end_device_initiator = False, reserved1 = 0\<rparr>,
         destination = dest, source = network_address st, radius = 2 * MAX_DEPTH, sequence_number = 0,
         destination_ieee = None, source_ieee = Some (ieee_address st), multicast_control = None, source_route = None\<rparr>,
      aux_header = None, payload = Command command\<rparr>"

definition nwk_data_frame :: "State \<Rightarrow> Nwk \<Rightarrow> u8 list \<Rightarrow> EnqueueError + NwkCommand NwkFrame" where
  "nwk_data_frame st dest bytes =
     (if length bytes \<le> MAX_PHY_PACKET_SIZE then
        Inr \<lparr>nwk_header =
          \<lparr>frame_control = \<lparr>frame_type = NwkData, protocol_version = PROTOCOL_VERSION, discover_route = Suppress,
             multicast = False, fc_security = True, fc_source_route = False, fc_destination = False,
             fc_extended_source = False, end_device_initiator = False, reserved1 = 0\<rparr>,
           destination = dest, source = network_address st, radius = 2 * MAX_DEPTH, sequence_number = 0,
           destination_ieee = None, source_ieee = None, multicast_control = None, source_route = None\<rparr>,
         aux_header = None, payload = Opaque bytes\<rparr>
      else Inl PayloadTooLong)"

definition own_command_frame :: "Nwk \<Rightarrow> NwkCommand \<Rightarrow> ZigbeeStack \<Rightarrow> NwkCommand NwkFrame" where
  "own_command_frame dest command s = nwk_command_frame (zs_state s) dest command"

section \<open>Enqueueing\<close>

definition enqueue_unicast_in ::
  "instant \<Rightarrow> Frame \<Rightarrow> TxPolicy \<Rightarrow> Confirm \<Rightarrow> Nwk \<Rightarrow> Ieee802154Address option \<Rightarrow> SendHandle stack_act" where
  "enqueue_unicast_in now f policy confirm hop poll =
     act_bind new_slot (\<lambda>slot.
     act_bind (act_state (\<lambda>s.
         case enqueue_unicast (stack_sends s)
                \<lparr>u_frame = f, u_priority = tp_priority policy, u_waiter = slot, u_confirm = confirm, u_next_hop = hop,
                 u_poll_address = poll\<rparr> now (zs_tunables s)
         of (i, t) \<Rightarrow> (i, set_sends t s))) (\<lambda>i.
       act_return \<lparr>sh_id = i, sh_slot = slot\<rparr>))"

definition enqueue_broadcast_in :: "instant \<Rightarrow> Frame \<Rightarrow> TxPolicy \<Rightarrow> Schedule \<Rightarrow> SendHandle stack_act" where
  "enqueue_broadcast_in now f policy schedule =
     act_bind new_slot (\<lambda>slot.
     act_bind (act_state (\<lambda>s.
         case enqueue_broadcast (stack_sends s)
                \<lparr>b_frame = f, b_priority = tp_priority policy, b_waiter = slot, b_schedule = schedule\<rparr> now (zs_tunables s)
         of (i, t) \<Rightarrow> (i, set_sends t s))) (\<lambda>i.
       act_return \<lparr>sh_id = i, sh_slot = slot\<rparr>))"

definition enqueue_unrouted_in ::
  "instant \<Rightarrow> Frame \<Rightarrow> TxPolicy \<Rightarrow> Confirm \<Rightarrow> Nwk \<Rightarrow> SendHandle stack_act" where
  "enqueue_unrouted_in now f policy confirm dest =
     act_bind new_slot (\<lambda>slot.
     act_bind (act_state (\<lambda>s.
         case enqueue_unrouted_unicast (stack_sends s)
                \<lparr>us_frame = f, us_priority = tp_priority policy, us_waiter = slot, us_confirm = confirm,
                 us_destination = dest\<rparr> now (zs_tunables s)
         of (i, t) \<Rightarrow> (i, set_sends t s))) (\<lambda>i.
       act_return \<lparr>sh_id = i, sh_slot = slot\<rparr>))"

text \<open>\<^verbatim>\<open>commit_sends\<close> of a mutation that returned no actions.\<close>

definition commit_enqueued :: "unit stack_act" where
  "commit_enqueued = act_seq (notify WakeSender) (act_seq (notify WakeSrcMatch) (notify WakeSendTimer))"

definition stack_enqueue_unicast ::
  "instant \<Rightarrow> Frame \<Rightarrow> TxPolicy \<Rightarrow> Confirm \<Rightarrow> Nwk \<Rightarrow> Ieee802154Address option \<Rightarrow> SendHandle stack_act" where
  "stack_enqueue_unicast now f policy confirm hop poll =
     act_bind (enqueue_unicast_in now f policy confirm hop poll) (\<lambda>h. act_seq commit_enqueued (act_return h))"

definition stack_enqueue_broadcast :: "instant \<Rightarrow> Frame \<Rightarrow> TxPolicy \<Rightarrow> Schedule \<Rightarrow> SendHandle stack_act" where
  "stack_enqueue_broadcast now f policy schedule =
     act_bind (enqueue_broadcast_in now f policy schedule) (\<lambda>h. act_seq commit_enqueued (act_return h))"

definition next_hop_policy :: "ZigbeeStack \<Rightarrow> Policy" where
  "next_hop_policy s =
     \<lparr>is_concentrator = concentrator (zs_state s), force_route_discovery = hack_force_route_discovery (zs_state s),
      max_source_route = get_u8 (zs_tunables s) ''max_source_route''\<rparr>"

definition poll_address :: "Nib \<Rightarrow> Nwk \<Rightarrow> Ieee802154Address option" where
  "poll_address n hop = map_option Eui64Addr (sleepy_child_eui64 (nib_neighbors n) hop)"

section \<open>Route discovery\<close>

definition broadcast_route_request :: "instant \<Rightarrow> NwkCommand NwkFrame \<Rightarrow> u8 \<Rightarrow> duration \<Rightarrow> unit stack_act" where
  "broadcast_route_request now f attempts initial_delay =
     act_bind (act_gets (\<lambda>s. get_duration (zs_tunables s) ''rreq_retry_interval'')) (\<lambda>interval.
     act_seq
       (enqueue_broadcast_in now (FrameNwk f WithNetworkKey) \<lparr>tp_priority = UserNormal, tp_class = Critical\<rparr>
          (FixedInterval interval attempts (instant_add now initial_delay)))
       (act_return ()))"

definition start_route_discovery :: "instant \<Rightarrow> Nwk \<Rightarrow> unit stack_act" where
  "start_route_discovery now dest =
     act_bind (act_state (\<lambda>s.
         case begin_discovery (stack_routing s) (own_nwk s) dest now (get_duration (zs_tunables s) ''route_discovery_time'')
         of (i, r) \<Rightarrow> (i, set_routing r s))) (\<lambda>i.
     act_bind (act_gets (\<lambda>s. own_command_frame BROADCAST_ALL_ROUTERS_AND_COORDINATOR
         (RouteRequest \<lparr>rreq_many_to_one = NotManyToOne, rreq_identifier = i, rreq_destination = dest, rreq_path_cost = 0,
            rreq_destination_eui64 = eui64_for (stack_addresses s) dest\<rparr>) s)) (\<lambda>f.
     act_bind next_nwk_sequence_number (\<lambda>n.
     act_bind (act_gets (\<lambda>s. get_u8 (zs_tunables s) ''initial_rreq_retries'')) (\<lambda>retries.
       broadcast_route_request now (with_sequence_number f n) (retries + 1) 0))))"

section \<open>Unicasts\<close>

definition send_unicast :: "instant \<Rightarrow> UnicastSend \<Rightarrow> (EnqueueError + SendHandle) stack_act" where
  "send_unicast now send =
     act_bind next_nwk_sequence_number (\<lambda>n.
     act_bind (\<lambda>s. run_bind (resolve (stack_routing s) (stack_neighbors s) (with_sequence_number (us_nwk_frame send) n)
                               (us_mode send) (next_hop_policy s)) (\<lambda>r. Ret (r, s))) (\<lambda>(resolved, f).
       case resolved of
         Resolved hop \<Rightarrow>
           act_bind (act_gets (\<lambda>s. poll_address (stack_nib s) hop)) (\<lambda>poll.
           act_bind (enqueue_unicast_in now (FrameNwk f (us_security send)) (us_policy send) (us_confirmation send) hop poll)
             (\<lambda>h. act_seq commit_enqueued (act_return (Inr h))))
       | NeedDiscovery \<Rightarrow>
           (let dest = destination (nwk_header (us_nwk_frame send)) in
            act_bind (act_gets (\<lambda>s. has_unrouted (unrouted_unicasts (stack_sends s)) dest)) (\<lambda>discovering.
            act_bind (enqueue_unrouted_in now (FrameNwk f (us_security send)) (us_policy send) (us_confirmation send) dest) (\<lambda>h.
            act_seq (act_when (\<not> discovering) (start_route_discovery now dest))
              (act_seq commit_enqueued (act_return (Inr h))))))
       | Discard \<Rightarrow> act_return (Inl RouteDiscoverySuppressed)))"

text \<open>A caller that only logs a refusal.\<close>

definition send_unicast_logged :: "instant \<Rightarrow> UnicastSend \<Rightarrow> unit stack_act" where
  "send_unicast_logged now send = act_seq (send_unicast now send) (act_return ())"

section \<open>Failures\<close>

definition invalidate_routes_via :: "Nwk \<Rightarrow> unit stack_act" where
  "invalidate_routes_via hop = modify_routing (\<lambda>r. invalidate_via r hop)"

definition stack_note_route_error :: "unit stack_act" where
  "stack_note_route_error =
     act_bind (act_gets (\<lambda>s. (concentrator (zs_state s), get_u8 (zs_tunables s) ''mtorr_route_error_threshold''))) (\<lambda>(conc, threshold).
       act_when conc (act_bind (call_routing (\<lambda>r. note_route_error r threshold)) (\<lambda>kick. act_when kick (notify WakeMtorr))))"

definition stack_note_delivery_failure :: "unit stack_act" where
  "stack_note_delivery_failure =
     act_bind (act_gets (\<lambda>s. (concentrator (zs_state s), get_u8 (zs_tunables s) ''mtorr_delivery_failure_threshold''))) (\<lambda>(conc, threshold).
       act_when conc (act_bind (call_routing (\<lambda>r. note_delivery_failure r threshold)) (\<lambda>kick. act_when kick (notify WakeMtorr))))"

definition handle_relay_failure :: "instant \<Rightarrow> NwkCommand NwkFrame \<Rightarrow> Nwk \<Rightarrow> unit stack_act" where
  "handle_relay_failure now f hop =
     act_seq (invalidate_routes_via hop)
     (let src = source (nwk_header f);
          status = (if source_route (nwk_header f) \<noteq> None then SourceRouteFailure else LinkFailure) in
      act_bind (act_gets (\<lambda>s. (own_command_frame src
          (NetworkStatus \<lparr>ns_status_code = status, ns_address = destination (nwk_header f)\<rparr>) s,
          eui64_for (stack_addresses s) src))) (\<lambda>(report, ieee).
        send_unicast_logged now
          \<lparr>us_nwk_frame = with_discover_route (with_destination_ieee report ieee) Enable, us_security = WithNetworkKey,
           us_mode = RouteMode StackDecides, us_policy = STACK_CRITICAL, us_confirmation = OnHandoff\<rparr>))"

definition handle_unicast_send_failure :: "instant \<Rightarrow> NwkCommand NwkFrame \<Rightarrow> Nwk \<Rightarrow> unit stack_act" where
  "handle_unicast_send_failure now f hop =
     act_bind (act_gets own_nwk) (\<lambda>own.
       if source (nwk_header f) \<noteq> own then handle_relay_failure now f hop
       else
         act_seq (invalidate_routes_via hop)
         (act_seq (call_routing (\<lambda>r. remove_route_record r (destination (nwk_header f))))
         (act_bind (act_gets (\<lambda>s. sleepy_child_eui64 (stack_neighbors s) hop)) (\<lambda>sleepy.
            act_when (sleepy = None) stack_note_delivery_failure))))"

section \<open>Actions\<close>

definition run_send_action :: "instant \<Rightarrow> (Frame, nat, delivery_error) Action \<Rightarrow> unit stack_act" where
  "run_send_action now a =
     (case a of
        HandedOff slot \<Rightarrow> update_slot slot slot_handed_off
      | Settled slot result f failed_hop \<Rightarrow>
          act_seq
            (case failed_hop of
               None \<Rightarrow> act_return ()
             | Some hop \<Rightarrow>
                 (case f of FrameNwk nwk_frame _ \<Rightarrow> handle_unicast_send_failure now nwk_frame hop | FrameRaw _ \<Rightarrow> act_return ()))
            (update_slot slot (\<lambda>p. slot_settled p result)))"

definition run_send_actions :: "instant \<Rightarrow> SendActions \<Rightarrow> unit stack_act" where
  "run_send_actions now actions =
     act_seq (act_each (run_send_action now) actions) (act_seq (notify WakeSender) (notify WakeSrcMatch))"

definition commit_sends :: "instant \<Rightarrow> SendActions \<Rightarrow> unit stack_act" where
  "commit_sends now actions = act_seq (run_send_actions now actions) (notify WakeSendTimer)"

definition cancel_send :: "instant \<Rightarrow> SendId \<Rightarrow> bool stack_act" where
  "cancel_send now i =
     act_bind (\<lambda>s. run_bind (cancel delivery_error_from (stack_sends s) i) (\<lambda>r.
         Ret (case r of None \<Rightarrow> (None, s) | Some (actions, t) \<Rightarrow> (Some actions, set_sends t s)))) (\<lambda>r.
       case r of
         None \<Rightarrow> act_return False
       | Some actions \<Rightarrow> act_seq (commit_sends now actions) (act_return True))"

section \<open>Broadcasts\<close>

definition broadcast_jitter :: "duration stack_act" where
  "broadcast_jitter =
     act_bind (act_gets (\<lambda>s. get_duration (zs_tunables s) ''max_broadcast_jitter'')) (\<lambda>d. draw (\<lambda>e n. scaled e n d))"

definition fan_out_copy ::
  "instant \<Rightarrow> NwkCommand NwkFrame \<Rightarrow> NwkSecurityMode \<Rightarrow> SendId option \<Rightarrow> Eui64 \<times> Nwk \<Rightarrow> unit stack_act" where
  "fan_out_copy now f security copy child =
     act_bind new_slot (\<lambda>slot. act_modify (\<lambda>s.
       let u = \<lparr>u_frame = FrameNwk f security, u_priority = UserNormal, u_waiter = slot, u_confirm = OnHandoff,
                u_next_hop = snd child, u_poll_address = Some (Eui64Addr (fst child))\<rparr> in
       set_sends (snd (case copy of
           Some b \<Rightarrow> enqueue_broadcast_copy (stack_sends s) b u now (zs_tunables s)
         | None \<Rightarrow> enqueue_unicast (stack_sends s) u now (zs_tunables s))) s))"

definition maybe_fan_out_broadcast_to_sleepy_children ::
  "instant \<Rightarrow> NwkCommand NwkFrame \<Rightarrow> NwkSecurityMode \<Rightarrow> SendId option \<Rightarrow> unit stack_act" where
  "maybe_fan_out_broadcast_to_sleepy_children now f security copy =
     act_when (destination (nwk_header f) = BROADCAST_ALL_DEVICES)
       (act_bind (act_gets (\<lambda>s. filter (\<lambda>(_, child). child \<noteq> source (nwk_header f)) (sleepy_children (stack_neighbors s))))
          (act_each (fan_out_copy now f security copy)))"

definition take_broadcast_token :: "instant \<Rightarrow> TrafficClass \<Rightarrow> BroadcastAdmission stack_act" where
  "take_broadcast_token now c =
     act_state (\<lambda>s. case take_token (zs_broadcast_budget s) c now (get_u8 (zs_tunables s) ''broadcast_budget_tokens'')
                      (get_duration (zs_tunables s) ''broadcast_token_refill'')
                      (get_u8 (zs_tunables s) ''broadcast_critical_reserve'')
                      (get_u8 (zs_tunables s) ''broadcast_forwarding_reserve'')
                    of (x, b) \<Rightarrow> (x, s\<lparr>zs_broadcast_budget := b\<rparr>))"

definition note_transmission :: "instant \<Rightarrow> Nwk \<times> u8 \<Rightarrow> unit stack_act" where
  "note_transmission now key =
     act_modify (\<lambda>s. set_transactions (record_transmission (stack_transactions s) (fst key) (snd key)
       (expected_broadcast_relayers (stack_neighbors s)) now (get_duration (zs_tunables s) ''broadcast_delivery_time'')) s)"

definition send_broadcast :: "instant \<Rightarrow> BroadcastSend \<Rightarrow> (EnqueueError + SendHandle) stack_act" where
  "send_broadcast now send =
     act_bind (take_broadcast_token now (tp_class (bs_policy send))) (\<lambda>admission.
       case admission of
         Defer retry_in \<Rightarrow> act_return (Inl (RateLimited retry_in))
       | Admit \<Rightarrow>
           act_bind next_nwk_sequence_number (\<lambda>n.
           (let f = with_sequence_number (bs_nwk_frame send) n; key = (source (nwk_header f), n) in
            act_seq (note_transmission now key)
            (act_bind (act_gets (\<lambda>s. get_u8 (zs_tunables s) ''max_broadcast_retries'')) (\<lambda>retries.
             act_bind (enqueue_broadcast_in now (FrameNwk f (bs_security send)) (bs_policy send)
                         (PassiveAck key (retries + 1) now)) (\<lambda>h.
             act_seq (maybe_fan_out_broadcast_to_sleepy_children now f (bs_security send) (Some (sh_id h)))
               (act_seq commit_enqueued (act_return (Inr h)))))))))"

definition send_oneshot_broadcast :: "instant \<Rightarrow> BroadcastSend \<Rightarrow> SendHandle stack_act" where
  "send_oneshot_broadcast now send =
     act_bind next_nwk_sequence_number (\<lambda>n.
       stack_enqueue_broadcast now (FrameNwk (with_sequence_number (bs_nwk_frame send) n) (bs_security send)) (bs_policy send) Once)"

section \<open>The timer pass\<close>

definition passive_ack_quorum_heard :: "ZigbeeStack \<Rightarrow> Nwk \<times> u8 \<Rightarrow> bool" where
  "passive_ack_quorum_heard s key =
     passively_acked (stack_transactions s) (fst key) (snd key) (expected_broadcast_relayers (stack_neighbors s))
       (unat (zs_tunables s ''broadcast_passive_ack_quorum''))"

definition resolve_routed_unicast ::
  "ZigbeeStack \<Rightarrow> Frame \<Rightarrow> ((delivery_error + Nwk \<times> Ieee802154Address option) \<times> Frame) run" where
  "resolve_routed_unicast s f =
     (case f of
        FrameRaw _ \<Rightarrow> Panic
      | FrameNwk nwk_frame security \<Rightarrow>
          run_bind (resolve (stack_routing s) (stack_neighbors s) nwk_frame (RouteMode StackDecides) (next_hop_policy s))
            (\<lambda>(resolved, f').
               Ret (case resolved of Resolved hop \<Rightarrow> Inr (hop, poll_address (stack_nib s) hop)
                    | _ \<Rightarrow> Inl DRouteInactiveAfterDiscovery, FrameNwk f' security)))"

text \<open>The frames that wait for a route to a destination; resolving one of them may abort.\<close>

definition unrouted_frames :: "SendTable \<Rightarrow> Nwk \<Rightarrow> Frame list" where
  "unrouted_frames t d = map un_frame (filter (\<lambda>r. un_destination r = d) (fm_values (un_records (unrouted_unicasts t))))"

definition route_destination :: "instant \<Rightarrow> Nwk \<Rightarrow> SendActions stack_act" where
  "route_destination now d = (\<lambda>s.
     if list_ex (\<lambda>f. resolve_routed_unicast s f = Panic) (unrouted_frames (stack_sends s) d) then Panic
     else call_sends (\<lambda>t. route_unicasts delivery_error_from t d now (zs_tunables s)
                            (\<lambda>f. ret_val (resolve_routed_unicast s f))) s)"

definition drive_destination :: "instant \<Rightarrow> Nwk \<Rightarrow> SendActions stack_act" where
  "drive_destination now d =
     act_bind (act_gets (\<lambda>s. (route_status (stack_routing s) d, discovery_deadline (stack_routing s) d now))) (\<lambda>(status, deadline).
       if status = Some Active then route_destination now d
       else if deadline = None then
         act_bind (call_sends (\<lambda>t. sends_retry_discovery t d)) (\<lambda>again.
           if again then act_seq (start_route_discovery now d) (act_return [])
           else act_seq (modify_routing (\<lambda>r. mark_discovery_failed r d)) (call_sends (\<lambda>t. fail_unrouted delivery_error_from t d)))
       else act_return [])"

definition settle_quorum :: "Nwk \<times> u8 \<Rightarrow> SendActions stack_act" where
  "settle_quorum key =
     act_bind (act_gets (\<lambda>s. passive_ack_quorum_heard s key)) (\<lambda>heard.
       if heard then call_sends (\<lambda>t. broadcast_delivered t key) else act_return [])"

definition stack_next_wake :: "instant \<Rightarrow> ZigbeeStack \<Rightarrow> instant option" where
  "stack_next_wake now s =
     min_list_opt (List.map_filter id
       (sends_next_wake (stack_sends s) #
        map (\<lambda>d. discovery_deadline (stack_routing s) d now) (unrouted_destinations (unrouted_unicasts (stack_sends s)))))"

definition drive_sends :: "instant \<Rightarrow> instant option stack_act" where
  "drive_sends now =
     act_bind (act_gets (\<lambda>s. awaiting_quorum (broadcasts (stack_sends s)))) (\<lambda>keys.
     act_bind (act_collect settle_quorum keys) (\<lambda>actions1.
     act_bind (act_gets (\<lambda>s. unrouted_destinations (unrouted_unicasts (stack_sends s)))) (\<lambda>destinations.
     act_bind (act_collect (drive_destination now) destinations) (\<lambda>actions2.
     act_bind (call_sends (\<lambda>t. sends_tick delivery_error_from t now)) (\<lambda>actions3.
     act_bind (act_gets (stack_next_wake now)) (\<lambda>wake.
     act_seq (run_send_actions now (actions1 @ actions2 @ actions3)) (act_return wake)))))))"

end
