(* ===== verification/Stack_Transmit.thy ===== *)
theory Stack_Transmit
  imports Stack_Sends
begin

text \<open>
  The sender task of the driver (\<^verbatim>\<open>sends.rs\<close>, \<^verbatim>\<open>nwk.rs\<close> and \<^verbatim>\<open>mac.rs\<close>): a frame leaves the send table on loan, is secured
  with a fresh frame counter, wrapped in a MAC frame and handed to the radio; the radio's answer is reported to the table.
\<close>

section \<open>Securing a frame\<close>

definition apply_nwk_aux_header :: "NwkCommand NwkFrame \<Rightarrow> NwkSecurityMode \<Rightarrow> ZigbeeStack \<Rightarrow> NwkCommand NwkFrame" where
  "apply_nwk_aux_header f security s =
     (if security = WithNetworkKey then
        f\<lparr>aux_header := Some
            \<lparr>nwk_security_control = \<lparr>security_level = NoSecurity, key_id = NetworkKey, extended_nonce = True,
               require_verified_frame_counter = False\<rparr>,
             nwk_frame_counter = 0, nwk_extended_source = Some (own_eui64 s),
             nwk_key_sequence_number = active_key_seq_number (stack_nwk_security s)\<rparr>\<rparr>
      else f)"

definition command_codec_of :: "libs \<Rightarrow> NwkCommand command_codec" where
  "command_codec_of lib = nwk_command_codec (lib_bodies lib)"

definition encrypt_nwk_frame ::
  "libs \<Rightarrow> NwkCommand NwkFrame \<Rightarrow> NwkSecurityMode \<Rightarrow> (NwkCommand NwkFrame \<times> EncryptedNwkFrame) stack_act" where
  "encrypt_nwk_frame lib f security =
     (case security of
        WithNetworkKey \<Rightarrow>
          act_bind next_nwk_frame_counter (\<lambda>c.
          act_bind (act_run (unwrap (aux_header f))) (\<lambda>aux.
          (let f1 = f\<lparr>aux_header := Some (aux\<lparr>nwk_frame_counter := c\<rparr>)\<rparr> in
           act_bind (act_gets (\<lambda>s. network_key (stack_nwk_security s))) (\<lambda>key.
           act_bind (act_run (nwk_frame_encrypt (lib_bits lib) (command_codec_of lib) (lib_seal lib) f1 key))
             (\<lambda>enc. act_return (f1, enc))))))
      | Unsecured \<Rightarrow>
          act_bind (act_run (payload_to_bytes (command_codec_of lib) (payload f))) (\<lambda>bytes.
            act_return (f, \<lparr>enc_header = nwk_header f, enc_aux_header = None, ciphertext = bytes\<rparr>)))"

definition increment_tx_total :: "unit stack_act" where
  "increment_tx_total =
     act_bind (act_state (\<lambda>s. let n = tx_total (stack_nib s) + 1 in (n, on_nib (\<lambda>b. b\<lparr>tx_total := n\<rparr>) s))) (\<lambda>n.
       act_when (n = 0) (modify_neighbors reset_transmit_failures))"

section \<open>MAC frames\<close>

definition mac_data_frame ::
  "Nwk \<Rightarrow> bool \<Rightarrow> bool \<Rightarrow> 'p \<Rightarrow> ZigbeeStack \<Rightarrow> 'p Ieee802154Frame" where
  "mac_data_frame dest pending ack p s =
     MacData \<lparr>df_header =
        \<lparr>mac_frame_control = \<lparr>mac_frame_type = DataType, security_enabled = False, frame_pending = pending, ack_request = ack,
           pan_id_compression = True, mac_reserved1 = False, sequence_number_suppression = False,
           information_elements_present = False, dest_addr_mode = ShortAddress, frame_version = Ieee2003,
           src_addr_mode = ShortAddress\<rparr>,
         mac_sequence_number = Some (ms_sequence_number (mac (zs_core s))), dest_pan_id = Some (ms_pan_id (mac (zs_core s))),
         dest_address = Some (NwkAddr dest), src_pan_id = None, src_address = Some (NwkAddr (own_nwk s))\<rparr>,
       df_payload = p, df_fcs = 0\<rparr>"

definition build_unicast_802154_data_frame :: "Nwk \<Rightarrow> 'p \<Rightarrow> bool \<Rightarrow> ZigbeeStack \<Rightarrow> 'p Ieee802154Frame" where
  "build_unicast_802154_data_frame hop p pending s = mac_data_frame hop pending True p s"

record TxFrame =
  tx_psdu :: "u8 list"
  tx_channel :: "u8 option"
  tx_csma_ca :: bool
  tx_max_frame_retries :: u8
  tx_max_csma_backoffs :: u8
  tx_security_processed :: bool

text \<open>
  \<^verbatim>\<open>send_802154_frame\<close> up to the call of the radio: the frame with its sequence number, and what the radio is given; nothing
  when transmission is disabled.
\<close>

definition send_802154_frame ::
  "libs \<Rightarrow> ('p \<Rightarrow> u8 list) \<Rightarrow> 'p Ieee802154Frame \<Rightarrow> ('p Ieee802154Frame \<times> TxFrame option) stack_act" where
  "send_802154_frame lib pay f =
     act_bind
       (if sequence_number_suppression (mac_frame_control (mac_header f)) then act_return f
        else act_state (\<lambda>s. let n = ms_sequence_number (mac (zs_core s)) + 1 in
               (mac_header_mut (\<lambda>h. h\<lparr>mac_sequence_number := Some n\<rparr>) f,
                on_core (\<lambda>c. c\<lparr>mac := (mac c)\<lparr>ms_sequence_number := n\<rparr>\<rparr>) s))) (\<lambda>f1.
     act_bind (act_gets (\<lambda>s. (hack_disable_tx (zs_state s), ms_channel (mac (zs_core s)), zs_tunables s))) (\<lambda>(disabled, channel, t).
       if disabled then act_return (f1, None)
       else
         act_bind (act_run (mac_to_bytes_without_fcs (lib_mac lib) pay f1)) (\<lambda>bytes.
           act_return (f1, Some \<lparr>tx_psdu = bytes, tx_channel = Some channel, tx_csma_ca = True,
             tx_max_frame_retries = get_u8 t ''mac_max_frame_retries'',
             tx_max_csma_backoffs = get_u8 t ''mac_max_csma_backoffs'', tx_security_processed = True\<rparr>))))"

text \<open>The rest of it: the verdict of the radio's answer for a frame to an address.\<close>

definition tx_verdict :: "Ieee802154Address option \<Rightarrow> RadioError + TxResult \<Rightarrow> delivery_error verdict" where
  "tx_verdict dest answer =
     (case answer of
        Inl e \<Rightarrow> Inl (DRadio e)
      | Inr TxAcked \<Rightarrow> Inr ()
      | Inr TxNoAck \<Rightarrow> (case dest of None \<Rightarrow> Inr () | Some hop \<Rightarrow> Inl (DNwkNoAck hop))
      | Inr TxChannelAccessFailure \<Rightarrow> Inl DCcaFailure
      | Inr other \<Rightarrow> Inl (DTransmitFailed other))"

section \<open>Transmitting\<close>

text \<open>A frame in the radio's hands: the loan, where the MAC frame goes, and what was given to the radio.\<close>

record Airborne =
  ab_loan :: "Frame InFlight"
  ab_dest :: "Ieee802154Address option"
  ab_tx :: "TxFrame option"

definition record_unicast_activity :: "NwkCommand NwkFrame \<Rightarrow> Nwk \<Rightarrow> unit stack_act" where
  "record_unicast_activity f hop =
     act_bind (act_gets (\<lambda>s. eui64_for (stack_addresses s) hop)) (\<lambda>relaying.
     act_seq (act_let_some relaying (\<lambda>e. modify_neighbors (\<lambda>n. record_outbound_activity n e)))
       (modify_routing (\<lambda>r. record_usage r (destination (nwk_header f)))))"

definition transmit_unicast ::
  "libs \<Rightarrow> NwkCommand NwkFrame \<Rightarrow> Nwk \<Rightarrow> NwkSecurityMode \<Rightarrow> bool \<Rightarrow>
   (NwkCommand NwkFrame \<times> Ieee802154Address option \<times> TxFrame option) stack_act" where
  "transmit_unicast lib f hop security pending =
     act_bind (act_gets (apply_nwk_aux_header f security)) (\<lambda>f1.
     act_bind (encrypt_nwk_frame lib f1 security) (\<lambda>(f2, enc).
     act_bind (act_gets (build_unicast_802154_data_frame hop enc pending)) (\<lambda>m.
     act_seq (record_unicast_activity f2 hop)
     (act_seq increment_tx_total
     (act_bind (send_802154_frame lib (encrypted_nwk_frame_to_bytes (lib_bits lib)) m) (\<lambda>(m1, tx).
       act_return (f2, dest_address (mac_header m1), tx)))))))"

definition transmit_broadcast ::
  "libs \<Rightarrow> NwkCommand NwkFrame \<Rightarrow> NwkSecurityMode \<Rightarrow>
   (NwkCommand NwkFrame \<times> Ieee802154Address option \<times> TxFrame option) stack_act" where
  "transmit_broadcast lib f security =
     act_bind (act_gets (apply_nwk_aux_header f security)) (\<lambda>f1.
     act_bind (encrypt_nwk_frame lib f1 security) (\<lambda>(f2, enc).
     act_bind (act_gets (mac_data_frame 0xFFFF False False enc)) (\<lambda>m.
     act_seq increment_tx_total
     (act_bind (send_802154_frame lib (encrypted_nwk_frame_to_bytes (lib_bits lib)) m) (\<lambda>(m1, tx).
       act_return (f2, dest_address (mac_header m1), tx))))))"

definition transmit_raw ::
  "libs \<Rightarrow> u8 list Ieee802154Frame \<Rightarrow> (u8 list Ieee802154Frame \<times> Ieee802154Address option \<times> TxFrame option) stack_act" where
  "transmit_raw lib m =
     act_bind (send_802154_frame lib id m) (\<lambda>(m1, tx). act_return (m1, dest_address (mac_header m1), tx))"

definition transmit :: "libs \<Rightarrow> Frame \<Rightarrow> Transmit \<Rightarrow> (Frame \<times> Ieee802154Address option \<times> TxFrame option) stack_act" where
  "transmit lib f how =
     (case (how, f) of
        (TxUnicast hop pending, FrameNwk nwk_frame security) \<Rightarrow>
          act_bind (transmit_unicast lib nwk_frame hop security pending) (\<lambda>(g, r). act_return (FrameNwk g security, r))
      | (TxUnicast _ pending, FrameRaw raw) \<Rightarrow>
          act_bind (transmit_raw lib (mac_header_mut (\<lambda>h. h\<lparr>mac_frame_control := (mac_frame_control h)\<lparr>frame_pending := pending\<rparr>\<rparr>) raw))
            (\<lambda>(g, r). act_return (FrameRaw g, r))
      | (TxBroadcast, FrameNwk nwk_frame security) \<Rightarrow>
          act_bind (transmit_broadcast lib nwk_frame security) (\<lambda>(g, r). act_return (FrameNwk g security, r))
      | (TxBroadcast, FrameRaw raw) \<Rightarrow> act_bind (transmit_raw lib raw) (\<lambda>(g, r). act_return (FrameRaw g, r)))"

definition sender_begin :: "libs \<Rightarrow> instant \<Rightarrow> Airborne option stack_act" where
  "sender_begin lib now =
     act_bind (call_sends (\<lambda>t. sends_dequeue t now)) (\<lambda>taken.
       case taken of
         None \<Rightarrow> act_return None
       | Some fl \<Rightarrow>
           act_bind (transmit lib (fl_frame fl) (fl_transmit fl)) (\<lambda>(f, dest, tx).
             act_return (Some \<lparr>ab_loan = fl\<lparr>fl_frame := f\<rparr>, ab_dest = dest, ab_tx = tx\<rparr>)))"

definition unicast_retry_delay :: "duration stack_act" where
  "unicast_retry_delay =
     act_bind (act_gets (\<lambda>s. get_duration (zs_tunables s) ''unicast_retry_delay'')) (\<lambda>d.
     act_bind (draw (\<lambda>e n. scaled e n d)) (\<lambda>jitter. act_return (d + jitter)))"

definition count_transmit_failure :: "Airborne \<Rightarrow> delivery_error verdict \<Rightarrow> unit stack_act" where
  "count_transmit_failure a result =
     (case (fl_transmit (ab_loan a), fl_frame (ab_loan a), result) of
        (TxUnicast hop _, FrameNwk _ _, Inl (DNwkNoAck _)) \<Rightarrow>
          act_bind (act_gets (\<lambda>s. eui64_for (stack_addresses s) hop)) (\<lambda>e.
            act_let_some e (\<lambda>e. modify_neighbors (\<lambda>n. record_transmit_failure n e)))
      | _ \<Rightarrow> act_return ())"

definition sender_end :: "instant \<Rightarrow> Airborne \<Rightarrow> RadioError + TxResult \<Rightarrow> unit stack_act" where
  "sender_end now a answer =
     (let result = (case ab_tx a of None \<Rightarrow> Inr () | Some _ \<Rightarrow> tx_verdict (ab_dest a) answer) in
      act_seq (count_transmit_failure a result)
      (act_bind unicast_retry_delay (\<lambda>retry_delay.
       act_bind broadcast_jitter (\<lambda>jitter.
       act_bind (act_gets (\<lambda>s. get_duration (zs_tunables s) ''passive_ack_timeout'')) (\<lambda>timeout.
       act_bind (call_sends (\<lambda>t. sends_transmitted t (ab_loan a) result now retry_delay (timeout + jitter))) (\<lambda>actions.
         commit_sends now actions))))))"

end
