(* ===== verification/Stack_Routes.thy ===== *)
theory Stack_Routes
  imports Stack_Sends
begin

text \<open>
  Handlers of the driver that keep the network layer's tables: address conflicts (\<^verbatim>\<open>joining.rs\<close>), route requests, route replies
  and network status (\<^verbatim>\<open>route.rs\<close>), link status and ageing (\<^verbatim>\<open>neighbor.rs\<close>), polls and keepalives (\<^verbatim>\<open>indirect.rs\<close>).
\<close>

section \<open>Address conflicts\<close>

definition critical_unicast :: "NwkCommand NwkFrame \<Rightarrow> NwkSecurityMode \<Rightarrow> SendMode \<Rightarrow> UnicastSend" where
  "critical_unicast f security mode =
     \<lparr>us_nwk_frame = f, us_security = security, us_mode = mode, us_policy = STACK_CRITICAL, us_confirmation = OnHandoff\<rparr>"

definition send_rejoin_response ::
  "instant \<Rightarrow> Nwk \<Rightarrow> Eui64 \<Rightarrow> Nwk \<Rightarrow> Nwk802154AssociationStatus \<Rightarrow> bool \<Rightarrow> unit stack_act" where
  "send_rejoin_response now dest dest_ieee assigned status secured =
     act_bind (act_gets (own_command_frame dest (RejoinResponse \<lparr>rjr_network_address = assigned, rjr_status = status\<rparr>))) (\<lambda>f.
       let response = with_destination_ieee (with_radius f 1) (Some dest_ieee) in
       send_unicast_logged now
         (critical_unicast (if secured then response else unsecured response) (if secured then WithNetworkKey else Unsecured) Direct))"

definition generate_unused_network_address :: "Nwk stack_act" where
  "generate_unused_network_address =
     act_bind (draw random_addresses) (\<lambda>candidates.
       (\<lambda>s. run_bind (generate_unused (stack_addresses s) (stack_neighbors s) candidates) (\<lambda>a. Ret (a, s))))"

definition allocate_network_address :: "Eui64 \<Rightarrow> Nwk stack_act" where
  "allocate_network_address e =
     act_bind (draw random_addresses) (\<lambda>candidates.
       (\<lambda>s. run_bind (allocate (stack_addresses s) e (stack_neighbors s) candidates) (\<lambda>a. Ret (a, s))))"

definition reassign_child_address :: "instant \<Rightarrow> Eui64 \<Rightarrow> Nwk \<Rightarrow> unit stack_act" where
  "reassign_child_address now e old =
     act_bind generate_unused_network_address (\<lambda>new. send_rejoin_response now old e new RejoinSuccessful True)"

definition conflict_is_recent :: "instant \<Rightarrow> duration \<Rightarrow> AddressConflict \<Rightarrow> bool" where
  "conflict_is_recent now window c \<longleftrightarrow> now < instant_add (handled_at c) window"

definition record_conflict :: "instant \<Rightarrow> Nwk \<Rightarrow> AddrConflictSource \<Rightarrow> instant option \<Rightarrow> unit stack_act" where
  "record_conflict now address src report =
     act_modify (\<lambda>s.
       let window = get_duration (zs_tunables s) ''broadcast_delivery_time'';
           kept = fm_retain (\<lambda>_ c. conflict_is_recent now (2 * window) c) (zs_address_conflicts s)
       in s\<lparr>zs_address_conflicts := snd (fm_insert kept address
              \<lparr>handled_at = now, heard_from_network = (src = ConflictNetwork), report_at = report\<rparr>)\<rparr>)"

definition resolve_conflict :: "instant \<Rightarrow> Nwk \<Rightarrow> unit stack_act" where
  "resolve_conflict now address =
     act_bind (act_gets (\<lambda>s. (own_nwk s, end_device_child_eui64 (stack_neighbors s) address))) (\<lambda>(own, child).
       if address = own then act_return ()
       else case child of
           Some e \<Rightarrow> reassign_child_address now e address
         | None \<Rightarrow>
             act_seq (modify_addresses (\<lambda>a. forget_address a address))
               (modify_routing (\<lambda>r. snd (remove_route r address))))"

definition handle_address_conflict :: "instant \<Rightarrow> Nwk \<Rightarrow> AddrConflictSource \<Rightarrow> unit stack_act" where
  "handle_address_conflict now address src =
     act_bind (act_gets (\<lambda>s. case fm_get (zs_address_conflicts s) address of
         None \<Rightarrow> False
       | Some c \<Rightarrow> conflict_is_recent now (get_duration (zs_tunables s) ''broadcast_delivery_time'') c)) (\<lambda>recent.
       if recent then
         act_modify (\<lambda>s. s\<lparr>zs_address_conflicts := fm_get_mut (zs_address_conflicts s) address
           (\<lambda>c. c\<lparr>heard_from_network := heard_from_network c \<or> src = ConflictNetwork\<rparr>)\<rparr>)
       else
         act_bind (if src = ConflictLocal then act_bind broadcast_jitter (\<lambda>j. act_return (Some (instant_add now j)))
                   else act_return None) (\<lambda>report.
         act_seq (record_conflict now address src report)
         (act_seq (act_when (src = ConflictLocal) (notify WakeAddressConflict)) (resolve_conflict now address))))"

definition update_nwk_eui64_mapping :: "instant \<Rightarrow> Nwk \<Rightarrow> Eui64 \<Rightarrow> unit stack_act" where
  "update_nwk_eui64_mapping now nwk e =
     act_bind (act_state (\<lambda>s. case update_mapping (stack_addresses s) e nwk of (conflict, a) \<Rightarrow> (conflict, set_addresses a s)))
       (\<lambda>conflict. act_when conflict (handle_address_conflict now nwk ConflictLocal))"

definition earliest_conflict_report :: "ZigbeeStack \<Rightarrow> instant option" where
  "earliest_conflict_report s = min_list_opt (List.map_filter report_at (fm_values (zs_address_conflicts s)))"

definition conflict_due :: "instant \<Rightarrow> AddressConflict \<Rightarrow> bool" where
  "conflict_due now c \<longleftrightarrow> (case report_at c of None \<Rightarrow> False | Some t \<Rightarrow> t \<le> now)"

definition take_due_conflicts :: "instant \<Rightarrow> Nwk list stack_act" where
  "take_due_conflicts now =
     act_state (\<lambda>s.
       (map fst (filter (\<lambda>(_, c). conflict_due now c \<and> \<not> heard_from_network c) (zs_address_conflicts s)),
        s\<lparr>zs_address_conflicts :=
            fm_values_mut (\<lambda>c. if conflict_due now c then c\<lparr>report_at := None\<rparr> else c) (zs_address_conflicts s)\<rparr>))"

definition report_conflict :: "instant \<Rightarrow> Nwk \<Rightarrow> unit stack_act" where
  "report_conflict now address =
     act_bind (act_gets (own_command_frame BROADCAST_RX_ON_WHEN_IDLE
       (NetworkStatus \<lparr>ns_status_code = StatusAddressConflict, ns_address = address\<rparr>))) (\<lambda>f.
     act_seq (send_broadcast now \<lparr>bs_nwk_frame = f, bs_security = WithNetworkKey,
         bs_policy = \<lparr>tp_priority = UserNormal, tp_class = Critical\<rparr>\<rparr>) (act_return ()))"

definition drive_conflict_reports :: "instant \<Rightarrow> unit stack_act" where
  "drive_conflict_reports now = act_bind (take_due_conflicts now) (act_each (report_conflict now))"

section \<open>Route replies and requests\<close>

definition relay_route_reply ::
  "instant \<Rightarrow> NwkCommand NwkFrame \<Rightarrow> NwkRouteReplyCommand \<Rightarrow> Nwk \<Rightarrow> u8 \<Rightarrow> unit stack_act" where
  "relay_route_reply now f cmd hop cost =
     act_bind (act_gets (\<lambda>s. link (stack_neighbors s) hop)) (\<lambda>l.
       act_let_some l (\<lambda>l.
         act_bind (act_gets (own_command_frame hop (RouteReply
           (cmd\<lparr>rrep_path_cost := sat_add cost (max (nl_incoming_cost l) (nl_outgoing_cost l))\<rparr>)))) (\<lambda>reply.
           send_unicast_logged now (critical_unicast
             (with_destination_ieee (with_radius reply (max (sat_sub (radius (nwk_header f)) 1) 1)) (Some (nl_eui64 l)))
             WithNetworkKey Direct))))"

definition handle_route_reply :: "instant \<Rightarrow> NwkCommand NwkFrame \<Rightarrow> NwkRouteReplyCommand \<Rightarrow> unit stack_act" where
  "handle_route_reply now f cmd =
     act_bind (act_gets (\<lambda>s. link (stack_neighbors s) (source (nwk_header f)))) (\<lambda>sender.
     act_let_some sender (\<lambda>l.
       act_when (nl_outgoing_cost l \<noteq> 0)
         (act_bind (act_state (\<lambda>s.
             case accept_route_reply (stack_routing s) (own_nwk s) (rrep_originator cmd) (rrep_identifier cmd)
                    (rrep_responder cmd) (source (nwk_header f)) (rrep_path_cost cmd)
             of (outcome, r) \<Rightarrow> (outcome, set_routing r s))) (\<lambda>outcome.
           case disposition outcome of
             Drop \<Rightarrow> act_return ()
           | Established \<Rightarrow> notify WakeSendTimer
           | Relay hop cost \<Rightarrow> act_seq (notify WakeSendTimer) (relay_route_reply now f cmd hop cost)))))"

definition responder_for :: "NwkRouteRequestCommand \<Rightarrow> ZigbeeStack \<Rightarrow> Eui64 option" where
  "responder_for cmd s =
     (if rreq_many_to_one cmd \<noteq> NotManyToOne then None
      else if rreq_destination cmd = own_nwk s \<or> rreq_destination_eui64 cmd = Some (own_eui64 s) then Some (own_eui64 s)
      else end_device_child_eui64 (stack_neighbors s) (rreq_destination cmd))"

definition answer_route_request ::
  "instant \<Rightarrow> NwkCommand NwkFrame \<Rightarrow> NwkRouteRequestCommand \<Rightarrow> Nwk \<Rightarrow> NeighborLink \<Rightarrow> u8 \<Rightarrow> Eui64 \<Rightarrow> unit stack_act" where
  "answer_route_request now f cmd sender l cost responder =
     act_bind (act_gets (own_command_frame sender (RouteReply
         \<lparr>rrep_identifier = rreq_identifier cmd, rrep_originator = source (nwk_header f), rrep_responder = rreq_destination cmd,
          rrep_path_cost = cost, rrep_originator_eui64 = source_ieee (nwk_header f), rrep_responder_eui64 = Some responder\<rparr>))) (\<lambda>reply.
       send_unicast_logged now (critical_unicast (with_destination_ieee reply (Some (nl_eui64 l))) WithNetworkKey Direct))"

definition rreq_jitter :: "duration stack_act" where
  "rreq_jitter =
     act_bind (act_gets (\<lambda>s. (get_duration (zs_tunables s) ''min_rreq_jitter'', get_duration (zs_tunables s) ''max_rreq_jitter'')))
       (\<lambda>(lo, hi). act_bind (draw (\<lambda>e n. scaled e n (hi - lo))) (\<lambda>d. act_return ((lo + d) * 2)))"

definition relay_route_request ::
  "instant \<Rightarrow> NwkCommand NwkFrame \<Rightarrow> NwkRouteRequestCommand \<Rightarrow> u8 \<Rightarrow> unit stack_act" where
  "relay_route_request now f cmd cost =
     act_seq (act_when (rreq_many_to_one cmd = NotManyToOne) (modify_routing (\<lambda>r. note_relayed_discovery r (rreq_destination cmd))))
     (let rebroadcast_radius = sat_sub (radius (nwk_header f)) 1 in
      act_when (rebroadcast_radius \<noteq> 0)
        (act_bind (act_gets (own_command_frame (destination (nwk_header f)) (RouteRequest (cmd\<lparr>rreq_path_cost := cost\<rparr>)))) (\<lambda>g.
         act_bind rreq_jitter (\<lambda>jitter.
         act_bind (act_gets (\<lambda>s. get_u8 (zs_tunables s) ''rreq_retries'')) (\<lambda>retries.
         act_seq (broadcast_route_request now
             (with_sequence_number (with_radius (with_source_ieee (with_source g (source (nwk_header f)))
                (source_ieee (nwk_header f))) rebroadcast_radius) (sequence_number (nwk_header f)))
             (retries + 1) jitter) commit_enqueued)))))"

definition handle_route_request ::
  "instant \<Rightarrow> NwkCommand NwkFrame \<Rightarrow> NwkRouteRequestCommand \<Rightarrow> Nwk \<Rightarrow> unit stack_act" where
  "handle_route_request now f cmd sender =
     act_bind (act_gets (\<lambda>s. link (stack_neighbors s) sender)) (\<lambda>sender_link.
     act_let_some sender_link (\<lambda>l.
       act_when (nl_outgoing_cost l \<noteq> 0)
         (let contributing = max (nl_outgoing_cost l) (nl_incoming_cost l);
              updated = sat_add (rreq_path_cost cmd) contributing in
          act_bind (act_state (\<lambda>s.
              case accept_route_request (stack_routing s) (source (nwk_header f)) (rreq_identifier cmd) (rreq_destination cmd)
                     sender updated (rreq_many_to_one cmd) now (get_duration (zs_tunables s) ''route_discovery_time'')
              of (outcome, r) \<Rightarrow> (outcome, set_routing r s))) (\<lambda>outcome.
            act_when (accepted outcome)
              (act_seq (notify WakeSendTimer)
              (act_bind (act_gets (responder_for cmd)) (\<lambda>responder.
                 case responder of
                   Some e \<Rightarrow> answer_route_request now f cmd sender l contributing e
                 | None \<Rightarrow> relay_route_request now f cmd updated)))))))"

definition send_many_to_one_route_request :: "instant \<Rightarrow> SendHandle stack_act" where
  "send_many_to_one_route_request now =
     act_bind (act_state (\<lambda>s.
         case begin_many_to_one_advertisement (stack_routing s) (own_nwk s) now
                (get_duration (zs_tunables s) ''route_discovery_time'')
         of (i, r) \<Rightarrow> (i, set_routing r s))) (\<lambda>i.
     act_bind (act_gets (\<lambda>s. with_radius (own_command_frame BROADCAST_ALL_ROUTERS_AND_COORDINATOR
         (RouteRequest \<lparr>rreq_many_to_one = ManyToOneSenderSupportsRouteRecordTable, rreq_identifier = i,
            rreq_destination = BROADCAST_ALL_ROUTERS_AND_COORDINATOR, rreq_path_cost = 0, rreq_destination_eui64 = None\<rparr>) s)
         (get_u8 (zs_tunables s) ''concentrator_radius''))) (\<lambda>f.
       send_oneshot_broadcast now \<lparr>bs_nwk_frame = f, bs_security = WithNetworkKey,
         bs_policy = \<lparr>tp_priority = Background, tp_class = Critical\<rparr>\<rparr>))"

definition handle_network_status :: "instant \<Rightarrow> NwkNetworkStatusCommand \<Rightarrow> unit stack_act" where
  "handle_network_status now cmd =
     (let status = ns_status_code cmd in
      if status \<in> {LegacyNoRouteAvailable, LegacyLinkFailure, LinkFailure, SourceRouteFailure} then
        act_seq (modify_routing (\<lambda>r. snd (remove_route r (ns_address cmd))))
        (act_seq (act_when (status = SourceRouteFailure) (modify_routing (\<lambda>r. snd (remove_route_record r (ns_address cmd)))))
           stack_note_route_error)
      else if status = ManyToOneRouteFailure then stack_note_route_error
      else if status = StatusAddressConflict then handle_address_conflict now (ns_address cmd) ConflictNetwork
      else act_return ())"

section \<open>Link status\<close>

definition maybe_recompute_lqa :: "Nwk \<Rightarrow> u8 \<Rightarrow> unit stack_act" where
  "maybe_recompute_lqa sender lqi =
     (\<lambda>s. run_bind (record_lqa (stack_neighbors s) sender lqi) (\<lambda>n. Ret ((), set_neighbors n s)))"

definition maybe_age_neighbors :: "instant \<Rightarrow> unit stack_act" where
  "maybe_age_neighbors now =
     act_bind (act_state (\<lambda>s.
         case age (stack_neighbors s) now
                (unat (get_u8 (zs_tunables s) ''router_age_limit'') * get_duration (zs_tunables s) ''link_status_period'')
         of (stale, n) \<Rightarrow> (stale, set_neighbors n s))) (act_each invalidate_routes_via)"

definition handle_link_status :: "instant \<Rightarrow> NwkCommand NwkFrame \<Rightarrow> NwkLinkStatusCommand \<Rightarrow> u8 \<Rightarrow> unit stack_act" where
  "handle_link_status now f cmd lqi =
     act_seq (maybe_age_neighbors now)
     (act_let_some (source_ieee (nwk_header f)) (\<lambda>e.
        act_bind (\<lambda>s. run_bind (on_link_status (stack_neighbors s) (own_nwk s) e (source (nwk_header f)) lqi cmd now)
                        (\<lambda>(lost, n). Ret (lost, set_neighbors n s))) (\<lambda>lost.
        act_seq (act_let_some lost invalidate_routes_via) (notify WakeLinkStatus))))"

definition MAX_LINK_STATUSES :: nat where
  "MAX_LINK_STATUSES = 7"

text \<open>The frames of one advertisement, from an index on: first, last, entries.\<close>

function link_status_chunks :: "'a list \<Rightarrow> nat \<Rightarrow> (bool \<times> bool \<times> 'a list) list" where
  "link_status_chunks xs start =
     (let total = length xs; final = min (start + MAX_LINK_STATUSES) total;
          chunk = (start = 0, final = total, take (final - start) (drop start xs))
      in if final = total then [chunk] else chunk # link_status_chunks xs (final - 1))"
  by auto

termination
  by (relation "measure (\<lambda>(xs, start). length xs - start)") (auto simp: MAX_LINK_STATUSES_def)

declare link_status_chunks.simps [simp del]

definition send_link_status_frame :: "instant \<Rightarrow> bool \<times> bool \<times> NwkLinkStatus list \<Rightarrow> SendHandle stack_act" where
  "send_link_status_frame now chunk =
     (case chunk of (first, final, entries) \<Rightarrow>
        act_bind (act_gets (\<lambda>s. with_radius (own_command_frame BROADCAST_ALL_ROUTERS_AND_COORDINATOR
            (LinkStatus \<lparr>is_first_frame = first, is_last_frame = final, link_statuses = entries\<rparr>) s) 1)) (\<lambda>f.
          send_oneshot_broadcast now \<lparr>bs_nwk_frame = f, bs_security = WithNetworkKey,
            bs_policy = \<lparr>tp_priority = Background, tp_class = Critical\<rparr>\<rparr>))"

definition send_link_status_broadcast :: "instant \<Rightarrow> bool \<Rightarrow> (EnqueueError + SendHandle) stack_act" where
  "send_link_status_broadcast now nothing =
     act_bind (act_gets own_nwk) (\<lambda>own.
       if own = 0xFFFF then act_return (Inl NotStarted)
       else
         act_seq (modify_routing routing_decay_activity)
         (act_seq (maybe_age_neighbors now)
         (act_seq (modify_neighbors neighbors_decay_activity)
         (act_bind (act_gets (\<lambda>s. if nothing then [] else link_status_entries (stack_neighbors s))) (\<lambda>entries.
            let chunks = link_status_chunks (sort_key ls_address entries) 0 in
            act_seq (act_each (\<lambda>c. act_seq (send_link_status_frame now c) (act_return ())) (butlast chunks))
              (act_bind (send_link_status_frame now (last chunks)) (\<lambda>h. act_return (Inr h))))))))"

section \<open>Polls and keepalives\<close>

definition drop_indirect_transactions :: "instant \<Rightarrow> Eui64 option \<Rightarrow> Nwk \<Rightarrow> unit stack_act" where
  "drop_indirect_transactions now e nwk =
     act_bind (call_sends (\<lambda>t. drop_indirect_unicasts delivery_error_from t e nwk)) (commit_sends now)"

definition queue_leave_for_stale_child :: "instant \<Rightarrow> Nwk \<Rightarrow> unit stack_act" where
  "queue_leave_for_stale_child now nwk =
     act_bind (act_gets (\<lambda>s. has_awaiting_poll (unicasts (stack_sends s)) (NwkAddr nwk))) (\<lambda>queued.
       act_when (\<not> queued)
         (act_bind (act_gets (\<lambda>s. with_radius (own_command_frame nwk
             (Leave \<lparr>lv_rejoin = True, lv_request = True, lv_remove_children = False\<rparr>) s) 1)) (\<lambda>f.
          act_bind next_nwk_sequence_number (\<lambda>n.
          act_seq (stack_enqueue_unicast now (FrameNwk (with_sequence_number f n) WithNetworkKey) STACK_CRITICAL OnHandoff nwk
              (Some (NwkAddr nwk))) (act_return ())))))"

definition poll_identity :: "Ieee802154Address \<Rightarrow> ZigbeeStack \<Rightarrow> Eui64 option \<times> Nwk option" where
  "poll_identity a s =
     (case a of
        Eui64Addr e \<Rightarrow> (Some e, nwk_for (stack_addresses s) e)
      | NwkAddr n \<Rightarrow> (eui64_for (stack_addresses s) n, Some n))"

definition handle_data_request :: "instant \<Rightarrow> Ieee802154CommandFrame \<Rightarrow> unit stack_act" where
  "handle_data_request now f =
     act_let_some (src_address (cf_header f)) (\<lambda>a.
       act_bind (act_gets (poll_identity a)) (\<lambda>(e, nwk).
       act_bind (call_neighbors (\<lambda>n. refresh_child_timeout n e nwk now)) (\<lambda>known.
       act_bind (act_gets (\<lambda>s. src_match_contains (zs_src_match_written s) a)) (\<lambda>advertised.
       act_bind (if advertised then
                   act_bind (call_sends (\<lambda>t. sends_poll t e nwk now)) (\<lambda>queued. act_seq commit_enqueued (act_return queued))
                 else act_return False) (\<lambda>delivered.
         act_when (\<not> known \<and> \<not> delivered) (act_let_some nwk (queue_leave_for_stale_child now)))))))"

text \<open>The rewrite of the source match table: the table to write when it changed, and the note once the radio has it.\<close>

definition src_match_table :: "ZigbeeStack \<Rightarrow> SrcMatchTable option" where
  "src_match_table s =
     (let t = poll_addresses (unicasts (stack_sends s)) (addr_map (stack_addresses s))
      in if zs_src_match_written s = t then None else Some t)"

definition note_src_match_written :: "SrcMatchTable \<Rightarrow> unit stack_act" where
  "note_src_match_written t = act_modify (\<lambda>s. s\<lparr>zs_src_match_written := t\<rparr>)"

definition evict_child :: "instant \<Rightarrow> Eui64 \<times> Nwk \<Rightarrow> unit stack_act" where
  "evict_child now child =
     (case child of (e, nwk) \<Rightarrow>
        act_seq (drop_indirect_transactions now (Some e) nwk)
        (act_seq (modify_routing (\<lambda>r. snd (remove_route r nwk)))
           (push_notification (NotifyDeviceLeft nwk (Some e) KeepaliveTimeout))))"

definition stack_evict_timed_out_children :: "instant \<Rightarrow> unit stack_act" where
  "stack_evict_timed_out_children now =
     act_bind (call_neighbors (\<lambda>n. Neighbors.evict_timed_out_children n now)) (act_each (evict_child now))"

definition cleanup_moved_child :: "instant \<Rightarrow> Eui64 \<Rightarrow> Nwk \<Rightarrow> unit stack_act" where
  "cleanup_moved_child now e nwk =
     act_seq (drop_indirect_transactions now (Some e) nwk) (modify_routing (\<lambda>r. snd (remove_route r nwk)))"

definition forget_moved_child :: "instant \<Rightarrow> Eui64 \<Rightarrow> unit stack_act" where
  "forget_moved_child now e =
     act_bind (call_neighbors (\<lambda>n. take_child n e)) (\<lambda>removed. act_let_some removed (cleanup_moved_child now e))"

end
