(* ===== verification/Stack_Joining.thy ===== *)
theory Stack_Joining
  imports Stack_Routes
begin

text \<open>
  \<^verbatim>\<open>zigbee_stack/joining.rs\<close>: association, rejoin and leave, the delivery of the network key, the exchange of trust center link
  keys, and the join window. A flow that awaits the verdict of a send is a tasklet: \<open>run_tasklet\<close> takes it from one await to the
  next.
\<close>

section \<open>Join window\<close>

definition permit_joins :: "instant \<Rightarrow> u64 \<Rightarrow> bool \<Rightarrow> unit stack_act" where
  "permit_joins now seconds accept_direct_joins =
     (let deadline = (if seconds \<noteq> 0 then Some (instant_add now (unat seconds * 1000000)) else None) in
      act_modify (on_core (\<lambda>c.
        (if accept_direct_joins then (\<lambda>c. c\<lparr>permitting_joins_until := deadline\<rparr>) else id)
          (c\<lparr>trust_center_joins_until := deadline\<rparr>))))"

definition permitting_joins :: "instant \<Rightarrow> ZigbeeStack \<Rightarrow> bool" where
  "permitting_joins now s \<longleftrightarrow> (case permitting_joins_until (zs_core s) of None \<Rightarrow> False | Some t \<Rightarrow> now < t)"

definition trust_center_permitting_joins :: "instant \<Rightarrow> ZigbeeStack \<Rightarrow> bool" where
  "trust_center_permitting_joins now s \<longleftrightarrow>
     (case trust_center_joins_until (zs_core s) of None \<Rightarrow> False | Some t \<Rightarrow> now < t)"

definition may_rejoin_unsecured :: "Eui64 \<Rightarrow> ZigbeeStack \<Rightarrow> bool" where
  "may_rejoin_unsecured e s \<longleftrightarrow>
     zs_tunables s ''allow_unsecured_rejoins'' \<noteq> 0 \<or> has_unique_link_key (stack_aps_security s) e"

definition at_child_capacity :: "ZigbeeStack \<Rightarrow> bool" where
  "at_child_capacity s \<longleftrightarrow>
     unat (get_u8 (zs_tunables s) ''max_children'') \<le> end_device_child_count (stack_neighbors s)"

section \<open>Association\<close>

definition build_802154_association_response ::
  "Eui64 \<Rightarrow> Nwk \<Rightarrow> Ieee802154AssociationStatus \<Rightarrow> ZigbeeStack \<Rightarrow> u8 list Ieee802154Frame" where
  "build_802154_association_response e short status s =
     MacCommand \<lparr>cf_header =
        \<lparr>mac_frame_control = \<lparr>mac_frame_type = CommandType, security_enabled = False, frame_pending = False, ack_request = True,
           pan_id_compression = True, mac_reserved1 = False, sequence_number_suppression = False,
           information_elements_present = False, dest_addr_mode = LongAddress, frame_version = Ieee2003,
           src_addr_mode = LongAddress\<rparr>,
         mac_sequence_number = Some (ms_sequence_number (mac (zs_core s))), dest_pan_id = Some (ms_pan_id (mac (zs_core s))),
         dest_address = Some (Eui64Addr e), src_pan_id = None, src_address = Some (Eui64Addr (own_eui64 s))\<rparr>,
       command_payload = AssociationResponse \<lparr>short_address = short, association_status = status\<rparr>, cf_fcs = 0\<rparr>"

definition queue_association_response ::
  "instant \<Rightarrow> Eui64 \<Rightarrow> Nwk \<Rightarrow> Ieee802154AssociationStatus \<Rightarrow> SendHandle option stack_act" where
  "queue_association_response now e short status =
     act_seq (drop_indirect_transactions now (Some e) short)
     (act_bind (act_gets (build_802154_association_response e short status)) (\<lambda>f.
      act_bind (stack_enqueue_unicast now (FrameRaw f) STACK_CRITICAL OnHandoff short (Some (Eui64Addr e))) (\<lambda>h.
        act_return (if status = AssociationSuccessful then Some h else None))))"

definition stack_begin_join :: "Eui64 \<Rightarrow> unit stack_act" where
  "stack_begin_join e =
     act_bind (call_aps_security (\<lambda>a. Ret (begin_join a e))) (\<lambda>provisional.
       act_let_some provisional (\<lambda>k. push_notification (LinkKeyUpdate e k)))"

definition stack_set_provisional_key :: "Eui64 \<Rightarrow> Key \<Rightarrow> unit stack_act" where
  "stack_set_provisional_key e k = call_aps_security (\<lambda>a. Ret ((), set_provisional_key a e k))"

definition device_timeout_for :: "NwkDeviceType \<Rightarrow> ZigbeeStack \<Rightarrow> duration run" where
  "device_timeout_for ty s =
     (if ty = EndDevice then
        run_bind (get_end_device_timeout (zs_tunables s) ''end_device_timeout_default'') (Ret \<circ> end_device_timeout_duration)
      else Ret (0xFFFFFFFF * 1000000))"

definition stack_upsert_child ::
  "instant \<Rightarrow> Eui64 \<Rightarrow> Nwk \<Rightarrow> NwkDeviceType \<Rightarrow> bool \<Rightarrow> Relationship \<Rightarrow> unit stack_act" where
  "stack_upsert_child now e nwk ty idle rel =
     (\<lambda>s. run_bind (device_timeout_for ty s) (\<lambda>timeout.
        Ret ((), set_neighbors (upsert_child (stack_neighbors s)
          \<lparr>cd_eui64 = e, cd_network_address = nwk, cd_device_type = ty, cd_rx_on_when_idle = idle,
           cd_device_timeout = timeout, cd_relationship = rel\<rparr> now) s)))"

definition push_tasklet :: "Tasklet \<Rightarrow> unit stack_act" where
  "push_tasklet t = act_modify (\<lambda>s. s\<lparr>zs_tasklets := zs_tasklets s @ [t]\<rparr>)"

definition denial_status :: "instant \<Rightarrow> NwkDeviceType \<Rightarrow> Eui64 \<Rightarrow> ZigbeeStack \<Rightarrow> Ieee802154AssociationStatus option" where
  "denial_status now ty e s =
     (if \<not> permitting_joins now s then Some PanAccessDenied
      else if ty = EndDevice \<and> \<not> neighbors_contains (stack_neighbors s) e \<and> at_child_capacity s then Some PanAtCapacity
      else None)"

definition process_802154_association_request ::
  "instant \<Rightarrow> Ieee802154CommandFrame \<Rightarrow> Ieee802154AssociationRequestCommand \<Rightarrow> unit stack_act" where
  "process_802154_association_request now f request =
     (case src_address (cf_header f) of
        Some (Eui64Addr e) \<Rightarrow>
          (let ty = (case device_type request of FullFunctionDevice \<Rightarrow> Router | ReducedFunctionDevice \<Rightarrow> EndDevice) in
           act_bind (act_gets (denial_status now ty e)) (\<lambda>denial.
             case denial of
               Some status \<Rightarrow> act_seq (queue_association_response now e 0xFFFF status) (act_return ())
             | None \<Rightarrow>
                 act_bind (allocate_network_address e) (\<lambda>short.
                 act_seq (stack_begin_join e)
                 (act_seq (update_nwk_eui64_mapping now short e)
                 (act_seq (stack_upsert_child now e short ty (receive_on_when_idle request) Child)
                 (act_seq (notify WakeMaintenance) (push_tasklet (JoinStart e short))))))))
      | _ \<Rightarrow> act_return ())"

section \<open>The network key\<close>

definition aps_command_control :: "bool \<Rightarrow> ApsFrameControl" where
  "aps_command_control secured =
     \<lparr>aps_frame_type = ApsCommandType, aps_delivery_mode = ApsUnicast, aps_reserved1 = 0, aps_security = secured,
      aps_ack_request = False, aps_extended_header = False\<rparr>"

definition build_encrypted_network_key_transport ::
  "libs \<Rightarrow> Eui64 \<Rightarrow> JoinKind \<Rightarrow> EncryptedApsCommandFrame stack_act" where
  "build_encrypted_network_key_transport lib e kind =
     act_bind (act_gets (\<lambda>s. (network_key (stack_nwk_security s), key_seq_number (stack_nwk_security s), own_eui64 s)))
       (\<lambda>(key, seq, own).
     act_bind next_aps_counter (\<lambda>c.
       let cmd = \<lparr>cmd_frame_control = aps_command_control True, cmd_counter = c,
                  aps_command = TransportKey \<lparr>tk_standard_key_type = StandardNetworkKey,
                    key_descriptor = NwkKey \<lparr>nk_key = key, nk_sequence_number = seq, nk_destination_address = e,
                      nk_source_address = own\<rparr>\<rparr>\<rparr> in
       call_aps_security (\<lambda>a.
         run_bind (if kind = JoinNew then Ret (join_link_key a e) else device_link_key (lib_aes lib) a e) (\<lambda>k.
           encrypt_command_with_link_key (lib_aes lib) (command_encrypt (lib_aps lib) (lib_seal lib) cmd) a k KeyTransportKey))))"

definition send_network_key :: "libs \<Rightarrow> instant \<Rightarrow> Nwk \<Rightarrow> Eui64 \<Rightarrow> JoinKind \<Rightarrow> SendHandle option stack_act" where
  "send_network_key lib now dest e kind =
     act_bind (build_encrypted_network_key_transport lib e kind) (\<lambda>enc.
     act_bind (act_run (encrypted_command_to_bytes (lib_aps lib) enc)) (\<lambda>bytes.
     act_bind (act_gets (\<lambda>s. nwk_data_frame (zs_state s) dest bytes)) (\<lambda>frame.
       case frame of
         Inl _ \<Rightarrow> act_run Panic
       | Inr f \<Rightarrow>
           act_bind (send_unicast now (critical_unicast (unsecured f) Unsecured Direct)) (\<lambda>sent.
             act_return (case sent of Inl _ \<Rightarrow> None | Inr h \<Rightarrow> Some h)))))"

definition announce_join :: "Nwk \<Rightarrow> Eui64 \<Rightarrow> unit stack_act" where
  "announce_join nwk e =
     act_bind (act_gets (\<lambda>s. (device_join_capability e s, own_nwk s))) (\<lambda>((ty, idle), own).
       push_notification (NotifyDeviceJoined nwk e own ty idle))"

text \<open>One step of a flow: what it becomes, \<open>None\<close> when it ended.\<close>

definition run_tasklet :: "libs \<Rightarrow> instant \<Rightarrow> Tasklet \<Rightarrow> Tasklet option stack_act" where
  "run_tasklet lib now t =
     (case t of
        JoinStart e short \<Rightarrow>
          act_bind (queue_association_response now e short AssociationSuccessful) (\<lambda>h.
            act_return (map_option (\<lambda>h. JoinAwaitExtraction (sh_slot h) e short) h))
      | JoinAwaitExtraction slot e short \<Rightarrow>
          act_gets (\<lambda>s. case delivered (zs_slots s slot) of
              None \<Rightarrow> Some t
            | Some (Inl _) \<Rightarrow> None
            | Some (Inr _) \<Rightarrow> Some (DeliverKeyStart short e JoinNew))
      | DeliverKeyStart nwk e kind \<Rightarrow>
          act_bind (send_network_key lib now nwk e kind) (\<lambda>h.
            act_return (map_option (\<lambda>h. DeliverKeyAwait (sh_slot h) nwk e) h))
      | DeliverKeyAwait slot nwk e \<Rightarrow>
          act_bind (act_gets (\<lambda>s. delivered (zs_slots s slot))) (\<lambda>verdict.
            case verdict of
              None \<Rightarrow> act_return (Some t)
            | Some (Inl _) \<Rightarrow> act_return None
            | Some (Inr _) \<Rightarrow> act_seq (announce_join nwk e) (act_return None)))"

text \<open>The tasklet runner: each flow in turn.\<close>

definition tasklet_task :: "libs \<Rightarrow> instant \<Rightarrow> unit stack_act" where
  "tasklet_task lib now =
     act_bind (act_state (\<lambda>s. (zs_tasklets s, s\<lparr>zs_tasklets := []\<rparr>)))
       (act_each (\<lambda>t. act_bind (run_tasklet lib now t) (\<lambda>r. act_let_some r push_tasklet)))"

section \<open>Rejoin, leave, timeouts\<close>

definition admit_rejoin ::
  "instant \<Rightarrow> NwkCommand NwkFrame \<Rightarrow> Eui64 \<Rightarrow> NwkDeviceType \<Rightarrow> bool \<Rightarrow> bool \<Rightarrow> unit stack_act" where
  "admit_rejoin now f e ty idle secured =
     (let requested = source (nwk_header f) in
      act_bind (act_gets (\<lambda>s. claimed_by_other (stack_addresses s) requested e)) (\<lambda>conflict.
      act_bind (if conflict then allocate_network_address e else act_return requested) (\<lambda>assigned.
      act_seq (update_nwk_eui64_mapping now assigned e)
      (act_seq (stack_upsert_child now e assigned ty idle (if secured then Child else UnauthenticatedChild))
      (act_seq (notify WakeMaintenance)
      (act_seq (send_rejoin_response now requested e assigned RejoinSuccessful secured)
        (if secured then announce_join assigned e
         else act_bind (act_gets (may_rejoin_unsecured e)) (\<lambda>may.
           act_when may (push_tasklet (DeliverKeyStart assigned e JoinAgain)))))))))) "

definition handle_rejoin_request :: "instant \<Rightarrow> NwkCommand NwkFrame \<Rightarrow> NwkRejoinRequestCommand \<Rightarrow> bool \<Rightarrow> unit stack_act" where
  "handle_rejoin_request now f request secured =
     act_let_some (source_ieee (nwk_header f)) (\<lambda>e.
       let capability = rj_capability request;
           ty = (case rj_device_type capability of RejoinRouter \<Rightarrow> Router | RejoinEndDevice \<Rightarrow> EndDevice) in
       act_bind (act_gets (\<lambda>s. ty = EndDevice \<and> \<not> neighbors_contains (stack_neighbors s) e \<and> at_child_capacity s)) (\<lambda>full.
         if full then send_rejoin_response now (source (nwk_header f)) e 0xFFFF RejoinPanAtCapacity secured
         else admit_rejoin now f e ty (rj_receiver_on_when_idle capability) secured))"

definition handle_unsecured_nwk_frame :: "instant \<Rightarrow> NwkCommand NwkFrame \<Rightarrow> unit stack_act" where
  "handle_unsecured_nwk_frame now f =
     (case payload f of
        Command (RejoinRequest cmd) \<Rightarrow> handle_rejoin_request now f cmd False
      | _ \<Rightarrow> act_return ())"

definition handle_leave :: "instant \<Rightarrow> NwkCommand NwkFrame \<Rightarrow> NwkLeaveCommand \<Rightarrow> unit stack_act" where
  "handle_leave now f cmd =
     act_when (\<not> lv_request cmd)
       (act_bind (act_gets (\<lambda>s. case source_ieee (nwk_header f) of
            Some e \<Rightarrow> Some e | None \<Rightarrow> eui64_for (stack_addresses s) (source (nwk_header f)))) (\<lambda>e.
        act_seq (act_let_some e (\<lambda>e. modify_neighbors (\<lambda>n. neighbors_remove n e)))
        (act_seq (drop_indirect_transactions now e (source (nwk_header f)))
        (act_seq (modify_routing (\<lambda>r. snd (remove_route r (source (nwk_header f)))))
          (push_notification (NotifyDeviceLeft (source (nwk_header f)) e (LeaveAnnounced (lv_rejoin cmd))))))))"

definition send_end_device_timeout_response :: "instant \<Rightarrow> Nwk \<Rightarrow> NwkEndDeviceTimeoutResponseStatus \<Rightarrow> unit stack_act" where
  "send_end_device_timeout_response now dest status =
     act_bind (act_gets (\<lambda>s. with_radius (own_command_frame dest (EndDeviceTimeoutResponse
         \<lparr>to_status = status, mac_data_poll_keepalive_supported = mac_data_poll_keepalive (parent_information (zs_state s)),
          end_device_timeout_request_keepalive_supported =
            end_device_timeout_request_keepalive (parent_information (zs_state s)),
          power_negotation_support = power_negotiation (parent_information (zs_state s))\<rparr>) s) 1)) (\<lambda>f.
       send_unicast_logged now (critical_unicast f WithNetworkKey Direct))"

definition handle_end_device_timeout_request ::
  "instant \<Rightarrow> NwkCommand NwkFrame \<Rightarrow> NwkEndDeviceTimeoutRequestCommand \<Rightarrow> unit stack_act" where
  "handle_end_device_timeout_request now f request =
     (let src = source (nwk_header f) in
      if NwkEndDeviceTimeoutRequestCommand.end_device_configuration request \<noteq> 0
      then send_end_device_timeout_response now src TimeoutUnsupportedFeature
      else
        act_bind (call_neighbors (\<lambda>n. set_child_timeout n src (end_device_timeout_duration (request_timeout_enum request))
            (ucast (NwkEndDeviceTimeoutRequestCommand.end_device_configuration request)) now)) (\<lambda>updated.
          act_when updated
            (act_seq (notify WakeMaintenance) (send_end_device_timeout_response now src TimeoutSuccess))))"

section \<open>Trust center\<close>

definition stack_has_neighbor :: "ZigbeeStack \<Rightarrow> Nwk \<Rightarrow> bool" where
  "stack_has_neighbor s nwk = has_network_address (stack_neighbors s) nwk"

definition send_secured_aps_payload :: "instant \<Rightarrow> Nwk \<Rightarrow> u8 list \<Rightarrow> (EnqueueError + SendHandle) stack_act" where
  "send_secured_aps_payload now dest bytes =
     act_bind (act_gets (\<lambda>s. (nwk_data_frame (zs_state s) dest bytes, stack_has_neighbor s dest))) (\<lambda>(frame, near).
       case frame of
         Inl e \<Rightarrow> act_return (Inl e)
       | Inr f \<Rightarrow> send_unicast now (critical_unicast (with_discover_route f Enable) WithNetworkKey
                    (if near then Direct else RouteMode StackDecides)))"

definition issue_and_send_key :: "libs \<Rightarrow> instant \<Rightarrow> Nwk \<Rightarrow> Eui64 \<Rightarrow> AppliedKey \<Rightarrow> unit stack_act" where
  "issue_and_send_key lib now dest e applied =
     act_bind (draw random_keys) (\<lambda>fresh.
     act_bind (call_aps_security (\<lambda>a. issue_device_key (lib_aes lib) a e fresh)) (\<lambda>new_key.
     act_bind next_aps_counter (\<lambda>c.
     act_bind (act_gets own_eui64) (\<lambda>own.
       let cmd = \<lparr>cmd_frame_control = aps_command_control True, cmd_counter = c,
                  aps_command = TransportKey \<lparr>tk_standard_key_type = TrustCenterLinkKey,
                    key_descriptor = TcLinkKey \<lparr>tc_key = new_key, tc_destination_address = e, tc_source_address = own\<rparr>\<rparr>\<rparr> in
       act_bind (call_aps_security (\<lambda>a. encrypt_command_with_applied_key (lib_aes lib)
           (command_encrypt (lib_aps lib) (lib_seal lib) cmd) a e applied KeyLoadKey)) (\<lambda>enc.
       act_let_some enc (\<lambda>enc.
         act_bind (act_run (encrypted_command_to_bytes (lib_aps lib) enc)) (\<lambda>bytes.
           act_seq (send_secured_aps_payload now dest bytes) (act_return ()))))))))"

definition handle_request_key ::
  "libs \<Rightarrow> instant \<Rightarrow> NwkCommand NwkFrame \<Rightarrow> ApsCommandFrame \<Rightarrow> ApsRequestKeyCommandFrame \<Rightarrow> Eui64 option \<Rightarrow>
   AppliedKey option \<Rightarrow> unit stack_act" where
  "handle_request_key lib now f command request claimed applied =
     act_when (key_type request = RequestTrustCenterLinkKey \<and> aps_security (cmd_frame_control command))
       (act_let_some claimed (\<lambda>e.
         act_bind (act_gets (\<lambda>s. eui64_for (stack_addresses s) (source (nwk_header f)))) (\<lambda>sender.
           act_when (sender = Some e)
             (act_let_some applied (issue_and_send_key lib now (source (nwk_header f)) e)))))"

definition send_confirm_key :: "libs \<Rightarrow> instant \<Rightarrow> Nwk \<Rightarrow> Eui64 \<Rightarrow> u8 \<Rightarrow> bool \<Rightarrow> unit stack_act" where
  "send_confirm_key lib now dest e status encrypted =
     act_bind next_aps_counter (\<lambda>c.
       let cmd = \<lparr>cmd_frame_control = aps_command_control encrypted, cmd_counter = c,
                  aps_command = ConfirmKey \<lparr>ck_status = status, ck_standard_key_type = TrustCenterLinkKey,
                    ck_destination_address = e\<rparr>\<rparr> in
       act_bind
         (if encrypted then
            act_bind (call_aps_security (\<lambda>a. encrypt_command (lib_aes lib) (command_encrypt (lib_aps lib) (lib_seal lib) cmd) a e DataKey))
              (\<lambda>enc. act_run (encrypted_command_to_bytes (lib_aps lib) enc))
          else act_run (command_to_bytes (lib_aps lib) cmd)) (\<lambda>bytes.
         act_seq (send_secured_aps_payload now dest bytes) (act_return ())))"

definition APS_STATUS_SUCCESS :: u8 where
  "APS_STATUS_SUCCESS = 0"

definition APS_STATUS_SECURITY_FAIL :: u8 where
  "APS_STATUS_SECURITY_FAIL = 0xAD"

definition frame_sender :: "NwkCommand NwkFrame \<Rightarrow> ZigbeeStack \<Rightarrow> Eui64 option" where
  "frame_sender f s =
     (case source_ieee (nwk_header f) of Some e \<Rightarrow> Some e | None \<Rightarrow> eui64_for (stack_addresses s) (source (nwk_header f)))"

definition handle_verify_key :: "libs \<Rightarrow> instant \<Rightarrow> NwkCommand NwkFrame \<Rightarrow> ApsVerifyKeyCommandFrame \<Rightarrow> unit stack_act" where
  "handle_verify_key lib now f verify =
     act_when (vk_standard_key_type verify = TrustCenterLinkKey)
       (let e = vk_source_address verify; dest = source (nwk_header f) in
        act_bind (act_gets (frame_sender f)) (\<lambda>sender.
          act_when (sender = None \<or> sender = Some e)
            (act_bind (call_aps_security (\<lambda>a. verify_device_key (lib_aes lib) a e (initiator_verify_key_hash verify))) (\<lambda>verified.
              case verified of
                None \<Rightarrow> send_confirm_key lib now dest e APS_STATUS_SECURITY_FAIL False
              | Some True \<Rightarrow>
                  act_bind (\<lambda>s. run_bind (device_link_key (lib_aes lib) (stack_aps_security s) e) (\<lambda>k. Ret (k, s))) (\<lambda>k.
                  act_seq (push_notification (LinkKeyUpdate e k)) (send_confirm_key lib now dest e APS_STATUS_SUCCESS True))
              | Some False \<Rightarrow> send_confirm_key lib now dest e APS_STATUS_SECURITY_FAIL True))))"

definition send_tunneled_network_key :: "libs \<Rightarrow> instant \<Rightarrow> Nwk \<Rightarrow> Eui64 \<Rightarrow> JoinKind \<Rightarrow> unit stack_act" where
  "send_tunneled_network_key lib now router e kind =
     act_bind (build_encrypted_network_key_transport lib e kind) (\<lambda>enc.
     act_bind next_aps_counter (\<lambda>c.
     act_bind (act_run (encrypted_command_to_bytes (lib_aps lib) enc)) (\<lambda>inner.
       if MAX_PHY_PACKET_SIZE < length inner then act_run Panic
       else
         act_bind (act_run (command_to_bytes (lib_aps lib)
             \<lparr>cmd_frame_control = aps_command_control False, cmd_counter = c,
              aps_command = Tunnel \<lparr>tunnel_destination_address = e, tunneled_frame = inner\<rparr>\<rparr>)) (\<lambda>bytes.
           act_seq (send_secured_aps_payload now router bytes) (act_return ())))))"

definition notify_joined_via :: "ApsUpdateDeviceCommandFrame \<Rightarrow> Nwk \<Rightarrow> unit stack_act" where
  "notify_joined_via update router =
     push_notification (NotifyDeviceJoined (device_short_address update) (device_address update) router None True)"

definition handle_update_device ::
  "libs \<Rightarrow> instant \<Rightarrow> NwkCommand NwkFrame \<Rightarrow> ApsUpdateDeviceCommandFrame \<Rightarrow> bool \<Rightarrow> unit stack_act" where
  "handle_update_device lib now f update aps_encrypted =
     (let router = source (nwk_header f); e = device_address update in
      act_bind (act_gets (\<lambda>s. \<not> aps_encrypted \<and> zs_tunables s ''allow_unencrypted_router_device_update'' = 0 \<and>
          (case frame_sender f s of None \<Rightarrow> False | Some r \<Rightarrow> has_unique_link_key (stack_aps_security s) r))) (\<lambda>refused.
        act_when (\<not> refused)
          (act_seq (act_when (update_status update \<noteq> DeviceLeft) (forget_moved_child now e))
            (case update_status update of
               StandardDeviceUnsecuredJoin \<Rightarrow>
                 act_bind (act_gets (trust_center_permitting_joins now)) (\<lambda>permitted.
                   act_when permitted
                     (act_seq (stack_begin_join e)
                     (act_seq (update_nwk_eui64_mapping now (device_short_address update) e)
                     (act_seq (send_tunneled_network_key lib now router e JoinNew) (notify_joined_via update router)))))
             | StandardDeviceTrustCenterRejoin \<Rightarrow>
                 act_bind (act_gets (may_rejoin_unsecured e)) (\<lambda>permitted.
                   act_when permitted
                     (act_seq (update_nwk_eui64_mapping now (device_short_address update) e)
                     (act_seq (send_tunneled_network_key lib now router e JoinAgain) (notify_joined_via update router))))
             | StandardDeviceSecuredRejoin \<Rightarrow>
                 act_seq (update_nwk_eui64_mapping now (device_short_address update) e) (notify_joined_via update router)
             | DeviceLeft \<Rightarrow>
                 act_bind (act_gets (frame_sender f)) (\<lambda>router_ieee.
                   push_notification (NotifyDeviceLeft (device_short_address update) (Some e)
                     (RouterReported router router_ieee)))))))"

definition handle_aps_command_frame ::
  "libs \<Rightarrow> instant \<Rightarrow> NwkCommand NwkFrame \<Rightarrow> ApsCommandFrame \<Rightarrow> Eui64 option \<Rightarrow> AppliedKey option \<Rightarrow> unit stack_act" where
  "handle_aps_command_frame lib now f command claimed applied =
     act_bind (act_gets (\<lambda>s. role (zs_state s) = Coordinator)) (\<lambda>trust_center.
       case aps_command command of
         UpdateDevice cmd \<Rightarrow> act_when trust_center (handle_update_device lib now f cmd (claimed \<noteq> None))
       | RequestKey cmd \<Rightarrow> act_when trust_center (handle_request_key lib now f command cmd claimed applied)
       | VerifyKey cmd \<Rightarrow> act_when trust_center (handle_verify_key lib now f cmd)
       | _ \<Rightarrow> act_return ())"

text \<open>Opening a command; reading it cannot abort, so a failure to read is a failure to open.\<close>

definition open_command :: "libs \<Rightarrow> EncryptedApsCommandFrame \<Rightarrow> Key \<Rightarrow> ParseError + ApsCommandFrame" where
  "open_command lib enc k = (case command_decrypt (lib_aps lib) (lib_open lib) enc k of Ret r \<Rightarrow> r | Panic \<Rightarrow> Inl ParseBits)"

definition handle_encrypted_aps_command_frame ::
  "libs \<Rightarrow> instant \<Rightarrow> NwkCommand NwkFrame \<Rightarrow> EncryptedApsCommandFrame \<Rightarrow> unit stack_act" where
  "handle_encrypted_aps_command_frame lib now f enc =
     act_let_some (extended_source (ec_aux_header enc)) (\<lambda>e.
       act_bind (act_gets (\<lambda>s. network_key (stack_nwk_security s))) (\<lambda>key.
       act_bind (call_aps_security (\<lambda>a. decrypt_command (lib_aes lib) a e (ec_aux_header enc) key (open_command lib enc))) (\<lambda>opened.
         case opened of
           Some (command, applied) \<Rightarrow> handle_aps_command_frame lib now f command (Some e) (Some applied)
         | None \<Rightarrow> push_notification (ApsDecryptionFailure (source (nwk_header f)) e (frame_counter (ec_aux_header enc))
             (key_id (security_control (ec_aux_header enc)))))))"

end
