(* ===== verification/Stack_Nwk.thy ===== *)
theory Stack_Nwk
  imports Stack_Joining
begin

text \<open>
  \<^verbatim>\<open>zigbee_stack/nwk.rs\<close>, the receiving half: what happens to a decrypted network frame that is addressed to us, and the
  relaying of unicasts and broadcasts.
\<close>

definition filter_broadcast :: "instant \<Rightarrow> NwkCommand NwkFrame \<Rightarrow> Nwk \<Rightarrow> bool stack_act" where
  "filter_broadcast now f sender =
     act_bind (act_gets (\<lambda>s. (hack_ignore_broadcast_startup_wait_period (zs_state s),
         get_duration (zs_tunables s) ''broadcast_delivery_time''))) (\<lambda>(ignore, delivery).
       if \<not> ignore \<and> now < instant_add (Instant 0) delivery then act_return True
       else
         act_bind (act_state (\<lambda>s. case filter_received (stack_transactions s) (source (nwk_header f))
             (sequence_number (nwk_header f)) sender (expected_broadcast_relayers (stack_neighbors s)) now delivery
             of (d, b) \<Rightarrow> (d, set_transactions b s))) (\<lambda>duplicate.
           act_seq (act_when duplicate (notify WakeSendTimer)) (act_return duplicate)))"

definition clear_initiator :: "NwkCommand NwkFrame \<Rightarrow> Neighbors \<Rightarrow> NwkCommand NwkFrame" where
  "clear_initiator f n =
     f\<lparr>nwk_header := (nwk_header f)\<lparr>frame_control := (frame_control (nwk_header f))\<lparr>end_device_initiator :=
        snd (clear_end_device_initiator_for_relay n (end_device_initiator (frame_control (nwk_header f)))
               (source (nwk_header f)))\<rparr>\<rparr>\<rparr>"

text \<open>\<^verbatim>\<open>radius.saturating_sub(1)\<close> in the header.\<close>

definition decrement_radius :: "NwkCommand NwkFrame \<Rightarrow> NwkCommand NwkFrame" where
  "decrement_radius f =
     f\<lparr>nwk_header := (nwk_header f)\<lparr>radius := (if radius (nwk_header f) = 0 then 0 else radius (nwk_header f) - 1)\<rparr>\<rparr>"

definition maybe_relay_broadcast :: "instant \<Rightarrow> NwkCommand NwkFrame \<Rightarrow> unit stack_act" where
  "maybe_relay_broadcast now f =
     act_bind (act_gets own_nwk) (\<lambda>own.
       act_when (frame_type (frame_control (nwk_header f)) = NwkData \<and> source (nwk_header f) \<noteq> own)
         (act_bind (act_gets (\<lambda>s. clear_initiator f (stack_neighbors s))) (\<lambda>relayed.
          act_seq (act_seq (maybe_fan_out_broadcast_to_sleepy_children now relayed WithNetworkKey None) commit_enqueued)
          (let out = decrement_radius relayed in
           act_when (radius (nwk_header out) \<noteq> 0)
             (act_bind (act_gets (\<lambda>s. get_u8 (zs_tunables s) ''max_broadcast_retries'')) (\<lambda>retries.
              act_bind broadcast_jitter (\<lambda>jitter.
              act_seq (stack_enqueue_broadcast now (FrameNwk out WithNetworkKey)
                  \<lparr>tp_priority = UserNormal, tp_class = Forwarding\<rparr>
                  (PassiveAck (source (nwk_header out), sequence_number (nwk_header out)) (retries + 1)
                     (instant_add now jitter)))
                (act_return ()))))))))"

section \<open>Relaying a unicast\<close>

definition note_counter :: "NwkAuxHeader option \<Rightarrow> unit stack_act" where
  "note_counter aux =
     act_let_some aux (\<lambda>a. act_let_some (nwk_extended_source a) (\<lambda>e.
       act_modify (\<lambda>s. set_nwk_security (snd (note_inbound_frame_counter (stack_nwk_security s) e (nwk_frame_counter a))) s)))"

text \<open>A transiting route record gets our address; \<open>None\<close> when the frame is dropped.\<close>

definition append_own_relay :: "ZigbeeStack \<Rightarrow> NwkCommand NwkFrame \<Rightarrow> NwkCommand NwkFrame option" where
  "append_own_relay s f =
     (case payload f of
        Command (RouteRecord cmd) \<Rightarrow>
          if unat (get_u8 (zs_tunables s) ''max_source_route'') \<le> length (rr_relays cmd) then None
          else Some (f\<lparr>payload := Command (RouteRecord (cmd\<lparr>rr_relays := rr_relays cmd @ [own_nwk s]\<rparr>))\<rparr>)
      | Command (Unparsed raw) \<Rightarrow>
          (case raw of
             [] \<Rightarrow> Some f
           | b # _ \<Rightarrow> if b = command_id_byte IdRouteRecord then None else Some f)
      | _ \<Rightarrow> Some f)"

text \<open>The next hop of a source routed frame, and the frame with the index moved on; \<open>None\<close> when it is not addressed through us.\<close>

definition follow_source_route ::
  "ZigbeeStack \<Rightarrow> NwkCommand NwkFrame \<Rightarrow> NwkSourceRoute \<Rightarrow> (Nwk \<times> NwkCommand NwkFrame) option" where
  "follow_source_route s f sr =
     (let dest = destination (nwk_header f);
          child = end_device_child_eui64 (stack_neighbors s) dest \<noteq> None;
          index = unat (relay_index sr) in
      if index = 0 then Some (dest, f)
      else if \<not> (index < length (relays sr) \<and> relays sr ! index = own_nwk s) then None
      else Some (if child then dest else relays sr ! (index - 1),
                 f\<lparr>nwk_header := (nwk_header f)\<lparr>source_route := Some (sr\<lparr>relay_index := relay_index sr - 1\<rparr>)\<rparr>\<rparr>))"

definition relay_next_hop :: "NwkCommand NwkFrame \<Rightarrow> (Nwk \<times> NwkCommand NwkFrame) option stack_act" where
  "relay_next_hop f =
     (case source_route (nwk_header f) of
        Some sr \<Rightarrow>
          act_bind (act_gets (\<lambda>s. follow_source_route s f sr)) (\<lambda>hop.
            act_seq (act_when (hop \<noteq> None) (modify_routing (\<lambda>r. note_source_routed_frame r (source (nwk_header f)))))
              (act_return hop))
      | None \<Rightarrow> (\<lambda>s.
          if has_network_address (stack_neighbors s) (destination (nwk_header f))
          then Ret (Some (destination (nwk_header f), f), s)
          else run_bind (next_hop (stack_routing s) (destination (nwk_header f))) (\<lambda>hop.
            Ret (map_option (\<lambda>h. (h, f)) hop, s))))"

definition relay_unicast_nwk_frame :: "instant \<Rightarrow> NwkCommand NwkFrame \<Rightarrow> Nwk \<Rightarrow> u8 \<Rightarrow> unit stack_act" where
  "relay_unicast_nwk_frame now f sender lqi =
     act_seq (note_counter (aux_header f))
     (act_seq (maybe_recompute_lqa sender lqi)
     (act_seq (modify_neighbors (\<lambda>n. record_inbound_activity n sender))
     (act_when (radius (nwk_header (decrement_radius f)) \<noteq> 0)
       (act_bind (act_gets (\<lambda>s. append_own_relay s (clear_initiator (decrement_radius f) (stack_neighbors s)))) (\<lambda>relayed.
        act_let_some relayed (\<lambda>relayed.
        act_bind (relay_next_hop relayed) (\<lambda>route.
        act_let_some route (\<lambda>(hop, out).
          act_bind (act_gets (\<lambda>s. poll_address (stack_nib s) hop)) (\<lambda>poll.
          act_seq (stack_enqueue_unicast now (FrameNwk out WithNetworkKey)
              \<lparr>tp_priority = UserNormal, tp_class = Forwarding\<rparr> OnHandoff hop poll)
            (act_return ()))))))))))"

section \<open>Frames addressed to us\<close>

definition handle_route_record :: "NwkCommand NwkFrame \<Rightarrow> NwkRouteRecordCommand \<Rightarrow> unit stack_act" where
  "handle_route_record f cmd =
     act_bind (call_routing (\<lambda>r. store_route_record r (source (nwk_header f)) (rr_relays cmd))) (\<lambda>changed.
       act_when changed (push_notification (RouteRecordUpdate (source (nwk_header f)) (rr_relays cmd))))"

definition handle_nwk_command :: "instant \<Rightarrow> NwkCommand NwkFrame \<Rightarrow> NwkCommand \<Rightarrow> Nwk \<Rightarrow> u8 \<Rightarrow> unit stack_act" where
  "handle_nwk_command now f command sender lqi =
     (case command of
        LinkStatus cmd \<Rightarrow> handle_link_status now f cmd lqi
      | RouteReply cmd \<Rightarrow> handle_route_reply now f cmd
      | RouteRecord cmd \<Rightarrow> handle_route_record f cmd
      | RouteRequest cmd \<Rightarrow> handle_route_request now f cmd sender
      | RejoinRequest cmd \<Rightarrow> handle_rejoin_request now f cmd True
      | Leave cmd \<Rightarrow> handle_leave now f cmd
      | NetworkStatus cmd \<Rightarrow> handle_network_status now cmd
      | EndDeviceTimeoutRequest cmd \<Rightarrow> handle_end_device_timeout_request now f cmd
      | Unparsed raw \<Rightarrow>
          (case raw of
             [] \<Rightarrow> act_return ()
           | b # _ \<Rightarrow> act_when (command_id_try_from b = Some IdEndDeviceTimeoutRequest)
               (send_end_device_timeout_response now (source (nwk_header f)) TimeoutIncorrectValue))
      | _ \<Rightarrow> act_return ())"

definition bypasses_transaction_table :: "NwkCommand NwkFrame \<Rightarrow> bool" where
  "bypasses_transaction_table f =
     (case payload f of Command (RouteRequest _) \<Rightarrow> True | Command (LinkStatus _) \<Rightarrow> True | _ \<Rightarrow> False)"

text \<open>The gate of broadcasts: whether the frame is processed further.\<close>

definition admit_broadcast :: "instant \<Rightarrow> NwkCommand NwkFrame \<Rightarrow> Nwk \<Rightarrow> bool stack_act" where
  "admit_broadcast now f sender =
     act_bind (filter_broadcast now f sender) (\<lambda>filtered.
       if filtered then act_return False
       else
         act_bind (act_gets (\<lambda>s. (own_nwk s, get_duration (zs_tunables s) ''broadcast_delivery_time''))) (\<lambda>(own, delivery).
           if source (nwk_header f) = own then
             act_seq (act_when (instant_add (Instant 0) delivery < now)
                        (handle_address_conflict now own ConflictLocal))
               (act_return False)
           else act_seq (maybe_relay_broadcast now f) (act_return True)))"

definition handle_decrypted_frame :: "instant \<Rightarrow> NwkCommand NwkFrame \<Rightarrow> Nwk \<Rightarrow> u8 \<Rightarrow> unit stack_act" where
  "handle_decrypted_frame now f sender lqi =
     act_seq (note_counter (aux_header f))
     (act_seq (act_let_some (source_ieee (nwk_header f)) (update_nwk_eui64_mapping now (source (nwk_header f))))
     (act_bind (act_gets (\<lambda>s. (own_nwk s, own_eui64 s))) (\<lambda>(own, own_ieee).
      act_seq (act_when (destination (nwk_header f) = own \<and>
                  (case destination_ieee (nwk_header f) of None \<Rightarrow> False | Some e \<Rightarrow> e \<noteq> own_ieee))
                (handle_address_conflict now own ConflictLocal))
      (act_seq (maybe_age_neighbors now)
      (act_seq (maybe_recompute_lqa sender lqi)
      (act_bind (if BROADCAST_ALL_ROUTERS_AND_COORDINATOR \<le> destination (nwk_header f) \<and> \<not> bypasses_transaction_table f
                 then admit_broadcast now f sender else act_return True) (\<lambda>continue.
        act_when continue
          (case payload f of
             Command command \<Rightarrow> handle_nwk_command now f command sender lqi
           | Opaque _ \<Rightarrow> act_return ()))))))))"

end
