(* ===== verification/Stack_Aps.thy ===== *)
theory Stack_Aps
  imports Stack_Joining Aps_End_To_End
begin

text \<open>
  \<^verbatim>\<open>zigbee_stack/aps.rs\<close> and \<^verbatim>\<open>zigbee_stack/zdp.rs\<close>: the application support layer (decryption, acknowledgements, duplicate
  rejection, the three ways to send) and the device profile commands the stack answers itself.
\<close>

section \<open>Received frames\<close>

definition aps_frame_source :: "NwkCommand NwkFrame \<Rightarrow> Eui64 option \<Rightarrow> ZigbeeStack \<Rightarrow> Eui64 option" where
  "aps_frame_source f ext s =
     (case ext of
        Some e \<Rightarrow> Some e
      | None \<Rightarrow> (case source_ieee (nwk_header f) of
          Some e \<Rightarrow> Some e
        | None \<Rightarrow> eui64_for (stack_addresses s) (source (nwk_header f))))"

definition decrypt_aps_data_frame ::
  "libs \<Rightarrow> NwkCommand NwkFrame \<Rightarrow> EncryptedApsDataFrame \<Rightarrow> (ApsDataFrame \<times> Eui64) option stack_act" where
  "decrypt_aps_data_frame lib f enc =
     act_bind (act_gets (\<lambda>s. (aps_frame_source f (extended_source (ed_aux_header enc)) s, network_key (stack_nwk_security s))))
       (\<lambda>(src, key).
       case src of
         None \<Rightarrow> act_return None
       | Some e \<Rightarrow>
           act_bind (call_aps_security (\<lambda>a. decrypt_data (lib_aes lib) a e (ed_aux_header enc) key
               (open_data (lib_aps lib) (lib_open lib) enc))) (\<lambda>r.
             act_return (map_option (\<lambda>d. (d, e)) r)))"

text \<open>Opening an acknowledgement; as for data, a failure to read is a failure to open.\<close>

definition open_ack :: "libs \<Rightarrow> EncryptedApsAckFrame \<Rightarrow> Key \<Rightarrow> Eui64 \<Rightarrow> ParseError + ApsAckFrame" where
  "open_ack lib enc k src = (case ack_decrypt (lib_aps lib) (lib_open lib) enc k src of Ret r \<Rightarrow> r | Panic \<Rightarrow> Inl ParseBits)"

definition decrypt_aps_ack_frame :: "libs \<Rightarrow> NwkCommand NwkFrame \<Rightarrow> EncryptedApsAckFrame \<Rightarrow> ApsAckFrame option stack_act" where
  "decrypt_aps_ack_frame lib f enc =
     act_bind (act_gets (\<lambda>s. (aps_frame_source f (extended_source (ea_aux_header enc)) s, network_key (stack_nwk_security s))))
       (\<lambda>(src, key).
       case src of
         None \<Rightarrow> act_return None
       | Some e \<Rightarrow> call_aps_security (\<lambda>a. decrypt_ack (lib_aes lib) a e (ea_aux_header enc) key (open_ack lib enc)))"

definition ack_data_from_aps_ack :: "Nwk \<Rightarrow> ApsAckFrame \<Rightarrow> ApsAckData" where
  "ack_data_from_aps_ack src ack =
     \<lparr>ApsAckData.ack_src = src, ack_destination_endpoint = ApsAckFrame.ack_destination_endpoint ack,
      ack_cluster_id = ApsAckFrame.ack_cluster_id ack, ack_profile_id = ApsAckFrame.ack_profile_id ack,
      ack_source_endpoint = ApsAckFrame.ack_source_endpoint ack, ack_counter = ApsAckFrame.ack_counter ack\<rparr>"

definition handle_aps_ack :: "instant \<Rightarrow> NwkCommand NwkFrame \<Rightarrow> ApsAckFrame \<Rightarrow> unit stack_act" where
  "handle_aps_ack now f ack =
     act_bind (call_sends (\<lambda>t. aps_ack_received t (ack_data_from_aps_ack (source (nwk_header f)) ack))) (commit_sends now)"

definition is_duplicate_aps_frame :: "instant \<Rightarrow> Nwk \<Rightarrow> u8 \<Rightarrow> bool stack_act" where
  "is_duplicate_aps_frame now src counter =
     act_state (\<lambda>s.
       let timeout = get_duration (zs_tunables s) ''aps_duplicate_rejection_timeout'';
           kept = fm_retain (\<lambda>_ seen. saturating_duration_since now seen < timeout) (zs_aps_duplicates s) in
       (fm_get kept (src, counter) \<noteq> None, s\<lparr>zs_aps_duplicates := snd (fm_insert kept (src, counter) now)\<rparr>))"

definition ack_for :: "ApsDataFrame \<Rightarrow> ApsAckFrame" where
  "ack_for d =
     \<lparr>ApsAckFrame.ack_frame_control =
        \<lparr>ack_frame_type = ApsAckType, ack_delivery_mode = ApsUnicast, ack_format = False,
         ack_security = aps_security (data_frame_control d), ack_ack_request = False, ack_extended_header = False\<rparr>,
      ack_destination_endpoint = Some (source_endpoint d), ack_cluster_id = Some (cluster_id d),
      ack_profile_id = Some (profile_id d), ack_source_endpoint = destination_endpoint d, ack_counter = data_counter d\<rparr>"

text \<open>The bytes of the acknowledgement; \<open>None\<close> when it cannot be secured.\<close>

definition ack_bytes :: "libs \<Rightarrow> ApsDataFrame \<Rightarrow> Eui64 option \<Rightarrow> u8 list option stack_act" where
  "ack_bytes lib d src =
     (if aps_security (data_frame_control d) then
        (case src of
           None \<Rightarrow> act_return None
         | Some e \<Rightarrow>
             act_bind (call_aps_security (\<lambda>a. encrypt_ack (lib_aes lib) (ack_encrypt (lib_aps lib) (lib_seal lib) (ack_for d)) a e)) (\<lambda>enc.
               case enc of
                 None \<Rightarrow> act_return None
               | Some enc \<Rightarrow>
                   act_seq maybe_notify_aps_frame_counter
                     (act_bind (act_run (encrypted_ack_to_bytes (lib_aps lib) enc)) (act_return \<circ> Some))))
      else act_bind (act_run (ack_to_bytes (lib_aps lib) (ack_for d))) (act_return \<circ> Some))"

definition handle_aps_ack_request ::
  "libs \<Rightarrow> instant \<Rightarrow> ApsDataFrame \<Rightarrow> NwkCommand NwkFrame \<Rightarrow> Eui64 option \<Rightarrow> unit stack_act" where
  "handle_aps_ack_request lib now d f src =
     act_bind (ack_bytes lib d src) (\<lambda>bytes.
     act_let_some bytes (\<lambda>bytes.
       act_bind (act_gets (\<lambda>s. nwk_data_frame (zs_state s) (source (nwk_header f)) bytes)) (\<lambda>frame.
         case frame of
           Inl _ \<Rightarrow> act_run Panic
         | Inr out \<Rightarrow> send_unicast_logged now
             (critical_unicast (with_discover_route out Enable) WithNetworkKey (RouteMode StackDecides)))))"

section \<open>Sending\<close>

definition stack_aps_ack_timeout :: "ZigbeeStack \<Rightarrow> Nwk \<Rightarrow> bool \<Rightarrow> duration" where
  "stack_aps_ack_timeout s dest sleepy =
     (if sleepy \<and> sleepy_child_eui64 (stack_neighbors s) dest = None
      then get_duration (zs_tunables s) ''aps_ack_timeout'' + get_duration (zs_tunables s) ''transaction_persistence_time''
      else get_duration (zs_tunables s) ''aps_ack_timeout'')"

record ApsUnicastRequest =
  ar_destination :: Nwk
  ar_profile_id :: u16
  ar_cluster_id :: u16
  ar_src_ep :: u8
  ar_dst_ep :: u8
  ar_ack :: ApsAckMode
  ar_counter :: "u8 option"
  ar_radius :: u8
  ar_data :: "u8 list"
  ar_security :: "Eui64 option"
  ar_sleepy_destination :: bool
  ar_priority :: TxPriority
  ar_route :: RouteDirective

definition data_control :: "ApsDeliveryMode \<Rightarrow> bool \<Rightarrow> bool \<Rightarrow> ApsFrameControl" where
  "data_control mode secured ack =
     \<lparr>aps_frame_type = ApsDataType, aps_delivery_mode = mode, aps_reserved1 = 0, aps_security = secured,
      aps_ack_request = ack, aps_extended_header = False\<rparr>"

definition unicast_aps_frame :: "ApsUnicastRequest \<Rightarrow> u8 \<Rightarrow> ApsDataFrame" where
  "unicast_aps_frame r seq =
     \<lparr>data_frame_control = data_control ApsUnicast (ar_security r \<noteq> None) (ar_ack r = AckRequest), group_id = None,
      destination_endpoint = Some (ar_dst_ep r), cluster_id = ar_cluster_id r, profile_id = ar_profile_id r,
      source_endpoint = ar_src_ep r, data_counter = seq, asdu = ar_data r\<rparr>"

definition unicast_aps_payload :: "libs \<Rightarrow> ApsUnicastRequest \<Rightarrow> u8 \<Rightarrow> (EnqueueError + u8 list) stack_act" where
  "unicast_aps_payload lib r seq =
     (case ar_security r of
        None \<Rightarrow> act_bind (act_run (data_to_bytes (lib_aps lib) (unicast_aps_frame r seq))) (act_return \<circ> Inr)
      | Some e \<Rightarrow>
          act_bind (call_aps_security (\<lambda>a. encrypt_data (lib_aes lib)
              (data_encrypt (lib_aps lib) (lib_seal lib) (unicast_aps_frame r seq)) a e)) (\<lambda>enc.
            case enc of
              None \<Rightarrow> act_return (Inl SecurityUnavailable)
            | Some enc \<Rightarrow>
                act_seq maybe_notify_aps_frame_counter
                  (act_bind (act_run (encrypted_data_to_bytes (lib_aps lib) enc)) (act_return \<circ> Inr))))"

definition unicast_confirm :: "ZigbeeStack \<Rightarrow> ApsUnicastRequest \<Rightarrow> u8 \<Rightarrow> Confirm" where
  "unicast_confirm s r seq =
     (case ar_ack r of
        AckRequest \<Rightarrow> Confirm.ApsAck
          \<lparr>ApsAckData.ack_src = ar_destination r, ack_destination_endpoint = Some (ar_src_ep r),
           ack_cluster_id = Some (ar_cluster_id r), ack_profile_id = Some (ar_profile_id r),
           ack_source_endpoint = Some (ar_dst_ep r), ack_counter = seq\<rparr>
          (stack_aps_ack_timeout s (ar_destination r) (ar_sleepy_destination r))
      | NoAck \<Rightarrow> OnHandoff)"

definition send_aps_unicast :: "libs \<Rightarrow> instant \<Rightarrow> ApsUnicastRequest \<Rightarrow> (EnqueueError + SendHandle \<times> u8) stack_act" where
  "send_aps_unicast lib now r =
     (if MAX_PHY_PACKET_SIZE < length (ar_data r) then act_return (Inl PayloadTooLong)
      else
        act_bind (case ar_counter r of Some c \<Rightarrow> act_return c | None \<Rightarrow> next_aps_counter) (\<lambda>seq.
        act_bind (unicast_aps_payload lib r seq) (\<lambda>bytes.
          case bytes of
            Inl e \<Rightarrow> act_return (Inl e)
          | Inr bytes \<Rightarrow>
              act_bind (act_gets (\<lambda>s. (nwk_data_frame (zs_state s) (ar_destination r) bytes, unicast_confirm s r seq)))
                (\<lambda>(frame, confirm).
                case frame of
                  Inl e \<Rightarrow> act_return (Inl e)
                | Inr f \<Rightarrow>
                    act_bind (send_unicast now
                        \<lparr>us_nwk_frame = with_radius (with_discover_route f Enable) (max (ar_radius r) 1),
                         us_security = WithNetworkKey, us_mode = RouteMode (ar_route r),
                         us_policy = \<lparr>tp_priority = ar_priority r, tp_class = Host\<rparr>, us_confirmation = confirm\<rparr>) (\<lambda>sent.
                      act_return (case sent of Inl e \<Rightarrow> Inl e | Inr h \<Rightarrow> Inr (h, seq)))))))"

text \<open>The tail that broadcasts and groupcasts share.\<close>

definition broadcast_aps_frame ::
  "libs \<Rightarrow> instant \<Rightarrow> ApsDataFrame \<Rightarrow> Nwk \<Rightarrow> u8 \<Rightarrow> TxPriority \<Rightarrow> (EnqueueError + SendHandle) stack_act" where
  "broadcast_aps_frame lib now d dest rad priority =
     act_bind (act_run (data_to_bytes (lib_aps lib) d)) (\<lambda>bytes.
     act_bind (act_gets (\<lambda>s. nwk_data_frame (zs_state s) dest bytes)) (\<lambda>frame.
       case frame of
         Inl e \<Rightarrow> act_return (Inl e)
       | Inr f \<Rightarrow> send_broadcast now
           \<lparr>bs_nwk_frame = with_radius (with_discover_route f Enable) (max rad 1), bs_security = WithNetworkKey,
            bs_policy = \<lparr>tp_priority = priority, tp_class = Host\<rparr>\<rparr>))"

definition send_aps_broadcast ::
  "libs \<Rightarrow> instant \<Rightarrow> Nwk \<Rightarrow> u16 \<Rightarrow> u16 \<Rightarrow> u8 \<Rightarrow> u8 \<Rightarrow> u8 \<Rightarrow> u8 list \<Rightarrow> TxPriority \<Rightarrow>
   (EnqueueError + SendHandle) stack_act" where
  "send_aps_broadcast lib now dest profile cluster src_ep dst_ep rad bytes priority =
     (if MAX_PHY_PACKET_SIZE < length bytes then act_return (Inl PayloadTooLong)
      else
        act_bind next_aps_counter (\<lambda>seq.
          broadcast_aps_frame lib now
            \<lparr>data_frame_control = data_control ApsBroadcast False False, group_id = None, destination_endpoint = Some dst_ep,
             cluster_id = cluster, profile_id = profile, source_endpoint = src_ep, data_counter = seq, asdu = bytes\<rparr>
            dest rad priority))"

definition send_aps_groupcast ::
  "libs \<Rightarrow> instant \<Rightarrow> u16 \<Rightarrow> u16 \<Rightarrow> u16 \<Rightarrow> u8 \<Rightarrow> u8 \<Rightarrow> u8 list \<Rightarrow> TxPriority \<Rightarrow> (EnqueueError + SendHandle) stack_act" where
  "send_aps_groupcast lib now grp profile cluster src_ep rad bytes priority =
     (if MAX_PHY_PACKET_SIZE < length bytes then act_return (Inl PayloadTooLong)
      else
        act_bind next_aps_counter (\<lambda>seq.
          broadcast_aps_frame lib now
            \<lparr>data_frame_control = data_control ApsMulticast False False, group_id = Some grp, destination_endpoint = None,
             cluster_id = cluster, profile_id = profile, source_endpoint = src_ep, data_counter = seq, asdu = bytes\<rparr>
            BROADCAST_RX_ON_WHEN_IDLE rad priority))"

section \<open>Device profile\<close>

definition PARENT_ANNCE_CHILDREN_PER_FRAME :: nat where
  "PARENT_ANNCE_CHILDREN_PER_FRAME = 8"

definition MGMT_LQI_DESCRIPTORS_PER_FRAME :: nat where
  "MGMT_LQI_DESCRIPTORS_PER_FRAME = 2"

definition MGMT_RTG_DESCRIPTORS_PER_FRAME :: nat where
  "MGMT_RTG_DESCRIPTORS_PER_FRAME = 10"

definition send_zdp_command ::
  "libs \<Rightarrow> instant \<Rightarrow> Nwk \<Rightarrow> ApsDeliveryMode \<Rightarrow> u8 \<Rightarrow> ZdpBody \<Rightarrow> (EnqueueError + SendHandle) stack_act" where
  "send_zdp_command lib now dest mode tsn body =
     (case zdp_serialize (lib_zdp lib) body tsn of
        Inl _ \<Rightarrow> act_run Panic
      | Inr bytes \<Rightarrow>
          if MAX_PHY_PACKET_SIZE < length bytes then act_return (Inl PayloadTooLong)
          else
            act_bind next_aps_counter (\<lambda>seq.
            act_bind (act_run (data_to_bytes (lib_aps lib)
                \<lparr>data_frame_control = data_control mode False False, group_id = None, destination_endpoint = Some 0,
                 cluster_id = zdp_cluster_id (zdp_body_cluster body), profile_id = ZDP_PROFILE_ID, source_endpoint = 0,
                 data_counter = seq, asdu = bytes\<rparr>)) (\<lambda>aps_bytes.
            act_bind (act_gets (\<lambda>s. nwk_data_frame (zs_state s) dest aps_bytes)) (\<lambda>frame.
              case frame of
                Inl e \<Rightarrow> act_return (Inl e)
              | Inr f \<Rightarrow>
                  (let out = with_radius (with_discover_route f Enable) (2 * MAX_DEPTH);
                       policy = \<lparr>tp_priority = UserNormal, tp_class = Host\<rparr> in
                   if mode = ApsBroadcast
                   then send_broadcast now \<lparr>bs_nwk_frame = out, bs_security = WithNetworkKey, bs_policy = policy\<rparr>
                   else send_unicast now \<lparr>us_nwk_frame = out, us_security = WithNetworkKey,
                     us_mode = RouteMode StackDecides, us_policy = policy, us_confirmation = OnHandoff\<rparr>)))))"

definition send_zdp_response :: "libs \<Rightarrow> instant \<Rightarrow> Nwk \<Rightarrow> u8 \<Rightarrow> ZdpBody \<Rightarrow> unit stack_act" where
  "send_zdp_response lib now dest tsn body =
     act_seq (send_zdp_command lib now dest ApsUnicast tsn body) (act_return ())"

definition neighbor_descriptor :: "State \<Rightarrow> NeighborEntry \<Rightarrow> NeighborDescriptor" where
  "neighbor_descriptor st e =
     \<lparr>nd_extended_pan_id = extended_pan_id st, nd_extended_address = extended_address e,
      nd_network_address = NeighborEntry.network_address e,
      nd_device_type = (case NeighborEntry.device_type e of Coordinator \<Rightarrow> ZdpCoordinator | Router \<Rightarrow> ZdpRouter | EndDevice \<Rightarrow> ZdpEndDevice),
      nd_rx_on_when_idle = (if rx_on_when_idle e then ZdpIdleOn else ZdpIdleOff),
      nd_affinity = (case relationship e of Parent \<Rightarrow> ZdpParent | Child \<Rightarrow> ZdpChild | Sibling \<Rightarrow> ZdpSibling | _ \<Rightarrow> ZdpNoneOfTheAbove),
      nd_permit_joining = ZdpPermitUnknown, nd_depth = 1, nd_lqa = (case lqa e of None \<Rightarrow> 0 | Some q \<Rightarrow> q)\<rparr>"

text \<open>\<^verbatim>\<open>entries.sort_by_key(..)\<close> is a stable sort.\<close>

definition mgmt_lqi_rsp :: "ZigbeeStack \<Rightarrow> u8 \<Rightarrow> MgmtLqiRsp" where
  "mgmt_lqi_rsp s start =
     (let entries = sort_key NeighborEntry.network_address (fm_values (table (stack_neighbors s))) in
      \<lparr>lr_status = ZdpSuccess, lr_neighbor_table_entries = of_nat (length entries), lr_start_index = start,
       lr_neighbor_table_list = map (neighbor_descriptor (zs_state s))
         (take MGMT_LQI_DESCRIPTORS_PER_FRAME (drop (unat start) entries))\<rparr>)"

definition routing_descriptor :: "RouteEntry \<Rightarrow> RoutingDescriptor" where
  "routing_descriptor e =
     \<lparr>rd_destination_address = re_destination e,
      rd_status = (case re_status e of Active \<Rightarrow> ZdpActive | DiscoveryUnderway \<Rightarrow> ZdpDiscoveryUnderway
                   | DiscoveryFailed \<Rightarrow> ZdpDiscoveryFailed | Inactive \<Rightarrow> ZdpInactive),
      rd_memory_constrained = False, rd_many_to_one = many_to_one e, rd_route_record_required = route_record_required e,
      rd_next_hop_address = next_hop_address e\<rparr>"

definition mgmt_rtg_rsp :: "ZigbeeStack \<Rightarrow> u8 \<Rightarrow> MgmtRtgRsp" where
  "mgmt_rtg_rsp s start =
     (let entries = sort_key re_destination (fm_values (route_table (stack_routing s))) in
      \<lparr>rt_status = ZdpSuccess, rt_routing_table_entries = of_nat (length entries), rt_start_index = start,
       rt_routing_table_list = map routing_descriptor
         (take MGMT_RTG_DESCRIPTORS_PER_FRAME (drop (unat start) entries))\<rparr>)"

definition handle_mgmt_req :: "libs \<Rightarrow> instant \<Rightarrow> NwkCommand NwkFrame \<Rightarrow> u8 \<Rightarrow> (ZigbeeStack \<Rightarrow> ZdpBody) \<Rightarrow> unit stack_act" where
  "handle_mgmt_req lib now f tsn response =
     act_bind (act_gets own_nwk) (\<lambda>own.
       act_when (destination (nwk_header f) = own)
         (act_bind (act_gets response) (send_zdp_response lib now (source (nwk_header f)) tsn)))"

definition handle_device_annce :: "DeviceAnnce \<Rightarrow> unit stack_act" where
  "handle_device_annce annce =
     (if da_ieee_addr annce = - 1 then modify_addresses (\<lambda>a. forget_address a (da_nwk_addr annce))
      else
        act_seq (modify_addresses (\<lambda>a. claim a (da_ieee_addr annce) (da_nwk_addr annce)))
          (modify_neighbors (\<lambda>n. update_network_address n (da_ieee_addr annce) (da_nwk_addr annce))))"

definition handle_parent_annce :: "libs \<Rightarrow> instant \<Rightarrow> NwkCommand NwkFrame \<Rightarrow> u8 \<Rightarrow> ParentAnnce \<Rightarrow> unit stack_act" where
  "handle_parent_annce lib now f tsn annce =
     act_seq (act_modify (\<lambda>s. s\<lparr>zs_parent_annce_received := Some now\<rparr>))
     (act_bind (call_neighbors (\<lambda>n. process_parent_annce n (pa_children annce))) (\<lambda>(claimed, removed).
      act_seq (act_each (\<lambda>(e, nwk). cleanup_moved_child now e nwk) removed)
        (act_when (claimed \<noteq> [])
          (send_zdp_response lib now (source (nwk_header f)) tsn
             (ParentAnnceRspBody \<lparr>pr_status = ZdpSuccess, pr_children = claimed\<rparr>)))))"

definition handle_parent_annce_rsp :: "instant \<Rightarrow> ParentAnnceRsp \<Rightarrow> unit stack_act" where
  "handle_parent_annce_rsp now response =
     act_bind (call_neighbors (\<lambda>n. remove_claimed_children n (pr_children response)))
       (act_each (\<lambda>(e, nwk). cleanup_moved_child now e nwk))"

text \<open>A malformed command is only logged.\<close>

definition handle_zdp_body :: "libs \<Rightarrow> instant \<Rightarrow> NwkCommand NwkFrame \<Rightarrow> u8 \<Rightarrow> ZdpBody \<Rightarrow> unit stack_act" where
  "handle_zdp_body lib now f tsn body =
     (case body of
        DeviceAnnceBody annce \<Rightarrow> handle_device_annce annce
      | ParentAnnceBody annce \<Rightarrow> handle_parent_annce lib now f tsn annce
      | ParentAnnceRspBody response \<Rightarrow> handle_parent_annce_rsp now response
      | MgmtLqiReqBody request \<Rightarrow> handle_mgmt_req lib now f tsn (\<lambda>s. MgmtLqiRspBody (mgmt_lqi_rsp s (lq_start_index request)))
      | MgmtRtgReqBody request \<Rightarrow> handle_mgmt_req lib now f tsn (\<lambda>s. MgmtRtgRspBody (mgmt_rtg_rsp s (rq_start_index request)))
      | MgmtLqiRspBody _ \<Rightarrow> act_return ()
      | MgmtRtgRspBody _ \<Rightarrow> act_return ())"

definition handle_zdp_frame :: "libs \<Rightarrow> instant \<Rightarrow> NwkCommand NwkFrame \<Rightarrow> ApsDataFrame \<Rightarrow> unit stack_act" where
  "handle_zdp_frame lib now f d =
     act_when (profile_id d = ZDP_PROFILE_ID \<and> destination_endpoint d = Some 0)
       (act_let_some (zdp_cluster_of (cluster_id d)) (\<lambda>c.
          case zdp_deserialize (lib_zdp lib) c (asdu d) of
            Inl _ \<Rightarrow> act_return ()
          | Inr (tsn, body) \<Rightarrow> handle_zdp_body lib now f tsn body))"

end
