(* ===== verification/Stack_Receive.thy ===== *)
theory Stack_Receive
  imports Stack_Nwk Stack_Aps
begin

text \<open>
  \<^verbatim>\<open>zigbee_stack/mac.rs\<close> and the receive loop \<^verbatim>\<open>ZigbeeStack::run\<close>: a packet of the radio is parsed, filtered by address,
  decrypted, and handed to the network layer and the application support layer. \<open>receive_packet\<close> is one turn of the loop.
\<close>

section \<open>Beacons\<close>

definition STACK_PROFILE :: "4 word" where
  "STACK_PROFILE = 2"

definition zigbee_beacon :: "ZigbeeStack \<Rightarrow> ZigbeeBeacon" where
  "zigbee_beacon s =
     \<lparr>zb_protocol_id = 0, zb_stack_profile = STACK_PROFILE, zb_protocol_version = PROTOCOL_VERSION, zb_reserved1 = 0,
      zb_router_capacity = True, zb_device_depth = 0, zb_end_device_capacity = (\<not> at_child_capacity s),
      zb_extended_pan_id = extended_pan_id (zs_state s), zb_tx_offset = 0xFFFFFF, zb_update_id = nib_update_id (stack_nib s)\<rparr>"

definition beacon_frame :: "ZigbeeStack \<Rightarrow> bool \<Rightarrow> u8 list \<Rightarrow> u8 list Ieee802154Frame" where
  "beacon_frame s permitting bytes =
     MacBeacon \<lparr>bf_header =
        \<lparr>mac_frame_control = \<lparr>mac_frame_type = BeaconType, security_enabled = False, frame_pending = False, ack_request = False,
           pan_id_compression = False, mac_reserved1 = False, sequence_number_suppression = False,
           information_elements_present = False, dest_addr_mode = NoAddress, frame_version = Ieee2003,
           src_addr_mode = ShortAddress\<rparr>,
         mac_sequence_number = Some (ms_sequence_number (mac (zs_core s))), dest_pan_id = None, dest_address = None,
         src_pan_id = Some (ms_pan_id (mac (zs_core s))), src_address = Some (NwkAddr (own_nwk s))\<rparr>,
       superframe_specification =
        \<lparr>beacon_interval = 15, superframe_interval = 15, final_cap_slot = 15, battery_extension = False, sfs_reserved1 = 0,
         pan_coordinator = (role (zs_state s) = Coordinator), association_permit = permitting\<rparr>,
       gts_specification = 0, pending_address_specification = 0, beacon_payload = bytes, bf_fcs = 0\<rparr>"

definition send_802154_beacon :: "libs \<Rightarrow> instant \<Rightarrow> unit stack_act" where
  "send_802154_beacon lib now =
     act_bind (act_gets (permitting_joins now)) (\<lambda>permitting.
     act_bind (act_gets zigbee_beacon) (\<lambda>beacon.
     act_bind (act_run (unwrap (lib_write_beacon lib beacon))) (\<lambda>bytes.
     act_bind (act_gets (\<lambda>s. beacon_frame s permitting bytes)) (\<lambda>f.
     act_seq (stack_enqueue_broadcast now (FrameRaw f)
         \<lparr>tp_priority = (if permitting then StackCritical else Background), tp_class = Critical\<rparr> Once)
       (act_return ())))))"

text \<open>One turn of the beacon reactor: whether it sleeps the interval before the next turn, or waits for its wake.\<close>

definition beacon_spam_turn :: "libs \<Rightarrow> instant \<Rightarrow> bool stack_act" where
  "beacon_spam_turn lib now =
     act_bind (act_gets (\<lambda>s. (case beacon_spam_until (zs_core s) of None \<Rightarrow> False | Some t \<Rightarrow> now < t, permitting_joins now s)))
       (\<lambda>(spraying, permitting).
       if spraying then act_seq (act_when permitting (send_802154_beacon lib now)) (act_return True)
       else act_return False)"

definition beacon_request_frame :: "u8 \<Rightarrow> u8 list Ieee802154Frame" where
  "beacon_request_frame seq =
     MacCommand \<lparr>cf_header =
        \<lparr>mac_frame_control = \<lparr>mac_frame_type = CommandType, security_enabled = False, frame_pending = False, ack_request = False,
           pan_id_compression = False, mac_reserved1 = False, sequence_number_suppression = False,
           information_elements_present = False, dest_addr_mode = ShortAddress, frame_version = Ieee2003,
           src_addr_mode = NoAddress\<rparr>,
         mac_sequence_number = Some seq, dest_pan_id = Some 0xFFFF, dest_address = Some (NwkAddr 0xFFFF), src_pan_id = None,
         src_address = None\<rparr>,
       command_payload = BeaconRequest, cf_fcs = 0\<rparr>"

definition beacon_request_psdu :: "libs \<Rightarrow> u8 list stack_act" where
  "beacon_request_psdu lib =
     act_bind (act_state (\<lambda>s. let n = ms_sequence_number (mac (zs_core s)) + 1
         in (n, on_core (\<lambda>c. c\<lparr>mac := (mac c)\<lparr>ms_sequence_number := n\<rparr>\<rparr>) s))) (\<lambda>n.
       act_run (mac_to_bytes_without_fcs (lib_mac lib) id (beacon_request_frame n)))"

section \<open>Scans\<close>

definition network_beacon :: "Ieee802154BeaconFrame \<Rightarrow> ZigbeeBeacon \<Rightarrow> PanId \<Rightarrow> u8 \<Rightarrow> u8 \<Rightarrow> u8 \<Rightarrow> NetworkBeacon" where
  "network_beacon b z pan channel lqi rssi =
     \<lparr>nbc_channel = channel,
      nbc_source = (case src_address (bf_header b) of Some (NwkAddr nwk) \<Rightarrow> Some nwk | _ \<Rightarrow> None),
      nbc_pan_id = pan, nbc_extended_pan_id = zb_extended_pan_id z,
      nbc_permit_joining = association_permit (superframe_specification b), nbc_stack_profile = ucast (zb_stack_profile z),
      nbc_protocol_version = ucast (zb_protocol_version z), nbc_router_capacity = zb_router_capacity z,
      nbc_end_device_capacity = zb_end_device_capacity z, nbc_device_depth = ucast (zb_device_depth z),
      nbc_update_id = zb_update_id z, nbc_lqi = lqi, nbc_rssi = rssi\<rparr>"

definition handle_beacon :: "libs \<Rightarrow> Ieee802154BeaconFrame \<Rightarrow> u8 \<Rightarrow> u8 \<Rightarrow> u8 \<Rightarrow> unit stack_act" where
  "handle_beacon lib b channel lqi rssi =
     act_bind (act_gets zs_scan_active) (\<lambda>active.
       act_when active
         (act_seq (act_modify (\<lambda>s. s\<lparr>zs_scan_beacon_frames := zs_scan_beacon_frames s + 1\<rparr>))
           (case (lib_read_beacon lib (beacon_payload b), src_pan_id (bf_header b)) of
              (Some z, Some pan) \<Rightarrow>
                act_seq (act_modify (\<lambda>s. s\<lparr>zs_scan_beacons := zs_scan_beacons s @ [network_beacon b z pan channel lqi rssi]\<rparr>))
                  (notify WakeScanBeacon)
            | _ \<Rightarrow> act_return ())))"

definition begin_network_scan :: "unit stack_act" where
  "begin_network_scan = act_modify (\<lambda>s. s\<lparr>zs_scan_beacons := [], zs_scan_active := True\<rparr>)"

text \<open>The close of the window at the end of a scan, and one turn of the drain: \<open>None\<close> when it waits.\<close>

definition end_network_scan :: "unit stack_act" where
  "end_network_scan = act_seq (act_modify (\<lambda>s. s\<lparr>zs_scan_active := False\<rparr>)) (notify WakeScanBeacon)"

definition next_scan_beacons :: "NetworkBeacon list option stack_act" where
  "next_scan_beacons =
     act_state (\<lambda>s.
       if zs_scan_beacons s \<noteq> [] then (Some (zs_scan_beacons s), s\<lparr>zs_scan_beacons := []\<rparr>)
       else if \<not> zs_scan_active s then (Some [], s)
       else (None, s))"

section \<open>MAC commands\<close>

definition addressed_to_us :: "ZigbeeStack \<Rightarrow> Ieee802154Address option \<Rightarrow> bool" where
  "addressed_to_us s a =
     (case a of
        Some (NwkAddr nwk) \<Rightarrow> nwk = own_nwk s \<or> nwk = 0xFFFF
      | Some (Eui64Addr e) \<Rightarrow> e = own_eui64 s
      | None \<Rightarrow> False)"

definition pan_matches :: "ZigbeeStack \<Rightarrow> PanId option \<Rightarrow> bool" where
  "pan_matches s p = (case p of None \<Rightarrow> False | Some d \<Rightarrow> d = ms_pan_id (mac (zs_core s)) \<or> d = 0xFFFF)"

definition process_802154_command_frame :: "libs \<Rightarrow> instant \<Rightarrow> Ieee802154CommandFrame \<Rightarrow> unit stack_act" where
  "process_802154_command_frame lib now f =
     act_bind (act_gets (\<lambda>s. pan_matches s (dest_pan_id (cf_header f)) \<and> addressed_to_us s (dest_address (cf_header f)))) (\<lambda>ours.
       act_when ours
         (case command_payload f of
            BeaconRequest \<Rightarrow>
              act_bind (act_gets (\<lambda>s. (hack_beacon_spam_duration (zs_state s), permitting_joins now s))) (\<lambda>(spam, permitting).
                if spam = 0 \<or> \<not> permitting then send_802154_beacon lib now
                else act_seq (act_modify (on_core (\<lambda>c. c\<lparr>beacon_spam_until := Some (instant_add now spam)\<rparr>)))
                       (notify WakeBeaconSpam))
          | AssociationRequest request \<Rightarrow>
              act_bind (act_gets (\<lambda>s. role (zs_state s) = Coordinator)) (\<lambda>coordinator.
                act_when coordinator (process_802154_association_request now f request))
          | DataRequest \<Rightarrow> handle_data_request now f
          | _ \<Rightarrow> act_return ()))"

section \<open>Data frames\<close>

definition process_gpdf :: "u8 list Ieee802154DataFrame \<Rightarrow> u8 \<Rightarrow> u8 \<Rightarrow> unit stack_act" where
  "process_gpdf f lqi rssi =
     act_bind (act_gets (\<lambda>s. pan_matches s (dest_pan_id (df_header f)))) (\<lambda>ours.
       act_when ours
         (act_let_some (mac_sequence_number (df_header f)) (\<lambda>seq.
            push_notification (ReceivedGpdf seq
              (case src_address (df_header f) of Some (Eui64Addr e) \<Rightarrow> Some e | _ \<Rightarrow> None) lqi rssi (df_payload f)))))"

definition is_gpdf :: "libs \<Rightarrow> u8 list \<Rightarrow> bool" where
  "is_gpdf lib bytes =
     (case lib_gp lib bytes of None \<Rightarrow> False | Some control \<Rightarrow> gp_protocol_version control = GP_PROTOCOL_VERSION)"

definition is_transit :: "ZigbeeStack \<Rightarrow> NwkHeader \<Rightarrow> bool" where
  "is_transit s h \<longleftrightarrow> destination h \<noteq> own_nwk s \<and> destination h < BROADCAST_ALL_ROUTERS_AND_COORDINATOR"

text \<open>The checks of a secured frame before its key is used: the device that secured it.\<close>

definition secured_by :: "EncryptedNwkFrame \<Rightarrow> (NwkAuxHeader \<times> Eui64) option" where
  "secured_by enc =
     (case enc_aux_header enc of
        None \<Rightarrow> None
      | Some aux \<Rightarrow>
          if security_level (nwk_security_control aux) \<noteq> NoSecurity then None
          else if key_id (nwk_security_control aux) \<noteq> NetworkKey then None
          else (case nwk_extended_source aux of None \<Rightarrow> None | Some e \<Rightarrow> Some (aux, e)))"

definition process_secured_nwk_frame ::
  "libs \<Rightarrow> instant \<Rightarrow> EncryptedNwkFrame \<Rightarrow> Ieee802154Address option \<Rightarrow> u8 \<Rightarrow> NwkCommand NwkFrame option stack_act" where
  "process_secured_nwk_frame lib now enc src lqi =
     (case secured_by enc of
        None \<Rightarrow> act_return None
      | Some (aux, e) \<Rightarrow>
          act_bind (act_gets (\<lambda>s. inbound_network_key (stack_nwk_security s) e (nwk_key_sequence_number aux) (nwk_frame_counter aux))) (\<lambda>key.
            case key of
              None \<Rightarrow> act_return None
            | Some key \<Rightarrow>
                act_bind (act_run (nwk_frame_decrypt (lib_bits lib) (nwk_command_codec (lib_bodies lib)) (lib_open lib) enc key)) (\<lambda>opened.
                  case (opened, src) of
                    (Inr f, Some (NwkAddr sender)) \<Rightarrow>
                      act_bind (act_gets (\<lambda>s. is_transit s (enc_header enc))) (\<lambda>transit.
                        if transit then act_seq (relay_unicast_nwk_frame now f sender lqi) (act_return None)
                        else act_seq (handle_decrypted_frame now f sender lqi) (act_return (Some f)))
                  | _ \<Rightarrow> act_return None)))"

definition process_nwk_frame ::
  "libs \<Rightarrow> instant \<Rightarrow> EncryptedNwkFrame \<Rightarrow> Ieee802154Address option \<Rightarrow> u8 \<Rightarrow> NwkCommand NwkFrame option stack_act" where
  "process_nwk_frame lib now enc src lqi =
     (if reserved1 (frame_control (enc_header enc)) \<noteq> 0 then act_return None
      else if \<not> fc_security (frame_control (enc_header enc)) then
        act_bind (act_run (payload_from_bytes (nwk_command_codec (lib_bodies lib)) (frame_type (frame_control (enc_header enc)))
            (ciphertext enc))) (\<lambda>p.
          act_seq (handle_unsecured_nwk_frame now \<lparr>nwk_header = enc_header enc, aux_header = None, payload = p\<rparr>) (act_return None))
      else process_secured_nwk_frame lib now enc src lqi)"

definition process_802154_data_frame ::
  "libs \<Rightarrow> instant \<Rightarrow> u8 list Ieee802154DataFrame \<Rightarrow> u8 \<Rightarrow> u8 \<Rightarrow> NwkCommand NwkFrame option stack_act" where
  "process_802154_data_frame lib now f lqi rssi =
     (if security_enabled (mac_frame_control (df_header f)) then act_return None
      else if is_gpdf lib (df_payload f) then act_seq (process_gpdf f lqi rssi) (act_return None)
      else
        act_bind (act_gets (\<lambda>s. dest_pan_id (df_header f) = Some (ms_pan_id (mac (zs_core s))) \<and>
            (hack_disable_tx (zs_state s) \<or> addressed_to_us s (dest_address (df_header f))))) (\<lambda>ours.
          if \<not> ours then act_return None
          else
            act_bind (act_run (encrypted_nwk_frame_from_bytes (lib_bits lib) (df_payload f))) (\<lambda>parsed.
              case parsed of
                Inl _ \<Rightarrow> act_return None
              | Inr enc \<Rightarrow> process_nwk_frame lib now enc (src_address (df_header f)) lqi)))"

section \<open>The application support layer\<close>

definition deliver_aps_data ::
  "libs \<Rightarrow> instant \<Rightarrow> NwkCommand NwkFrame \<Rightarrow> ApsDataFrame \<Rightarrow> Eui64 option \<Rightarrow> bool \<Rightarrow> u8 \<Rightarrow> u8 \<Rightarrow> unit stack_act" where
  "deliver_aps_data lib now f d src encrypted lqi rssi =
     act_bind (is_duplicate_aps_frame now (source (nwk_header f)) (data_counter d)) (\<lambda>duplicate.
     act_seq (act_when (aps_ack_request (data_frame_control d)) (handle_aps_ack_request lib now d f src))
       (act_when (\<not> duplicate)
         (act_seq (handle_zdp_frame lib now f d)
           (push_notification (ReceivedApsCommand (source (nwk_header f)) (destination (nwk_header f)) (group_id d)
              (profile_id d) (cluster_id d) (source_endpoint d)
              (case destination_endpoint d of None \<Rightarrow> 0 | Some e \<Rightarrow> e) lqi rssi encrypted (asdu d))))))"

definition process_aps_payload ::
  "libs \<Rightarrow> instant \<Rightarrow> NwkCommand NwkFrame \<Rightarrow> u8 list \<Rightarrow> u8 \<Rightarrow> u8 \<Rightarrow> unit stack_act" where
  "process_aps_payload lib now f bytes lqi rssi =
     act_bind (act_run (parse_aps_frame (lib_aps lib) bytes)) (\<lambda>parsed.
       case parsed of
         Inl _ \<Rightarrow> act_return ()
       | Inr (ApsData d) \<Rightarrow> deliver_aps_data lib now f d None False lqi rssi
       | Inr (ApsEncryptedData enc) \<Rightarrow>
           act_bind (decrypt_aps_data_frame lib f enc) (\<lambda>opened.
             act_let_some opened (\<lambda>(d, e). deliver_aps_data lib now f d (Some e) True lqi rssi))
       | Inr (ApsFrame.ApsAck ack) \<Rightarrow> handle_aps_ack now f ack
       | Inr (ApsEncryptedAck enc) \<Rightarrow>
           act_bind (decrypt_aps_ack_frame lib f enc) (\<lambda>opened. act_let_some opened (handle_aps_ack now f))
       | Inr (ApsCommand cmd) \<Rightarrow> handle_aps_command_frame lib now f cmd None None
       | Inr (ApsEncryptedCommand enc) \<Rightarrow> handle_encrypted_aps_command_frame lib now f enc)"

section \<open>The receive loop\<close>

record RxFrame =
  rx_psdu :: "u8 list"
  rx_channel :: u8
  rx_rssi :: u8
  rx_lqi :: u8

definition process_frame :: "libs \<Rightarrow> instant \<Rightarrow> RxFrame \<Rightarrow> u8 list Ieee802154Frame \<Rightarrow> unit stack_act" where
  "process_frame lib now packet frame =
     act_bind (act_gets own_nwk) (\<lambda>own.
       case frame of
         MacBeacon b \<Rightarrow> handle_beacon lib b (rx_channel packet) (rx_lqi packet) (rx_rssi packet)
       | _ \<Rightarrow>
           act_when (src_address (mac_header frame) \<noteq> Some (NwkAddr own))
             (case frame of
                MacData d \<Rightarrow>
                  act_bind (process_802154_data_frame lib now d (rx_lqi packet) (rx_rssi packet)) (\<lambda>received.
                    act_let_some received (\<lambda>f.
                      case payload f of
                        Opaque bytes \<Rightarrow> process_aps_payload lib now f bytes (rx_lqi packet) (rx_rssi packet)
                      | Command _ \<Rightarrow> act_return ()))
              | MacCommand c \<Rightarrow> process_802154_command_frame lib now c
              | _ \<Rightarrow> act_return ()))"

definition receive_packet :: "libs \<Rightarrow> instant \<Rightarrow> RxFrame \<Rightarrow> unit stack_act" where
  "receive_packet lib now packet =
     act_bind (act_run (mac_from_bytes_without_fcs (lib_mac lib) (rx_psdu packet))) (\<lambda>parsed.
       case parsed of
         Inl _ \<Rightarrow> act_return ()
       | Inr frame \<Rightarrow> process_frame lib now packet frame)"

end
