(* ===== verification/Spec2Isabelle.thy ===== *)
theory Spec2Isabelle
  imports Flat_Map Ring_Buffer Nwk_Security Aps_Lifecycle Routing_Props Neighbors_Props Nwk_Frame Addresses Next_Hop Nwk_Broadcasts Sends_Props Broadcast_Budget Send_Tracker Spinel_Protocol Mac_Fcs Aps_End_To_End
    Stack_Transmit Stack_Receive
begin

text \<open>
  Verification library for ziggurat, a Zigbee coordinator stack written in Rust.

  \<^bold>\<open>The program.\<close> \<^verbatim>\<open>ziggurat-ieee-802154\<close> reads and writes MAC frames. \<^verbatim>\<open>ziggurat-zigbee\<close> is the
  protocol without input and output: frames of the network (NWK) and application support (APS) layers, their
  protection, the neighbour, route, address and broadcast tables, and the tables of the frames we are sending.
  \<^verbatim>\<open>ziggurat-driver\<close> owns these tables and moves frames between them and the radio. \<^verbatim>\<open>ziggurat-spinel\<close> is the
  serial link to a radio co-processor, and \<^verbatim>\<open>ziggurat-protocol\<close> the protocol spoken with the host.
  A received packet passes the check sequence and the MAC parser, is deduplicated and opened by the NWK layer
  (broadcast table, neighbour table, routing, NWK security), then by the APS layer (frame recognition, APS
  security). A send goes the other way: the next hop is chosen from the routing and neighbour tables, the frame
  waits in one of three send tables, broadcasts pass a token bucket, and the verdict is confirmed to the host.

  \<^bold>\<open>Conventions.\<close> Machine integers are words of the width in the source, and wrap as in the release profile.
  A panic is the value \<open>Panic\<close> of the type \<open>run\<close> (\<open>Prelude\<close>); a \<^verbatim>\<open>Result\<close> is a sum with the error on the left; an
  operation on \<^verbatim>\<open>&mut self\<close> returns the new state. Instants are 64-bit microseconds and durations whole
  microseconds. Log statements are left out. Everything is executable.

  \<^bold>\<open>Parameters.\<close> Third-party code enters as arguments of the definitions that use it: the AES block function and
  detached CCM (\<^verbatim>\<open>aes\<close>, \<^verbatim>\<open>ccm\<close>), the CRC of the serial link (\<^verbatim>\<open>crc_all\<close>), and the readers and writers that the
  \<^verbatim>\<open>abstract_bits\<close> crate derives for packed structures. What is assumed of them (sealing and opening are inverse and
  keep lengths, a derived reader inverts its writer on a fixed number of bytes) is a hypothesis of the theorems
  that need it; the witnesses instantiate the packed structures with the layouts of \<open>Bit_Layout\<close>.

  \<^bold>\<open>Foundations.\<close>
  \<^item> \<open>Prelude\<close>, \<open>Address_Types\<close>: shared vocabulary; \<^verbatim>\<open>time.rs\<close>; the byte forms of \<^verbatim>\<open>ziggurat-ieee-802154/src/types.rs\<close>.
  \<^item> \<open>Flat_Map\<close>: \<^verbatim>\<open>flat_map.rs\<close>. The sorted vector refines a finite map along every run of its operations. Its
    contract is the locale \<open>sorted_table\<close>, interpreted as \<open>fm\<close>; all the tables below rest on \<open>fm\<close>.
  \<^item> \<open>Ring_Buffer\<close>: \<^verbatim>\<open>ring_buffer.rs\<close>. Up to capacity 254 the ring holds the last values pushed; at 255 it does not.
  \<^item> \<open>Tunables\<close>: \<^verbatim>\<open>constants.rs\<close>. Set commands keep every parameter at its type.
  \<^item> \<open>Bit_Layout\<close>: big- and little-endian packing of fixed-width fields, for the sample codecs.

  \<^bold>\<open>Security.\<close>
  \<^item> \<open>Replay_Guard\<close>: the locale \<open>replay_guard\<close>, a step that accepts or rejects a counter of a sender; accepted
    counters increase along every history. Interpreted in \<open>Nwk_Security\<close> (\<^verbatim>\<open>nwk/security.rs\<close>) and \<open>Aps_Security\<close>
    (\<^verbatim>\<open>aps/security.rs\<close>).
  \<^item> \<open>Crypto\<close>: \<^verbatim>\<open>crypto.rs\<close>: AES-MMO, the keyed hash, derived keys, CCM* framing.
  \<^item> \<open>Security_Headers\<close>: the auxiliary headers of \<^verbatim>\<open>nwk/frame.rs\<close> and \<^verbatim>\<open>aps/frame.rs\<close>.
  \<^item> \<open>Aps_Lifecycle\<close>: histories of joins, key issues and verifications; distinct nonces of all frames we encrypt.

  \<^bold>\<open>Frames.\<close>
  \<^item> \<open>Mac_Frame\<close>, \<open>Mac_Fcs\<close>: \<^verbatim>\<open>ziggurat-ieee-802154/src/lib.rs\<close> and \<^verbatim>\<open>commands.rs\<close>. A frame that was accepted is a
    fixed point of writing and reading; the check sequence detects every error within two adjacent bytes.
  \<^item> \<open>Nwk_Frame\<close>: \<^verbatim>\<open>nwk/frame.rs\<close>; round trips of encrypted frames and of encryption.
  \<^item> \<open>Aps_Frame\<close>, \<open>Aps_Frame_Props\<close>: \<^verbatim>\<open>aps/frame.rs\<close>; every well-formed frame is recognised and read back.
  \<^item> \<open>Aps_End_To_End\<close>: key table, encryption, recognition, decryption and replay check composed between two nodes.

  \<^bold>\<open>Tables of the network layer.\<close>
  \<^item> \<open>Routing\<close>, \<open>Routing_Facts\<close>, \<open>Routing_Props\<close>: \<^verbatim>\<open>nwk/routing.rs\<close>: invariant, absence of panics, route requests
    and replies, route records, and that no discovery blocks its destination for ever.
  \<^item> \<open>Neighbors\<close>, \<open>Neighbors_Facts\<close>, \<open>Neighbors_Props\<close>: \<^verbatim>\<open>nwk/neighbors.rs\<close>: the same for the neighbour table.
  \<^item> \<open>Addresses\<close> (\<^verbatim>\<open>nwk/addresses.rs\<close>), \<open>Nwk_Broadcasts\<close> (\<^verbatim>\<open>nwk/broadcasts.rs\<close>), \<open>Next_Hop\<close> (\<^verbatim>\<open>nwk/next_hop.rs\<close>).

  \<^bold>\<open>Sends.\<close>
  \<^item> \<open>Sends_Base\<close> (the locale \<open>settling\<close>), \<open>Unicasts\<close>, \<open>Unrouted\<close>, \<open>Send_Broadcasts\<close> and \<open>Sends\<close> model the four files
    of \<^verbatim>\<open>sends/\<close>; each table interprets \<open>settling\<close>. \<open>Unicasts_Facts\<close>, \<open>Sends_Facts\<close> and \<open>Sends_Props\<close> treat every
    mutation as a step of a machine that also holds the frames on loan to the radio: no step panics, and each
    waiter is live in one record or got one verdict.
  \<^item> \<open>Broadcast_Budget\<close>: \<^verbatim>\<open>ziggurat-driver/src/broadcast_budget.rs\<close>; a bound on the broadcasts of any window.
  \<^item> \<open>Send_Tracker\<close>: \<^verbatim>\<open>zigbee_stack/send_handle.rs\<close> and \<^verbatim>\<open>ziggurat-protocol/src/send_tracker.rs\<close>; every tracked send is
    confirmed once.

  \<^bold>\<open>Serial link.\<close>
  \<^item> \<open>Spinel\<close>, \<open>Spinel_Protocol\<close>: \<^verbatim>\<open>ziggurat-spinel/src/lib.rs\<close>: packed integers, framing, reassembly and transaction
    identifiers.

  \<^bold>\<open>Bounds and fuel.\<close> No definition has fuel. Bisection, the rings, the identifier searches and the parsers recurse on a
  decreasing measure, with a termination proof. The allocation of a network address draws candidates from a
  list that stands for the random generator; running off its end is \<open>Panic\<close>, and the statements on allocation are
  about the first free candidate of the list.

  \<^bold>\<open>Not modelled.\<close>
  \<^item> The asynchronous shell of \<^verbatim>\<open>ziggurat-driver\<close> (tasks, mutexes, channels, timers, the radio): the properties of the
    tables are stated for every order of the calls it can make.
  \<^item> \<^verbatim>\<open>ziggurat-spinel/src/client.rs\<close>, the \<^verbatim>\<open>ziggurat-phy\<close> crates, \<^verbatim>\<open>ziggurat-ot\<close> and \<^verbatim>\<open>ziggurat-ncp-api\<close>: bindings to
    radios and serial ports.
  \<^item> \<^verbatim>\<open>ziggurat-server\<close>, \<^verbatim>\<open>bridge.rs\<close> and \<^verbatim>\<open>wire.rs\<close>: sockets, and messages whose codec is derived by third-party crates.
  \<^item> Debug formatting, hexadecimal parsing, tests, fuzz targets and tools.
\<close>

end
